theory Spec2Isabelle
  imports Main "HOL-Library.Sublist" "HOL-Library.AList"
begin

section \<open>Exceptions, events and the environment\<close>

text \<open>
  The program is a Python script (\<^verbatim>\<open>mysql2sqlite.py\<close>) and its library module
  (\<^verbatim>\<open>mysql2sqlite_lib.py\<close>). Everything it does is an interaction with its
  environment: the file system, the \<^verbatim>\<open>sqlite3\<close> module, the MySQL cursor and the
  logger. The embedding keeps the control flow of the source and makes each of these
  interactions explicit:
  \<^item> every raise and every \<^verbatim>\<open>sys.exit\<close> is a value of type \<open>exn\<close>;
  \<^item> every call into the environment appends an event to a trace, in program order;
  \<^item> what the environment answers is read from an \<open>engine\<close>, a record of functions
    over a state of the outside world that the program threads through its calls.
\<close>

datatype exit_arg =
    ExitInt int       \<comment> \<open>\<^verbatim>\<open>sys.exit(1)\<close>\<close>
  | ExitText string   \<comment> \<open>\<^verbatim>\<open>sys.exit(error_message)\<close>: message on stderr, status 1\<close>
  | ExitOSError       \<comment> \<open>\<^verbatim>\<open>sys.exit(error)\<close> with the caught \<^verbatim>\<open>OSError\<close>\<close>

datatype exn =
    SystemExit exit_arg
  | KeyError string          \<comment> \<open>a dictionary subscript with a missing key\<close>
  | OSError                  \<comment> \<open>\<^verbatim>\<open>IOError\<close> is the same class in Python 3\<close>
  | NoSectionError string
  | ConfigParserError string \<comment> \<open>any other \<^verbatim>\<open>configparser.Error\<close>, by class name\<close>
  | SqliteError              \<comment> \<open>\<^verbatim>\<open>sqlite3.Error\<close> and its subclasses\<close>
  | MysqlError               \<comment> \<open>\<^verbatim>\<open>mysql.connector.Error\<close>\<close>

datatype level = DEBUG | INFO | WARNING | ERROR

datatype conn =
    MainConn    \<comment> \<open>\<^verbatim>\<open>sqlite_connection\<close> of the script\<close>
  | ProbeConn   \<comment> \<open>the local \<^verbatim>\<open>con\<close> of \<^verbatim>\<open>sqlite_db_has_tables\<close>\<close>

datatype 'v event =
    Log level string                 \<comment> \<open>a logger call: level and format string;
                                          \<^verbatim>\<open>log.exception(fmt, ...)\<close> emits at level ERROR\<close>
  | LogExc exn                       \<comment> \<open>\<^verbatim>\<open>log.exception(error)\<close> with a caught exception\<close>
  | PathExists string                \<comment> \<open>\<^verbatim>\<open>os.path.exists(p)\<close>\<close>
  | IsDir string                     \<comment> \<open>\<^verbatim>\<open>os.path.isdir(p)\<close>\<close>
  | AccessW string                   \<comment> \<open>\<^verbatim>\<open>os.access(p, os.W_OK)\<close>\<close>
  | MakeDirs string                  \<comment> \<open>\<^verbatim>\<open>os.makedirs(p)\<close>\<close>
  | Connect conn string              \<comment> \<open>\<^verbatim>\<open>sqlite3.connect(p)\<close>\<close>
  | ProbeExecute string              \<comment> \<open>\<^verbatim>\<open>cursor.execute(sql)\<close> and \<^verbatim>\<open>fetchone()\<close> on the probe's connection\<close>
  | ExecuteScript string             \<comment> \<open>\<^verbatim>\<open>db_connection.executescript(sql)\<close>\<close>
  | Execute string                   \<comment> \<open>\<^verbatim>\<open>sqlite_cursor.execute(sql)\<close>\<close>
  | ExecuteParams string "'v list"   \<comment> \<open>\<^verbatim>\<open>sqlite_cursor.execute(sql, (row))\<close>\<close>
  | Commit                           \<comment> \<open>\<^verbatim>\<open>sqlite_connection.commit()\<close>\<close>
  | SrcExecute string                \<comment> \<open>\<^verbatim>\<open>mysql_cursor.execute(sql)\<close>\<close>
  | SrcFetchall "'v list list option" \<comment> \<open>\<^verbatim>\<open>mysql_cursor.fetchall()\<close> and the rows it
                                          returned (\<open>None\<close>: it raised)\<close>
  | CloseSrc                         \<comment> \<open>\<^verbatim>\<open>mysql_connection.close()\<close>\<close>
  | Close conn                       \<comment> \<open>\<^verbatim>\<open>close()\<close> on a SQLite connection\<close>

text \<open>
  The environment. \<open>'w\<close> is the state of the outside world, \<open>'v\<close> the type of a column
  value. An operation answering \<open>None\<close> raises its library's error. A SQLite connection is
  named by the path it was opened on. \<open>isolation_level\<close> is the attribute of that name of
  the connection: a string, or \<^verbatim>\<open>None\<close> for a connection in autocommit mode, which
  \<^verbatim>\<open>sqlite3.connect\<close> gives only to a caller who asks for it by argument.
\<close>

record ('w, 'v) engine =
  os_path_exists :: "'w \<Rightarrow> string \<Rightarrow> bool"
  os_path_isdir :: "'w \<Rightarrow> string \<Rightarrow> bool"
  os_access_W_OK :: "'w \<Rightarrow> string \<Rightarrow> bool"
  os_makedirs :: "'w \<Rightarrow> string \<Rightarrow> 'w option"
  sqlite3_connect :: "'w \<Rightarrow> string \<Rightarrow> 'w option"
  count_tables :: "'w \<Rightarrow> string \<Rightarrow> nat option"
  isolation_level :: "'w \<Rightarrow> string \<Rightarrow> string option"
  executescript :: "'w \<Rightarrow> string \<Rightarrow> string \<Rightarrow> 'w option"
  execute :: "'w \<Rightarrow> string \<Rightarrow> string \<Rightarrow> 'w option"
  execute_params :: "'w \<Rightarrow> string \<Rightarrow> string \<Rightarrow> 'v list \<Rightarrow> 'w option"
  commit :: "'w \<Rightarrow> string \<Rightarrow> 'w option"
  mysql_execute :: "'w \<Rightarrow> string \<Rightarrow> 'w option"
  mysql_fetchall :: "'w \<Rightarrow> 'v list list option"

record ('w, 'v) state =
  world :: 'w
  trace :: "'v event list"

type_synonym ('a, 'w, 'v) prog = "('w, 'v) state \<Rightarrow> (exn + 'a) \<times> ('w, 'v) state"

definition returnM :: "'a \<Rightarrow> ('a, 'w, 'v) prog" where
  "returnM a s = (Inr a, s)"

definition raiseM :: "exn \<Rightarrow> ('a, 'w, 'v) prog" where
  "raiseM e s = (Inl e, s)"

definition bindM :: "('a, 'w, 'v) prog \<Rightarrow> ('a \<Rightarrow> ('b, 'w, 'v) prog) \<Rightarrow> ('b, 'w, 'v) prog" where
  "bindM m f s = (case m s of (Inl e, s') \<Rightarrow> (Inl e, s') | (Inr a, s') \<Rightarrow> f a s')"

text \<open>\<^verbatim>\<open>try: m except ... as error: h error\<close>; a handler for one class re-raises the others.\<close>

definition catch :: "('a, 'w, 'v) prog \<Rightarrow> (exn \<Rightarrow> ('a, 'w, 'v) prog) \<Rightarrow> ('a, 'w, 'v) prog" where
  "catch m h s = (case m s of (Inl e, s') \<Rightarrow> h e s' | (Inr a, s') \<Rightarrow> (Inr a, s'))"

definition emit :: "'v event \<Rightarrow> (unit, 'w, 'v) prog" where
  "emit ev s = (Inr (), s\<lparr>trace := trace s @ [ev]\<rparr>)"

definition log :: "level \<Rightarrow> string \<Rightarrow> (unit, 'w, 'v) prog" where
  "log lvl fmt = emit (Log lvl fmt)"

text \<open>A call that changes the world or raises \<open>err\<close>; the call is recorded either way.\<close>

definition effect :: "'v event \<Rightarrow> exn \<Rightarrow> ('w \<Rightarrow> 'w option) \<Rightarrow> (unit, 'w, 'v) prog" where
  "effect ev err f s =
     (case f (world s) of
        None \<Rightarrow> (Inl err, s\<lparr>trace := trace s @ [ev]\<rparr>)
      | Some w \<Rightarrow> (Inr (), \<lparr>world = w, trace = trace s @ [ev]\<rparr>))"

text \<open>A call that only reads the world.\<close>

definition observe :: "'v event \<Rightarrow> ('w \<Rightarrow> 'a) \<Rightarrow> ('a, 'w, 'v) prog" where
  "observe ev f s = (Inr (f (world s)), s\<lparr>trace := trace s @ [ev]\<rparr>)"

text \<open>\<^verbatim>\<open>d[key]\<close>: raises \<^verbatim>\<open>KeyError\<close> when the key is missing.\<close>

definition getitem :: "(string \<rightharpoonup> 'a) \<Rightarrow> string \<Rightarrow> ('a, 'w, 'v) prog" where
  "getitem d key = (case d key of None \<Rightarrow> raiseM (KeyError key) | Some x \<Rightarrow> returnM x)"

definition sys_exit :: "exit_arg \<Rightarrow> ('a, 'w, 'v) prog" where
  "sys_exit a = raiseM (SystemExit a)"

section \<open>Settings objects\<close>

text \<open>
  \<^verbatim>\<open>GeneralSettings\<close> holds dictionaries filled from the sections of the general config
  file; the flags are converted to booleans by \<^verbatim>\<open>getboolean\<close>. \<^verbatim>\<open>QuerySettings.queries\<close>
  is a dictionary from section (table) name to the dictionary of that section's fields.
  It is iterated in insertion order, so it is an association list; the inner dictionaries
  are only subscripted, so they are maps. \<^verbatim>\<open>ConfigParser\<close> without \<^verbatim>\<open>allow_no_value\<close>
  yields string values only, never \<^verbatim>\<open>None\<close>.
\<close>

record general_settings =
  flags :: "string \<rightharpoonup> bool"
  sqlitedb_config :: "string \<rightharpoonup> string"

record query_settings =
  queries :: "(string \<times> (string \<rightharpoonup> string)) list"

text \<open>
  What \<^verbatim>\<open>QuerySettings.__init__\<close> asks of its \<^verbatim>\<open>SafeConfigParser\<close>.
  \<^item> \<^verbatim>\<open>parser.read(config_file_list)\<close> answers the files it could process, or raises
    on a file it cannot parse (\<^verbatim>\<open>MissingSectionHeaderError\<close>, \<^verbatim>\<open>DuplicateSectionError\<close>,
    \<^verbatim>\<open>ParsingError\<close>); the call is outside any \<^verbatim>\<open>try\<close>.
  \<^item> \<^verbatim>\<open>parser.sections()\<close> answers the section names.
  \<^item> \<^verbatim>\<open>parser.items(section)\<close> answers the pairs of the section, or raises:
    \<^verbatim>\<open>NoSectionError\<close>, which the \<^verbatim>\<open>except\<close> clause of line 191 logs and re-raises, or
    another class (an interpolation error on a \<^verbatim>\<open>%\<close> in a value), which passes that
    clause untouched.
\<close>

record ini_parser =
  parser_read :: "string list \<Rightarrow> exn + string list"
  parser_sections :: "string list"
  parser_items :: "string \<Rightarrow> exn + (string \<times> string) list"

text \<open>\<^verbatim>\<open>dict(pairs)\<close>: a later pair with the same key wins.\<close>

definition dict :: "(string \<times> string) list \<Rightarrow> (string \<rightharpoonup> string)" where
  "dict pairs = map_of (rev pairs)"

text \<open>The \<^verbatim>\<open>for section in parser.sections()\<close> loop, lines 182-196.\<close>

fun load_sections ::
  "ini_parser \<Rightarrow> string list \<Rightarrow> (string \<times> (string \<rightharpoonup> string)) list
     \<Rightarrow> ((string \<times> (string \<rightharpoonup> string)) list, 'w, 'v) prog" where
  "load_sections parser [] qs s = (Inr qs, s)"
| "load_sections parser (section # rest) qs s =
     (case parser_items parser section of
        Inl error \<Rightarrow>
          (case error of
             NoSectionError name \<Rightarrow>
               bindM (log ERROR ''Unable to parse '%s' section of config file: %s'')
                 (\<lambda>_. raiseM error) s
           | _ \<Rightarrow> raiseM error s)
      | Inr pairs \<Rightarrow> load_sections parser rest (AList.update section (dict pairs) qs) s)"

definition QuerySettings :: "ini_parser \<Rightarrow> string list \<Rightarrow> (query_settings, 'w, 'v) prog" where
  "QuerySettings parser config_file_list =
     (case parser_read parser config_file_list of
        Inl error \<Rightarrow> raiseM error
      | Inr processed_files \<Rightarrow>
          bindM (if processed_files \<noteq> []
                 then log DEBUG ''CONFIG: Config files processed: %s''
                 else bindM (log ERROR
                        ''Failure to read config files; See provided templates, modify and place in one of the supported locations: %s'')
                        (\<lambda>_. raiseM OSError))
          (\<lambda>_. bindM (load_sections parser (parser_sections parser) [])
          (\<lambda>qs. returnM \<lparr>queries = qs\<rparr>)))"

section \<open>Library functions\<close>

definition file_can_be_modified :: "('w, 'v) engine \<Rightarrow> string \<Rightarrow> (bool, 'w, 'v) prog" where
  "file_can_be_modified E full_path_to_file =
     observe (AccessW full_path_to_file) (\<lambda>w. os_access_W_OK E w full_path_to_file)"

definition dir_can_be_modified :: "('w, 'v) engine \<Rightarrow> string \<Rightarrow> (bool, 'w, 'v) prog" where
  "dir_can_be_modified E full_path_to_directory =
     observe (AccessW full_path_to_directory) (\<lambda>w. os_access_W_OK E w full_path_to_directory)"

definition error_message :: "string \<Rightarrow> string" where
  "error_message base_dir =
     ''The '' @ base_dir @
     '' directory does not exist and the option to create that directory structure is disabled. Please create it and grant your script user write access to it or confirm access and enable the option to created needed directories within the mysql2sqlite_general.ini file.''"

text \<open>\<^verbatim>\<open>verify_sqlite_storage\<close>, lines 309-392 of the library.\<close>

definition verify_sqlite_storage ::
  "('w, 'v) engine \<Rightarrow> general_settings \<Rightarrow> query_settings \<Rightarrow> (unit, 'w, 'v) prog" where
  "verify_sqlite_storage E general_settings db_settings =
     bindM (getitem (sqlitedb_config general_settings) ''base_dir'') (\<lambda>base_dir.
     bindM (observe (IsDir base_dir) (\<lambda>w. os_path_isdir E w base_dir)) (\<lambda>isdir.
     if \<not> isdir then
       bindM (log WARNING ''%s does not exist!'') (\<lambda>_.
       bindM (getitem (flags general_settings) ''fail_on_warnings'') (\<lambda>fail_on_warnings.
       bindM (if fail_on_warnings
              then bindM (log ERROR ''Aborting due to missing directory!'')
                     (\<lambda>_. sys_exit (ExitInt 1))
              else returnM ()) (\<lambda>_.
       bindM (getitem (flags general_settings) ''create_directories'') (\<lambda>create_directories.
       if create_directories then
         bindM (log DEBUG ''Attempting to create the %s directory structure.'') (\<lambda>_.
         bindM (catch (effect (MakeDirs base_dir) OSError (\<lambda>w. os_makedirs E w base_dir))
                  (\<lambda>error. if error = OSError
                     then bindM (getitem (sqlitedb_config general_settings) ''db_file'') (\<lambda>_.
                          bindM (log ERROR ''Failed to create %s path to hold %s: %s'') (\<lambda>_.
                          sys_exit ExitOSError))
                     else raiseM error)) (\<lambda>_.
         bindM (log INFO ''Created %s directory to hold SQLite db file.'') (\<lambda>_.
         log DEBUG ''Returning to SQLite db setup process ...'')))
       else
         bindM (log ERROR (error_message base_dir)) (\<lambda>_.
         sys_exit (ExitText (error_message base_dir)))))))
     else
       bindM (getitem (sqlitedb_config general_settings) ''db_file'') (\<lambda>db_file.
       bindM (observe (PathExists db_file) (\<lambda>w. os_path_exists E w db_file)) (\<lambda>db_exists.
       if db_exists then
         bindM (file_can_be_modified E db_file) (\<lambda>ok.
         if \<not> ok
         then bindM (log ERROR ''%s exists, but lack of write permissions'')
                (\<lambda>_. sys_exit (ExitInt 1))
         else returnM ())
       else
         bindM (dir_can_be_modified E base_dir) (\<lambda>ok.
         if \<not> ok
         then bindM (log ERROR ''%s exists, but lack of write permissions'')
                (\<lambda>_. sys_exit (ExitInt 1))
         else returnM ())))))"

text \<open>
  The \<^verbatim>\<open>for table in query_settings.queries\<close> loop of \<^verbatim>\<open>import_sqlite_db_schema\<close>,
  lines 401-416, which builds the schema text.
\<close>

definition schema_entry :: "(string \<rightharpoonup> string) \<Rightarrow> string \<Rightarrow> (string, 'w, 'v) prog" where
  "schema_entry q sqlite_db_schema =
     bindM (getitem q ''new'') (\<lambda>new.
     case q ''index'' of
       Some index \<Rightarrow>
         bindM (log DEBUG
           ''Index query defined, appending index creation query to schema creation list.'') (\<lambda>_.
         returnM (sqlite_db_schema @ (''\<newline>'' @ new @ '';\<newline>'') @ (''\<newline>'' @ index @ '';\<newline>'')))
     | None \<Rightarrow>
         bindM (log DEBUG ''No index query defined, skipping index creation for %s'') (\<lambda>_.
         returnM (sqlite_db_schema @ (''\<newline>'' @ new @ '';\<newline>''))))"

fun build_schema ::
  "(string \<times> (string \<rightharpoonup> string)) list \<Rightarrow> string \<Rightarrow> (string, 'w, 'v) prog" where
  "build_schema [] sqlite_db_schema s = (Inr sqlite_db_schema, s)"
| "build_schema ((table, q) # rest) sqlite_db_schema s =
     (case schema_entry q sqlite_db_schema s of
        (Inl e, s') \<Rightarrow> (Inl e, s')
      | (Inr schema', s') \<Rightarrow> build_schema rest schema' s')"

text \<open>\<^verbatim>\<open>import_sqlite_db_schema\<close>, lines 395-427 of the library.\<close>

definition import_sqlite_db_schema ::
  "('w, 'v) engine \<Rightarrow> string \<Rightarrow> general_settings \<Rightarrow> query_settings \<Rightarrow> (unit, 'w, 'v) prog" where
  "import_sqlite_db_schema E db_connection general_settings query_settings =
     bindM (log INFO ''Creating SQLite database with imported schema ...'') (\<lambda>_.
     bindM (build_schema (queries query_settings) []) (\<lambda>sqlite_db_schema.
     bindM (log DEBUG ''Schema we will import: \<newline>%s'') (\<lambda>_.
     bindM (catch (effect (ExecuteScript sqlite_db_schema) SqliteError
                     (\<lambda>w. executescript E w db_connection sqlite_db_schema))
              (\<lambda>error. if error = SqliteError
                 then bindM (log ERROR ''Failed to create schema: %s'')
                        (\<lambda>_. sys_exit (ExitInt 1))
                 else raiseM error)) (\<lambda>_.
     log INFO ''Created database with imported schema ...''))))"

text \<open>\<^verbatim>\<open>sqlite_db_has_tables\<close>, lines 432-444 of the library.\<close>

definition count_sql :: string where
  "count_sql = ''SELECT COUNT(name) FROM sqlite_master WHERE type='table';''"

definition sqlite_db_has_tables :: "('w, 'v) engine \<Rightarrow> string \<Rightarrow> (bool, 'w, 'v) prog" where
  "sqlite_db_has_tables E full_path_to_db =
     bindM (effect (Connect ProbeConn full_path_to_db) SqliteError
              (\<lambda>w. sqlite3_connect E w full_path_to_db)) (\<lambda>_.
     bindM (observe (ProbeExecute count_sql) (\<lambda>w. count_tables E w full_path_to_db)) (\<lambda>res.
     case res of
       None \<Rightarrow> raiseM SqliteError
     | Some table_count \<Rightarrow>
         bindM (log DEBUG ''Table count: %d '') (\<lambda>_.
         returnM (table_count \<noteq> 0))))"

section \<open>The script\<close>

text \<open>
  The script body from line 189 on, with an open MySQL connection. It is one straight
  sequence of statements; the definitions below cut it at its own comment banners.
  \<^verbatim>\<open>general_settings.sqlitedb_config['db_file']\<close> is subscripted first on line 192; the
  dictionary is never changed, so the value found there is passed on as \<open>db_file\<close>.
  The destination connection and its cursor are named by that path. Creating the two
  cursors (lines 257-260) and reading \<^verbatim>\<open>sqlite_cursor.lastrowid\<close> for a log record are
  calls without an effect the script depends on; they leave no event.
\<close>

text \<open>Lines 189-217: is the database file new, storage check, connection.\<close>

definition open_sqlite_db ::
  "('w, 'v) engine \<Rightarrow> general_settings \<Rightarrow> query_settings \<Rightarrow> string \<Rightarrow> (bool, 'w, 'v) prog" where
  "open_sqlite_db E general_settings query_settings db_file =
     bindM (observe (PathExists db_file) (\<lambda>w. os_path_exists E w db_file)) (\<lambda>db_exists.
     let SQLITE_DB_IS_NEW = \<not> db_exists in
     bindM (if SQLITE_DB_IS_NEW
            then catch (verify_sqlite_storage E general_settings query_settings)
                   (\<lambda>error. if error = OSError
                      then bindM (emit (LogExc error)) (\<lambda>_. sys_exit (ExitInt 1))
                      else raiseM error)
            else returnM ()) (\<lambda>_.
     bindM (catch (effect (Connect MainConn db_file) SqliteError
                     (\<lambda>w. sqlite3_connect E w db_file))
              (\<lambda>error. if error = SqliteError
                 then bindM (log ERROR ''Failed to connect to the %s database: %s'')
                        (\<lambda>_. sys_exit (ExitInt 1))
                 else raiseM error)) (\<lambda>_.
     bindM (log INFO ''Connected to SQLite database ...'') (\<lambda>_.
     returnM SQLITE_DB_IS_NEW))))"

text \<open>Lines 220-226: \<^verbatim>\<open>SQLITE_DB_MISSING_TABLES\<close>.\<close>

definition check_missing_tables :: "('w, 'v) engine \<Rightarrow> string \<Rightarrow> (bool, 'w, 'v) prog" where
  "check_missing_tables E db_file =
     bindM (sqlite_db_has_tables E db_file) (\<lambda>has_tables.
     if \<not> has_tables
     then bindM (log DEBUG ''SQLite db file has no tables'') (\<lambda>_. returnM True)
     else bindM (log DEBUG ''SQLite db file has one more more tables'') (\<lambda>_. returnM False))"

text \<open>Lines 229-238: import the schema when the file is new or has no tables.\<close>

definition import_schema_if_needed ::
  "('w, 'v) engine \<Rightarrow> general_settings \<Rightarrow> query_settings \<Rightarrow> string \<Rightarrow> bool \<Rightarrow> bool
     \<Rightarrow> (unit, 'w, 'v) prog" where
  "import_schema_if_needed E general_settings query_settings db_file
       SQLITE_DB_IS_NEW SQLITE_DB_MISSING_TABLES =
     (if SQLITE_DB_IS_NEW \<or> SQLITE_DB_MISSING_TABLES
      then bindM (log INFO ''%s database file is new or is missing tables; importing schema.'')
             (\<lambda>_. import_sqlite_db_schema E db_file general_settings query_settings)
      else log INFO ''%s database file exists and has tables; skipping schema import'')"

text \<open>Lines 240-249: the autocommit check.\<close>

definition verify_autocommit ::
  "('w, 'v) engine \<Rightarrow> general_settings \<Rightarrow> string \<Rightarrow> (unit, 'w, 'v) prog" where
  "verify_autocommit E general_settings db_file s =
     (if isolation_level E (world s) db_file = None
      then bindM (getitem (flags general_settings) ''fail_on_warnings'') (\<lambda>fail_on_warnings.
           if fail_on_warnings
           then log WARNING
                  ''autocommit mode is enabled. This results in poor performance when many updates are required.''
           else returnM ()) s
      else log INFO
             ''autocommit mode is disabled. This should help performance for large batches of updates'' s)"

text \<open>Lines 287-296: \<^verbatim>\<open>DROP_TABLES\<close>.\<close>

definition set_drop_tables :: "('w, 'v) engine \<Rightarrow> string \<Rightarrow> (bool, 'w, 'v) prog" where
  "set_drop_tables E db_file =
     bindM (sqlite_db_has_tables E db_file) (\<lambda>has_tables.
     if has_tables
     then bindM (log DEBUG ''Tables were found. Setting flag to drop tables.'')
            (\<lambda>_. returnM True)
     else bindM (log DEBUG ''Tables were not found. Setting flag to skip dropping tables.'')
            (\<lambda>_. returnM False))"

text \<open>The \<^verbatim>\<open>except sqlite3.Error as error: log.exception(error); sys.exit(1)\<close> handler.\<close>

definition exit_on_sqlite_error :: "exn \<Rightarrow> (unit, 'w, 'v) prog" where
  "exit_on_sqlite_error error =
     (if error = SqliteError
      then bindM (emit (LogExc error)) (\<lambda>_. sys_exit (ExitInt 1))
      else raiseM error)"

text \<open>Lines 309-344: the \<^verbatim>\<open>if DROP_TABLES:\<close> block.\<close>

definition recreate_table ::
  "('w, 'v) engine \<Rightarrow> string \<Rightarrow> string \<Rightarrow> (string \<rightharpoonup> string) \<Rightarrow> (unit, 'w, 'v) prog" where
  "recreate_table E db_file table q =
     bindM (log INFO ''Recreating %s SQLite table'') (\<lambda>_.
     bindM (catch (bindM (log DEBUG ''Dropping %s ...'') (\<lambda>_.
                   effect (Execute (''DROP TABLE IF EXISTS '' @ table)) SqliteError
                     (\<lambda>w. execute E w db_file (''DROP TABLE IF EXISTS '' @ table))))
              exit_on_sqlite_error) (\<lambda>_.
     bindM (catch (bindM (log DEBUG ''Creating %s ...'') (\<lambda>_.
                   bindM (getitem q ''new'') (\<lambda>new.
                   effect (Execute new) SqliteError (\<lambda>w. execute E w db_file new))))
              exit_on_sqlite_error) (\<lambda>_.
     case q ''index'' of
       Some index \<Rightarrow>
         catch (bindM (log DEBUG ''Creating index for %s ...'') (\<lambda>_.
                effect (Execute index) SqliteError (\<lambda>w. execute E w db_file index)))
           exit_on_sqlite_error
     | None \<Rightarrow> log DEBUG ''No index query defined, skipping index recreation for %s'')))"

text \<open>Lines 351-363: the \<^verbatim>\<open>for row in mysql_data\<close> loop; one row, then the loop.\<close>

definition write_row ::
  "('w, 'v) engine \<Rightarrow> string \<Rightarrow> (string \<rightharpoonup> string) \<Rightarrow> 'v list \<Rightarrow> (unit, 'w, 'v) prog" where
  "write_row E db_file q row =
     bindM (log DEBUG ''Writing entries to %s SQLite table'') (\<lambda>_.
     catch (bindM (getitem q ''write'') (\<lambda>write.
            effect (ExecuteParams write row) SqliteError
              (\<lambda>w. execute_params E w db_file write row)))
       (\<lambda>error. if error = SqliteError
          then bindM (log ERROR ''Failed to write entries to %s SQLite table: %s'') (\<lambda>_.
               bindM (emit (LogExc error)) (\<lambda>_.
               sys_exit (ExitInt 1)))
          else raiseM error))"

fun write_rows ::
  "('w, 'v) engine \<Rightarrow> string \<Rightarrow> (string \<rightharpoonup> string) \<Rightarrow> 'v list list \<Rightarrow> (unit, 'w, 'v) prog" where
  "write_rows E db_file q [] s = (Inr (), s)"
| "write_rows E db_file q (row # rest) s =
     (case write_row E db_file q row s of
        (Inl e, s') \<Rightarrow> (Inl e, s')
      | (Inr _, s') \<Rightarrow> write_rows E db_file q rest s')"

definition fetchall :: "('w, 'v) engine \<Rightarrow> ('v list list, 'w, 'v) prog" where
  "fetchall E s =
     (case mysql_fetchall E (world s) of
        None \<Rightarrow> (Inl MysqlError, s\<lparr>trace := trace s @ [SrcFetchall None]\<rparr>)
      | Some rows \<Rightarrow> (Inr rows, s\<lparr>trace := trace s @ [SrcFetchall (Some rows)]\<rparr>))"

text \<open>Lines 301-367: the body of \<^verbatim>\<open>for table in query_settings.queries\<close>, then the loop.\<close>

definition copy_table ::
  "('w, 'v) engine \<Rightarrow> string \<Rightarrow> bool \<Rightarrow> string \<times> (string \<rightharpoonup> string) \<Rightarrow> (unit, 'w, 'v) prog" where
  "copy_table E db_file DROP_TABLES entry =
     (case entry of (table, q) \<Rightarrow>
     bindM (getitem q ''read'') (\<lambda>read.
     bindM (effect (SrcExecute read) MysqlError (\<lambda>w. mysql_execute E w read)) (\<lambda>_.
     bindM (if DROP_TABLES then recreate_table E db_file table q else returnM ()) (\<lambda>_.
     bindM (log INFO ''Pulling data from %s MySQL table ...'') (\<lambda>_.
     bindM (fetchall E) (\<lambda>mysql_data.
     bindM (log INFO ''Updating %s SQLite table ...'') (\<lambda>_.
     bindM (write_rows E db_file q mysql_data) (\<lambda>_.
     log INFO ''Updates to %s table are complete. The last inserted id was: %s\<newline>''))))))))"

fun copy_tables ::
  "('w, 'v) engine \<Rightarrow> string \<Rightarrow> bool \<Rightarrow> (string \<times> (string \<rightharpoonup> string)) list
     \<Rightarrow> (unit, 'w, 'v) prog" where
  "copy_tables E db_file DROP_TABLES [] s = (Inr (), s)"
| "copy_tables E db_file DROP_TABLES (entry # rest) s =
     (case copy_table E db_file DROP_TABLES entry s of
        (Inl e, s') \<Rightarrow> (Inl e, s')
      | (Inr _, s') \<Rightarrow> copy_tables E db_file DROP_TABLES rest s')"

text \<open>Lines 382-398: commit and close.\<close>

definition cleanup :: "('w, 'v) engine \<Rightarrow> string \<Rightarrow> (unit, 'w, 'v) prog" where
  "cleanup E db_file =
     bindM (log INFO ''Committing transactions ...'') (\<lambda>_.
     bindM (effect Commit SqliteError (\<lambda>w. commit E w db_file)) (\<lambda>_.
     bindM (log INFO ''Closing MySQL database connection ...'') (\<lambda>_.
     bindM (emit CloseSrc) (\<lambda>_.
     bindM (log INFO ''Closing SQLite database connection ...'') (\<lambda>_.
     bindM (emit (Close MainConn)) (\<lambda>_.
     log INFO ''Transactions committed, database connections closed''))))))"

text \<open>Lines 240-367: from the autocommit check to the end of the table loop.\<close>

definition mirror_tables ::
  "('w, 'v) engine \<Rightarrow> general_settings \<Rightarrow> query_settings \<Rightarrow> string \<Rightarrow> (unit, 'w, 'v) prog" where
  "mirror_tables E general_settings query_settings db_file =
     bindM (verify_autocommit E general_settings db_file) (\<lambda>_.
     bindM (log INFO ''Continuing with db prep work ...'') (\<lambda>_.
     bindM (set_drop_tables E db_file) (\<lambda>DROP_TABLES.
     bindM (log DEBUG ''MySQL tables to replicate: %s'') (\<lambda>_.
     copy_tables E db_file DROP_TABLES (queries query_settings)))))"

text \<open>Lines 189-238: up to and including the schema import.\<close>

definition prepare_sqlite_db ::
  "('w, 'v) engine \<Rightarrow> general_settings \<Rightarrow> query_settings \<Rightarrow> string \<Rightarrow> (unit, 'w, 'v) prog" where
  "prepare_sqlite_db E general_settings query_settings db_file =
     bindM (open_sqlite_db E general_settings query_settings db_file) (\<lambda>SQLITE_DB_IS_NEW.
     bindM (check_missing_tables E db_file) (\<lambda>SQLITE_DB_MISSING_TABLES.
     import_schema_if_needed E general_settings query_settings db_file
       SQLITE_DB_IS_NEW SQLITE_DB_MISSING_TABLES))"

text \<open>The whole run, lines 189-398.\<close>

definition mirror_run ::
  "('w, 'v) engine \<Rightarrow> general_settings \<Rightarrow> query_settings \<Rightarrow> (unit, 'w, 'v) prog" where
  "mirror_run E general_settings query_settings =
     bindM (getitem (sqlitedb_config general_settings) ''db_file'') (\<lambda>db_file.
     bindM (prepare_sqlite_db E general_settings query_settings db_file) (\<lambda>_.
     bindM (mirror_tables E general_settings query_settings db_file) (\<lambda>_.
     cleanup E db_file)))"

section \<open>Reading a trace\<close>

definition is_log :: "'v event \<Rightarrow> bool" where
  "is_log ev = (case ev of Log lvl fmt \<Rightarrow> True | LogExc e \<Rightarrow> True | _ \<Rightarrow> False)"

text \<open>The calls into the file system and the two databases, without the logger's records.\<close>

definition actions :: "'v event list \<Rightarrow> 'v event list" where
  "actions t = filter (\<lambda>ev. \<not> is_log ev) t"

text \<open>The events a run added to the trace.\<close>

definition added :: "('w, 'v) state \<Rightarrow> ('w, 'v) state \<Rightarrow> 'v event list" where
  "added s s' = drop (length (trace s)) (trace s')"

text \<open>A program only appends to the trace, and every event it appends satisfies \<open>P\<close>.\<close>

definition only :: "('v event \<Rightarrow> bool) \<Rightarrow> ('a, 'w, 'v) prog \<Rightarrow> bool" where
  "only P m = (\<forall>s. \<exists>t. trace (snd (m s)) = trace s @ t \<and> list_all P t)"

text \<open>The first thing \<^verbatim>\<open>import_sqlite_db_schema\<close> does: its opening log record.\<close>

definition import_called :: "'v event" where
  "import_called = Log INFO ''Creating SQLite database with imported schema ...''"

definition is_row_write :: "'v event \<Rightarrow> bool" where
  "is_row_write ev = (case ev of ExecuteParams sql row \<Rightarrow> True | _ \<Rightarrow> False)"

definition is_script :: "'v event \<Rightarrow> bool" where
  "is_script ev = (case ev of ExecuteScript sql \<Rightarrow> True | _ \<Rightarrow> False)"

text \<open>
  The order of calls the specification gives for one table (section 4.4), for a table
  whose \<^verbatim>\<open>fetchall\<close> answered \<open>fetched\<close>: the read query, then under the drop flag the
  drop, create and (when present) index statements, then one write per row.
\<close>

definition spec_table_actions ::
  "bool \<Rightarrow> string \<Rightarrow> (string \<rightharpoonup> string) \<Rightarrow> 'v list list option \<Rightarrow> 'v event list" where
  "spec_table_actions dropExisting tableName statements fetched =
     (case statements ''read'' of None \<Rightarrow> [] | Some read \<Rightarrow> [SrcExecute read]) @
     (if dropExisting
      then [Execute (''DROP TABLE IF EXISTS '' @ tableName)] @
           (case statements ''new'' of None \<Rightarrow> [] | Some new \<Rightarrow> [Execute new]) @
           (case statements ''index'' of None \<Rightarrow> [] | Some index \<Rightarrow> [Execute index])
      else []) @
     [SrcFetchall fetched] @
     (case fetched of
        None \<Rightarrow> []
      | Some rows \<Rightarrow>
          (case statements ''write'' of
             None \<Rightarrow> []
           | Some write \<Rightarrow> map (ExecuteParams write) rows))"

fun spec_loop_actions ::
  "bool \<Rightarrow> (string \<times> (string \<rightharpoonup> string)) list \<Rightarrow> 'v list list option list \<Rightarrow> 'v event list" where
  "spec_loop_actions dropExisting ((tableName, statements) # rest) (fetched # fs) =
     spec_table_actions dropExisting tableName statements fetched @
     spec_loop_actions dropExisting rest fs"
| "spec_loop_actions dropExisting entries fs = []"

section \<open>A reference environment\<close>

text \<open>
  A small executable environment on which the program can be run on concrete inputs.
  A database file carries the number of tables a fresh connection finds in it.
  \<^verbatim>\<open>sqlite3.connect\<close> opens an existing file, creates an empty one where the location
  allows it, and raises otherwise. \<^verbatim>\<open>executescript\<close> runs outside transaction control
  (the Python documentation: a pending transaction is committed first, no other
  transaction control is performed), so each \<^verbatim>\<open>CREATE TABLE\<close> of the script is in the file
  at once; this is what lets the probe of line 287, which opens a connection of its own,
  find the imported tables. Statements run through the cursor stay in the open
  transaction. A statement listed as rejected raises.
\<close>

record 'v ref_world =
  rw_dirs :: "string list"
  rw_writable :: "string list"
  rw_creatable :: "string list"
  rw_dbs :: "(string \<times> nat) list"
  rw_rejected :: "string list"
  rw_isolation :: "string option"
  rw_source :: "(string \<times> 'v list list) list"
  rw_cursor :: "'v list list option"

fun count_sub :: "string \<Rightarrow> string \<Rightarrow> nat" where
  "count_sub pat [] = 0"
| "count_sub pat (c # cs) =
     (if take (length pat) (c # cs) = pat then 1 else 0) + count_sub pat cs"

definition ref_engine :: "('v ref_world, 'v) engine" where
  "ref_engine =
     \<lparr> os_path_exists = (\<lambda>w p. p \<in> set (rw_dirs w) \<or> map_of (rw_dbs w) p \<noteq> None),
       os_path_isdir = (\<lambda>w p. p \<in> set (rw_dirs w)),
       os_access_W_OK = (\<lambda>w p. p \<in> set (rw_writable w)),
       os_makedirs = (\<lambda>w p.
         if p \<in> set (rw_creatable w)
         then Some (w\<lparr>rw_dirs := p # rw_dirs w, rw_writable := p # rw_writable w\<rparr>)
         else None),
       sqlite3_connect = (\<lambda>w p.
         if map_of (rw_dbs w) p \<noteq> None then Some w
         else if p \<in> set (rw_creatable w) then Some (w\<lparr>rw_dbs := (p, 0) # rw_dbs w\<rparr>)
         else None),
       count_tables = (\<lambda>w p. map_of (rw_dbs w) p),
       isolation_level = (\<lambda>w p. rw_isolation w),
       executescript = (\<lambda>w p sql.
         if sql \<in> set (rw_rejected w) then None
         else (case map_of (rw_dbs w) p of
                 None \<Rightarrow> None
               | Some n \<Rightarrow>
                   Some (w\<lparr>rw_dbs := AList.update p (n + count_sub ''CREATE TABLE'' sql)
                                        (rw_dbs w)\<rparr>))),
       execute = (\<lambda>w p sql. if sql \<in> set (rw_rejected w) then None else Some w),
       execute_params = (\<lambda>w p sql row. if sql \<in> set (rw_rejected w) then None else Some w),
       commit = (\<lambda>w p. Some w),
       mysql_execute = (\<lambda>w sql.
         case map_of (rw_source w) sql of
           None \<Rightarrow> None
         | Some rows \<Rightarrow> Some (w\<lparr>rw_cursor := Some rows\<rparr>)),
       mysql_fetchall = rw_cursor \<rparr>"

text \<open>Sample inputs: one table \<^verbatim>\<open>users\<close> without an index, and a source holding two rows.\<close>

definition users_entry :: "string \<rightharpoonup> string" where
  "users_entry =
     [''read'' \<mapsto> ''SELECT id, name FROM users'',
      ''new'' \<mapsto> ''CREATE TABLE users(id INT, name TEXT)'',
      ''write'' \<mapsto> ''INSERT INTO users VALUES (?,?)'']"

definition users_catalog :: query_settings where
  "users_catalog = \<lparr>queries = [(''users'', users_entry)]\<rparr>"

definition sample_settings :: general_settings where
  "sample_settings =
     \<lparr>flags = [''fail_on_warnings'' \<mapsto> False, ''create_directories'' \<mapsto> True],
      sqlitedb_config = [''base_dir'' \<mapsto> ''/var/cache/m2s'', ''db_file'' \<mapsto> ''/var/cache/m2s/mail.db'']\<rparr>"

text \<open>A world whose destination file exists and holds no table.\<close>

definition empty_db_world :: "string ref_world" where
  "empty_db_world =
     \<lparr>rw_dirs = [''/var/cache/m2s''],
      rw_writable = [''/var/cache/m2s'', ''/var/cache/m2s/mail.db''],
      rw_creatable = [],
      rw_dbs = [(''/var/cache/m2s/mail.db'', 0)],
      rw_rejected = [],
      rw_isolation = Some [],
      rw_source = [(''SELECT id, name FROM users'', [[''1'', ''Alice''], [''2'', ''Bob'']])],
      rw_cursor = None\<rparr>"

definition start :: "'w \<Rightarrow> ('w, 'v) state" where
  "start w = \<lparr>world = w, trace = []\<rparr>"

text \<open>A parser whose only section has an \<^verbatim>\<open>index\<close> field and nothing else.\<close>

definition index_only_parser :: ini_parser where
  "index_only_parser =
     \<lparr>parser_read = (\<lambda>files. Inr files),
      parser_sections = [''users''],
      parser_items = (\<lambda>section.
        if section = ''users'' then Inr [(''index'', ''CREATE INDEX users_idx ON users(id)'')]
        else Inl (NoSectionError section))\<rparr>"

text \<open>
  A parser that cannot interpolate the values of its second section (a \<^verbatim>\<open>%\<close> in the SQL
  text), and one that cannot parse its file at all.
\<close>

definition percent_parser :: ini_parser where
  "percent_parser =
     \<lparr>parser_read = (\<lambda>files. Inr files),
      parser_sections = [''users'', ''aliases''],
      parser_items = (\<lambda>section.
        if section = ''users'' then Inr [(''read'', ''SELECT id, name FROM users'')]
        else Inl (ConfigParserError ''InterpolationSyntaxError''))\<rparr>"

definition headerless_parser :: ini_parser where
  "headerless_parser =
     \<lparr>parser_read = (\<lambda>files. Inl (ConfigParserError ''MissingSectionHeaderError'')),
      parser_sections = [],
      parser_items = (\<lambda>section. Inl (NoSectionError section))\<rparr>"

text \<open>
  A world in which the destination file does not exist yet but can be created, and one in
  which neither the file nor its directory exists and nothing can be created.
\<close>

definition new_file_world :: "string ref_world" where
  "new_file_world = empty_db_world\<lparr>rw_dbs := [], rw_creatable := [''/var/cache/m2s/mail.db'']\<rparr>"

definition no_storage_world :: "string ref_world" where
  "no_storage_world = empty_db_world\<lparr>rw_dirs := [], rw_writable := [], rw_dbs := []\<rparr>"

text \<open>A world whose destination rejects the \<^verbatim>\<open>write\<close> statement of the sample table.\<close>

definition rejecting_world :: "string ref_world" where
  "rejecting_world = empty_db_world\<lparr>rw_rejected := [''INSERT INTO users VALUES (?,?)'']\<rparr>"



text \<open>A world whose destination file exists and holds the table of the sample catalog.\<close>

definition populated_db_world :: "string ref_world" where
  "populated_db_world = empty_db_world\<lparr>rw_dbs := [(''/var/cache/m2s/mail.db'', 1)]\<rparr>"

text \<open>
  The reference environment with a journal. Every statement the destination accepts is
  appended to a list, with the parameters bound to it; a script is one entry, and a
  commit is entered as \<^verbatim>\<open>COMMIT\<close>. A statement the destination rejects leaves no entry.
\<close>

type_synonym 'v journal = "(string \<times> 'v list) list"

definition journal_engine :: "('v ref_world \<times> 'v journal, 'v) engine" where
  "journal_engine =
     \<lparr> os_path_exists = (\<lambda>(w, j). os_path_exists ref_engine w),
       os_path_isdir = (\<lambda>(w, j). os_path_isdir ref_engine w),
       os_access_W_OK = (\<lambda>(w, j). os_access_W_OK ref_engine w),
       os_makedirs = (\<lambda>(w, j) p. map_option (\<lambda>w'. (w', j)) (os_makedirs ref_engine w p)),
       sqlite3_connect = (\<lambda>(w, j) p.
         map_option (\<lambda>w'. (w', j)) (sqlite3_connect ref_engine w p)),
       count_tables = (\<lambda>(w, j). count_tables ref_engine w),
       isolation_level = (\<lambda>(w, j). isolation_level ref_engine w),
       executescript = (\<lambda>(w, j) p sql.
         map_option (\<lambda>w'. (w', j @ [(sql, [])])) (executescript ref_engine w p sql)),
       execute = (\<lambda>(w, j) p sql.
         map_option (\<lambda>w'. (w', j @ [(sql, [])])) (execute ref_engine w p sql)),
       execute_params = (\<lambda>(w, j) p sql row.
         map_option (\<lambda>w'. (w', j @ [(sql, row)])) (execute_params ref_engine w p sql row)),
       commit = (\<lambda>(w, j) p.
         map_option (\<lambda>w'. (w', j @ [(''COMMIT'', [])])) (commit ref_engine w p)),
       mysql_execute = (\<lambda>(w, j) sql.
         map_option (\<lambda>w'. (w', j)) (mysql_execute ref_engine w sql)),
       mysql_fetchall = (\<lambda>(w, j). mysql_fetchall ref_engine w) \<rparr>"
section \<open>The specification's procedures on the engine\<close>

text \<open>
  Sections 4.2 to 4.5 of the specification, read as functions from the world before to
  the outcome and the world after. Every statement is handed to the engine in the world
  the previous call left behind; a statement the destination rejects is fatal
  (\<^verbatim>\<open>sys.exit(1)\<close>); an error of the source, of the probe or of the commit is the
  library's own exception; a field missing from an entry is the \<^verbatim>\<open>KeyError\<close> of the
  subscript that needs it. No log record and no trace appear here: these functions say
  what reaches the two databases and nothing else.
\<close>

definition fatal :: exn where
  "fatal = SystemExit (ExitInt 1)"

text \<open>
  Section 4.2: one script, for every entry in order the \<^verbatim>\<open>new\<close> statement followed by
  the \<^verbatim>\<open>index\<close> statement if present, each on a line of its own and terminated.
\<close>

fun schema_script :: "(string \<times> (string \<rightharpoonup> string)) list \<Rightarrow> exn + string" where
  "schema_script [] = Inr []"
| "schema_script ((tableName, statements) # rest) =
     (case statements ''new'' of
        None \<Rightarrow> Inl (KeyError ''new'')
      | Some new \<Rightarrow>
          (case schema_script rest of
             Inl e \<Rightarrow> Inl e
           | Inr script \<Rightarrow>
               Inr ((''\<newline>'' @ new @ '';\<newline>'') @
                    (case statements ''index'' of
                       None \<Rightarrow> []
                     | Some index \<Rightarrow> ''\<newline>'' @ index @ '';\<newline>'') @
                    script)))"

definition SchemaImporter_importSchema ::
  "('w, 'v) engine \<Rightarrow> string \<Rightarrow> (string \<times> (string \<rightharpoonup> string)) list \<Rightarrow> 'w
     \<Rightarrow> (exn + unit) \<times> 'w" where
  "SchemaImporter_importSchema E destConn catalog w =
     (case schema_script catalog of
        Inl e \<Rightarrow> (Inl e, w)
      | Inr script \<Rightarrow>
          (case executescript E w destConn script of
             None \<Rightarrow> (Inl fatal, w)
           | Some w' \<Rightarrow> (Inr (), w')))"

text \<open>
  Section 4.3, \<^verbatim>\<open>hasTables\<close>: connect, count, answer whether the count is positive. What
  is left in the world is what the connect left there.
\<close>

definition StorageReadinessCheck_hasTables ::
  "('w, 'v) engine \<Rightarrow> string \<Rightarrow> 'w \<Rightarrow> (exn + bool) \<times> 'w" where
  "StorageReadinessCheck_hasTables E path w =
     (case sqlite3_connect E w path of
        None \<Rightarrow> (Inl SqliteError, w)
      | Some w' \<Rightarrow>
          (case count_tables E w' path of
             None \<Rightarrow> (Inl SqliteError, w')
           | Some n \<Rightarrow> (Inr (0 < n), w')))"

text \<open>Section 4.4, step 2: drop, create and, if present, index, all against the destination.\<close>

definition TableMirror_recreate ::
  "('w, 'v) engine \<Rightarrow> string \<Rightarrow> string \<Rightarrow> (string \<rightharpoonup> string) \<Rightarrow> 'w \<Rightarrow> (exn + unit) \<times> 'w" where
  "TableMirror_recreate E destConn tableName statements w =
     (case execute E w destConn (''DROP TABLE IF EXISTS '' @ tableName) of
        None \<Rightarrow> (Inl fatal, w)
      | Some w1 \<Rightarrow>
          (case statements ''new'' of
             None \<Rightarrow> (Inl (KeyError ''new''), w1)
           | Some new \<Rightarrow>
               (case execute E w1 destConn new of
                  None \<Rightarrow> (Inl fatal, w1)
                | Some w2 \<Rightarrow>
                    (case statements ''index'' of
                       None \<Rightarrow> (Inr (), w2)
                     | Some index \<Rightarrow>
                         (case execute E w2 destConn index of
                            None \<Rightarrow> (Inl fatal, w2)
                          | Some w3 \<Rightarrow> (Inr (), w3))))))"

text \<open>
  Section 4.4, steps 1 and 2 and the result set: the read query on the source, the
  recreation under \<^verbatim>\<open>dropExisting\<close>, and the rows the source then hands over.
\<close>

definition TableMirror_read ::
  "('w, 'v) engine \<Rightarrow> string \<Rightarrow> bool \<Rightarrow> string \<Rightarrow> (string \<rightharpoonup> string) \<Rightarrow> 'w
     \<Rightarrow> (exn + 'v list list) \<times> 'w" where
  "TableMirror_read E destConn dropExisting tableName statements w =
     (case statements ''read'' of
        None \<Rightarrow> (Inl (KeyError ''read''), w)
      | Some read \<Rightarrow>
          (case mysql_execute E w read of
             None \<Rightarrow> (Inl MysqlError, w)
           | Some w1 \<Rightarrow>
               (case (if dropExisting
                      then TableMirror_recreate E destConn tableName statements w1
                      else (Inr (), w1)) of
                  (Inl e, w2) \<Rightarrow> (Inl e, w2)
                | (Inr u, w2) \<Rightarrow>
                    (case mysql_fetchall E w2 of
                       None \<Rightarrow> (Inl MysqlError, w2)
                     | Some rows \<Rightarrow> (Inr rows, w2)))))"

text \<open>Section 4.4, step 3: the write statement once per row, in order, bound with the row.\<close>

fun TableMirror_write ::
  "('w, 'v) engine \<Rightarrow> string \<Rightarrow> (string \<rightharpoonup> string) \<Rightarrow> 'v list list \<Rightarrow> 'w \<Rightarrow> (exn + unit) \<times> 'w" where
  "TableMirror_write E destConn statements [] w = (Inr (), w)"
| "TableMirror_write E destConn statements (row # rest) w =
     (case statements ''write'' of
        None \<Rightarrow> (Inl (KeyError ''write''), w)
      | Some write \<Rightarrow>
          (case execute_params E w destConn write row of
             None \<Rightarrow> (Inl fatal, w)
           | Some w' \<Rightarrow> TableMirror_write E destConn statements rest w'))"

text \<open>Section 4.4, \<^verbatim>\<open>mirrorTable\<close>: steps 1 to 3 in this order.\<close>

definition TableMirror_mirrorTable ::
  "('w, 'v) engine \<Rightarrow> string \<Rightarrow> bool \<Rightarrow> string \<Rightarrow> (string \<rightharpoonup> string) \<Rightarrow> 'w
     \<Rightarrow> (exn + unit) \<times> 'w" where
  "TableMirror_mirrorTable E destConn dropExisting tableName statements w =
     (case TableMirror_read E destConn dropExisting tableName statements w of
        (Inl e, w1) \<Rightarrow> (Inl e, w1)
      | (Inr rows, w1) \<Rightarrow> TableMirror_write E destConn statements rows w1)"

text \<open>The result set the source hands over for a table, \<open>None\<close> when it hands over none.\<close>

definition TableMirror_fetched ::
  "('w, 'v) engine \<Rightarrow> string \<Rightarrow> bool \<Rightarrow> string \<Rightarrow> (string \<rightharpoonup> string) \<Rightarrow> 'w
     \<Rightarrow> 'v list list option" where
  "TableMirror_fetched E destConn dropExisting tableName statements w =
     (case TableMirror_read E destConn dropExisting tableName statements w of
        (Inl e, w1) \<Rightarrow> None
      | (Inr rows, w1) \<Rightarrow> Some rows)"

text \<open>Section 4.5, step 3: every entry in catalog order, stopping at the first failure.\<close>

fun MirrorRun_tables ::
  "('w, 'v) engine \<Rightarrow> string \<Rightarrow> bool \<Rightarrow> (string \<times> (string \<rightharpoonup> string)) list \<Rightarrow> 'w
     \<Rightarrow> (exn + unit) \<times> 'w" where
  "MirrorRun_tables E destConn dropExisting [] w = (Inr (), w)"
| "MirrorRun_tables E destConn dropExisting ((tableName, statements) # rest) w =
     (case TableMirror_mirrorTable E destConn dropExisting tableName statements w of
        (Inl e, w1) \<Rightarrow> (Inl e, w1)
      | (Inr u, w1) \<Rightarrow> MirrorRun_tables E destConn dropExisting rest w1)"

text \<open>The result sets of the tables of a pass, each in the world its table starts in.\<close>

fun MirrorRun_fetched ::
  "('w, 'v) engine \<Rightarrow> string \<Rightarrow> bool \<Rightarrow> (string \<times> (string \<rightharpoonup> string)) list \<Rightarrow> 'w
     \<Rightarrow> 'v list list option list" where
  "MirrorRun_fetched E destConn dropExisting [] w = []"
| "MirrorRun_fetched E destConn dropExisting ((tableName, statements) # rest) w =
     TableMirror_fetched E destConn dropExisting tableName statements w #
     MirrorRun_fetched E destConn dropExisting rest
       (snd (TableMirror_mirrorTable E destConn dropExisting tableName statements w))"

text \<open>
  Section 4.5, step 2, given the two answers of step 1: the schema import when the
  destination is new or has no tables.
\<close>

definition MirrorRun_import ::
  "('w, 'v) engine \<Rightarrow> string \<Rightarrow> (string \<times> (string \<rightharpoonup> string)) list \<Rightarrow> bool \<Rightarrow> bool \<Rightarrow> 'w
     \<Rightarrow> (exn + unit) \<times> 'w" where
  "MirrorRun_import E destConn catalog destinationIsNew destinationHasTables w =
     (if destinationIsNew \<or> \<not> destinationHasTables
      then SchemaImporter_importSchema E destConn catalog w
      else (Inr (), w))"

text \<open>
  Section 4.5, step 3: \<^verbatim>\<open>dropExisting\<close> is the probe recomputed, and every table is
  mirrored with it. Before the probe the script looks at the connection's isolation
  level; that reaches no database, and only the subscript of a missing
  \<^verbatim>\<open>fail_on_warnings\<close> flag can end the run there.
\<close>

definition MirrorRun_mirror ::
  "('w, 'v) engine \<Rightarrow> general_settings \<Rightarrow> string \<Rightarrow> (string \<times> (string \<rightharpoonup> string)) list \<Rightarrow> 'w
     \<Rightarrow> (exn + unit) \<times> 'w" where
  "MirrorRun_mirror E settings destConn catalog w =
     (if isolation_level E w destConn = None \<and> flags settings ''fail_on_warnings'' = None
      then (Inl (KeyError ''fail_on_warnings''), w)
      else
        (case StorageReadinessCheck_hasTables E destConn w of
           (Inl e, w1) \<Rightarrow> (Inl e, w1)
         | (Inr dropExisting, w1) \<Rightarrow> MirrorRun_tables E destConn dropExisting catalog w1))"

definition MirrorRun_before_commit ::
  "('w, 'v) engine \<Rightarrow> general_settings \<Rightarrow> string \<Rightarrow> (string \<times> (string \<rightharpoonup> string)) list
     \<Rightarrow> bool \<Rightarrow> bool \<Rightarrow> 'w \<Rightarrow> (exn + unit) \<times> 'w" where
  "MirrorRun_before_commit E settings destConn catalog destinationIsNew destinationHasTables w =
     (case MirrorRun_import E destConn catalog destinationIsNew destinationHasTables w of
        (Inl e, w1) \<Rightarrow> (Inl e, w1)
      | (Inr u, w1) \<Rightarrow> MirrorRun_mirror E settings destConn catalog w1)"

text \<open>Section 4.5, step 4: after all tables succeed, commit once.\<close>

definition MirrorRun_run ::
  "('w, 'v) engine \<Rightarrow> general_settings \<Rightarrow> string \<Rightarrow> (string \<times> (string \<rightharpoonup> string)) list
     \<Rightarrow> bool \<Rightarrow> bool \<Rightarrow> 'w \<Rightarrow> (exn + unit) \<times> 'w" where
  "MirrorRun_run E settings destConn catalog destinationIsNew destinationHasTables w =
     (case MirrorRun_before_commit E settings destConn catalog
             destinationIsNew destinationHasTables w of
        (Inl e, w3) \<Rightarrow> (Inl e, w3)
      | (Inr u, w3) \<Rightarrow>
          (case commit E w3 destConn of
             None \<Rightarrow> (Inl SqliteError, w3)
           | Some w4 \<Rightarrow> (Inr (), w4)))"

section \<open>Events by phase\<close>

text \<open>What the phases before the table loop, and the table loop itself, never emit.\<close>

definition setup_event :: "'v event \<Rightarrow> bool" where
  "setup_event ev = (ev \<noteq> Commit \<and> ev \<noteq> import_called \<and> \<not> is_row_write ev \<and> \<not> is_script ev)"

definition loop_event :: "'v event \<Rightarrow> bool" where
  "loop_event ev = (ev \<noteq> Commit \<and> ev \<noteq> import_called \<and> \<not> is_script ev)"

definition spec_recreate :: "string \<Rightarrow> (string \<rightharpoonup> string) \<Rightarrow> 'v event list" where
  "spec_recreate table q = [Execute (''DROP TABLE IF EXISTS '' @ table)] @
           (case q ''new'' of None \<Rightarrow> [] | Some new \<Rightarrow> [Execute new]) @
           (case q ''index'' of None \<Rightarrow> [] | Some index \<Rightarrow> [Execute index])"

definition spec_head :: "bool \<Rightarrow> string \<Rightarrow> (string \<rightharpoonup> string) \<Rightarrow> 'v event list" where
  "spec_head d table q =
     (case q ''read'' of None \<Rightarrow> [] | Some read \<Rightarrow> [SrcExecute read]) @
     (if d then spec_recreate table q else [])"

definition import_event :: "'v event \<Rightarrow> bool" where
  "import_event ev = (ev \<noteq> Commit \<and> ev \<noteq> import_called \<and> \<not> is_row_write ev)"

definition prepare_event :: "'v event \<Rightarrow> bool" where
  "prepare_event ev = (ev \<noteq> Commit \<and> \<not> is_row_write ev)"

definition cleanup_event :: "'v event \<Rightarrow> bool" where
  "cleanup_event ev = (ev \<noteq> import_called \<and> \<not> is_row_write ev \<and> \<not> is_script ev)"

definition starts_with :: "'v event \<Rightarrow> ('a, 'w, 'v) prog \<Rightarrow> bool" where
  "starts_with ev m = (\<forall>s. \<exists>rest. trace (snd (m s)) = trace s @ ev # rest)"

definition cleanup_events :: "'v event list" where
  "cleanup_events =
     [Log INFO ''Committing transactions ...'', Commit,
      Log INFO ''Closing MySQL database connection ...'', CloseSrc,
      Log INFO ''Closing SQLite database connection ...'', Close MainConn,
      Log INFO ''Transactions committed, database connections closed'']"

section \<open>Proof tools\<close>

lemmas prim_defs = bindM_def returnM_def raiseM_def emit_def log_def effect_def observe_def
  getitem_def sys_exit_def catch_def

lemma only_returnM: "only P (returnM a)"
  by (simp add: only_def returnM_def)

lemma only_raiseM: "only P (raiseM e)"
  by (simp add: only_def raiseM_def)

lemma only_sys_exit: "only P (sys_exit a)"
  by (simp add: sys_exit_def only_raiseM)

lemma only_getitem: "only P (getitem d k)"
  by (simp add: getitem_def only_raiseM only_returnM split: option.splits)

lemma only_emit: "P ev \<Longrightarrow> only P (emit ev)"
  by (simp add: only_def emit_def)

lemma only_log: "P (Log lvl fmt) \<Longrightarrow> only P (log lvl fmt)"
  by (simp add: log_def only_emit)

lemma only_effect: "P ev \<Longrightarrow> only P (effect ev err f)"
  by (simp add: only_def effect_def split: option.splits)

lemma only_observe: "P ev \<Longrightarrow> only P (observe ev f)"
  by (simp add: only_def observe_def)

lemma only_bindM:
  assumes m: "only P m" and f: "\<And>a. only P (f a)"
  shows "only P (bindM m f)"
  unfolding only_def
proof
  fix s
  obtain t1 where t1: "trace (snd (m s)) = trace s @ t1" "list_all P t1"
    using m unfolding only_def by blast
  show "\<exists>t. trace (snd (bindM m f s)) = trace s @ t \<and> list_all P t"
  proof (cases "m s")
    case (Pair r s1)
    show ?thesis
    proof (cases r)
      case (Inl e)
      with Pair t1 show ?thesis by (auto simp: bindM_def)
    next
      case (Inr a)
      obtain t2 where t2: "trace (snd (f a s1)) = trace s1 @ t2" "list_all P t2"
        using f unfolding only_def by blast
      with Pair Inr t1 have "trace (snd (bindM m f s)) = trace s @ (t1 @ t2) \<and> list_all P (t1 @ t2)"
        by (simp add: bindM_def)
      then show ?thesis by blast
    qed
  qed
qed

lemma only_catch:
  assumes m: "only P m" and h: "\<And>e. only P (h e)"
  shows "only P (catch m h)"
  unfolding only_def
proof
  fix s
  obtain t1 where t1: "trace (snd (m s)) = trace s @ t1" "list_all P t1"
    using m unfolding only_def by blast
  show "\<exists>t. trace (snd (catch m h s)) = trace s @ t \<and> list_all P t"
  proof (cases "m s")
    case (Pair r s1)
    show ?thesis
    proof (cases r)
      case (Inr a)
      with Pair t1 show ?thesis by (auto simp: catch_def)
    next
      case (Inl e)
      obtain t2 where t2: "trace (snd (h e s1)) = trace s1 @ t2" "list_all P t2"
        using h unfolding only_def by blast
      with Pair Inl t1 have "trace (snd (catch m h s)) = trace s @ (t1 @ t2) \<and> list_all P (t1 @ t2)"
        by (simp add: catch_def)
      then show ?thesis by blast
    qed
  qed
qed

lemma only_weaken: "only P m \<Longrightarrow> (\<And>ev. P ev \<Longrightarrow> Q ev) \<Longrightarrow> only Q m"
  unfolding only_def list_all_iff by blast

lemma onlyD: "only P m \<Longrightarrow> m s = (r, s') \<Longrightarrow> \<exists>t. trace s' = trace s @ t \<and> list_all P t"
  unfolding only_def by (metis snd_conv)

lemmas only_intros = only_returnM only_raiseM only_sys_exit only_getitem only_emit only_log
  only_effect only_observe only_bindM only_catch

lemma only_sqlite_db_has_tables:
  "P (Connect ProbeConn p) \<Longrightarrow> P (ProbeExecute count_sql) \<Longrightarrow> P (Log DEBUG ''Table count: %d '')
   \<Longrightarrow> only P (sqlite_db_has_tables E p)"
  unfolding sqlite_db_has_tables_def
  by (auto intro!: only_intros split: option.splits)

lemmas ev_defs = setup_event_def import_called_def is_row_write_def is_script_def count_sql_def

lemma only_verify: "only setup_event (verify_sqlite_storage E gs qs)"
  unfolding verify_sqlite_storage_def file_can_be_modified_def dir_can_be_modified_def
  by (auto intro!: only_intros simp: ev_defs split: option.splits)

lemma only_open: "only setup_event (open_sqlite_db E gs qs db)"
  unfolding open_sqlite_db_def Let_def
  by (auto intro!: only_intros only_verify simp: ev_defs split: option.splits)

lemma only_check_missing: "only setup_event (check_missing_tables E db)"
  unfolding check_missing_tables_def
  by (auto intro!: only_intros only_sqlite_db_has_tables simp: ev_defs split: option.splits)

lemmas ev_defs2 = ev_defs loop_event_def

lemma actions_append [simp]: "actions (t @ u) = actions t @ actions u"
  by (simp add: actions_def)

lemma actions_Nil [simp]: "actions [] = []"
  by (simp add: actions_def)

lemma actions_Cons: "actions (ev # t) = (if is_log ev then actions t else ev # actions t)"
  by (simp add: actions_def)

lemma write_row_trace:
  assumes "write_row E db q row s = (r, s')"
  shows "\<exists>t. trace s' = trace s @ t \<and> list_all loop_event t \<and>
           actions t = (case q ''write'' of None \<Rightarrow> [] | Some w \<Rightarrow> [ExecuteParams w row]) \<and>
           (r = Inr () \<longrightarrow> q ''write'' \<noteq> None) \<and> r \<noteq> Inl (KeyError ''index'')"
  using assms
  by (auto simp: write_row_def prim_defs actions_Cons is_log_def ev_defs2 split: option.splits if_splits)

lemma write_rows_trace:
  "write_rows E db q rows s = (r, s') \<Longrightarrow>
     \<exists>t k. trace s' = trace s @ t \<and> list_all loop_event t \<and> k \<le> length rows \<and>
        actions t = (case q ''write'' of None \<Rightarrow> [] | Some w \<Rightarrow> map (ExecuteParams w) (take k rows)) \<and>
        (r = Inr () \<longrightarrow> k = length rows \<and> (rows \<noteq> [] \<longrightarrow> q ''write'' \<noteq> None)) \<and>
        r \<noteq> Inl (KeyError ''index'')"
proof (induction rows arbitrary: s)
  case Nil
  then show ?case by (auto split: option.splits)
next
  case (Cons row rows)
  obtain r1 s1 where one: "write_row E db q row s = (r1, s1)"
    by (cases "write_row E db q row s")
  from write_row_trace [OF one] obtain t1 where t1:
    "trace s1 = trace s @ t1" "list_all loop_event t1"
    "actions t1 = (case q ''write'' of None \<Rightarrow> [] | Some w \<Rightarrow> [ExecuteParams w row])"
    "r1 = Inr () \<longrightarrow> q ''write'' \<noteq> None" "r1 \<noteq> Inl (KeyError ''index'')"
    by blast
  show ?case
  proof (cases r1)
    case (Inl e)
    with Cons.prems one have "r = Inl e" "s' = s1" by auto
    with t1 have "trace s' = trace s @ t1 \<and> list_all loop_event t1 \<and> Suc 0 \<le> length (row # rows) \<and>
        actions t1 = (case q ''write'' of None \<Rightarrow> [] | Some w \<Rightarrow> map (ExecuteParams w) (take (Suc 0) (row # rows))) \<and>
        (r = Inr () \<longrightarrow> Suc 0 = length (row # rows) \<and> (row # rows \<noteq> [] \<longrightarrow> q ''write'' \<noteq> None)) \<and>
        r \<noteq> Inl (KeyError ''index'')"
      using Inl by (auto split: option.splits)
    then show ?thesis by blast
  next
    case (Inr u)
    with Cons.prems one have rest: "write_rows E db q rows s1 = (r, s')" by auto
    from Cons.IH [OF rest] obtain t2 k where t2:
      "trace s' = trace s1 @ t2" "list_all loop_event t2" "k \<le> length rows"
      "actions t2 = (case q ''write'' of None \<Rightarrow> [] | Some w \<Rightarrow> map (ExecuteParams w) (take k rows))"
      "r = Inr () \<longrightarrow> k = length rows" "r \<noteq> Inl (KeyError ''index'')"
      by blast
    from t1 t2 Inr have "trace s' = trace s @ (t1 @ t2) \<and> list_all loop_event (t1 @ t2) \<and>
        Suc k \<le> length (row # rows) \<and>
        actions (t1 @ t2) = (case q ''write'' of None \<Rightarrow> [] | Some w \<Rightarrow> map (ExecuteParams w) (take (Suc k) (row # rows))) \<and>
        (r = Inr () \<longrightarrow> Suc k = length (row # rows) \<and> (row # rows \<noteq> [] \<longrightarrow> q ''write'' \<noteq> None)) \<and>
        r \<noteq> Inl (KeyError ''index'')"
      by (auto split: option.splits)
    then show ?thesis by blast
  qed
qed

lemma recreate_table_trace:
  assumes "recreate_table E db table q s = (r, s')"
  shows "\<exists>t. trace s' = trace s @ t \<and> list_all loop_event t \<and>
           prefix (actions t) (spec_recreate table q) \<and>
           (r = Inr () \<longrightarrow> actions t = spec_recreate table q \<and> q ''new'' \<noteq> None) \<and>
           r \<noteq> Inl (KeyError ''index'')"
  using assms
  by (auto simp: recreate_table_def exit_on_sqlite_error_def prim_defs actions_Cons is_log_def ev_defs2
       spec_recreate_def
       split: option.splits if_splits)

lemma bindM_assoc: "bindM (bindM m f) g = bindM m (\<lambda>x. bindM (f x) g)"
  by (rule ext) (simp add: bindM_def split: prod.splits sum.splits)

lemma bindM_cases:
  assumes "bindM m f s = (r, s')"
  obtains (raised) e where "m s = (Inl e, s')" "r = Inl e"
        | (returned) a s1 where "m s = (Inr a, s1)" "f a s1 = (r, s')"
  using assms by (auto simp: bindM_def split: prod.splits sum.splits)

lemma copy_table_head:
  assumes "bindM (getitem q ''read'') (\<lambda>read.
     bindM (effect (SrcExecute read) MysqlError (\<lambda>w. mysql_execute E w read)) (\<lambda>_.
     bindM (if d then recreate_table E db table q else returnM ()) (\<lambda>_.
     bindM (log INFO ''Pulling data from %s MySQL table ...'') (\<lambda>_.
     fetchall E)))) s = (r, s')"
  shows "\<exists>t. trace s' = trace s @ t \<and> list_all loop_event t \<and>
     (case r of
        Inr rows \<Rightarrow> actions t = spec_head d table q @ [SrcFetchall (Some rows)] \<and>
          q ''read'' \<noteq> None \<and> (d \<longrightarrow> q ''new'' \<noteq> None)
      | Inl e \<Rightarrow> prefix (actions t) (spec_head d table q @ [SrcFetchall None]) \<and> e \<noteq> KeyError ''index'')"
proof -
  from assms show ?thesis
  proof (cases rule: bindM_cases)
    case (raised e)
    then show ?thesis by (auto simp: getitem_def raiseM_def returnM_def split: option.splits)
  next
    case (returned read s1)
    then have q: "q ''read'' = Some read" and s1: "s1 = s"
      by (auto simp: getitem_def raiseM_def returnM_def split: option.splits)
    from returned(2) show ?thesis
    proof (cases rule: bindM_cases)
      case (raised e)
      then show ?thesis using q s1
        by (auto simp: effect_def spec_head_def actions_Cons is_log_def ev_defs2 split: option.splits)
    next
      case (returned u s2)
      then have s2: "trace s2 = trace s @ [SrcExecute read]"
        using s1 by (auto simp: effect_def split: option.splits)
      from returned(2) show ?thesis
      proof (cases rule: bindM_cases)
        case (raised e)
        then have d: d and rc: "recreate_table E db table q s2 = (Inl e, s')"
          by (auto simp: returnM_def split: if_splits)
        from recreate_table_trace [OF rc] obtain t where
          "trace s' = trace s2 @ t" "list_all loop_event t" "prefix (actions t) (spec_recreate table q)"
          "e \<noteq> KeyError ''index''"
          by blast
        with s2 q d raised(2) have "trace s' = trace s @ ([SrcExecute read] @ t) \<and>
           list_all loop_event ([SrcExecute read] @ t) \<and>
           prefix (actions ([SrcExecute read] @ t)) (spec_head d table q @ [SrcFetchall None]) \<and>
           e \<noteq> KeyError ''index''"
          by (auto simp: spec_head_def actions_Cons is_log_def ev_defs2)
        with raised(2) show ?thesis by (auto simp del: append.simps)
      next
        case (returned u3 s3)
        have "\<exists>t. trace s3 = trace s2 @ t \<and> list_all loop_event t \<and>
              actions t = (if d then spec_recreate table q else []) \<and> (d \<longrightarrow> q ''new'' \<noteq> None)"
        proof (cases d)
          case True
          with returned(1) have "recreate_table E db table q s2 = (Inr u3, s3)" by simp
          from recreate_table_trace [OF this] show ?thesis using True by auto
        next
          case False
          with returned(1) show ?thesis by (auto simp: returnM_def)
        qed
        then obtain t3 where t3: "trace s3 = trace s2 @ t3" "list_all loop_event t3"
              "actions t3 = (if d then spec_recreate table q else [])" "d \<longrightarrow> q ''new'' \<noteq> None" by blast
        from returned(2) have
          "(r = Inl MysqlError \<and> trace s' = trace s3 @ [Log INFO ''Pulling data from %s MySQL table ...'', SrcFetchall None])
           \<or> (\<exists>rows. r = Inr rows \<and> trace s' = trace s3 @ [Log INFO ''Pulling data from %s MySQL table ...'', SrcFetchall (Some rows)])"
          by (auto simp: prim_defs fetchall_def split: option.splits)
        then show ?thesis
        proof
          assume a: "r = Inl MysqlError \<and> trace s' = trace s3 @ [Log INFO ''Pulling data from %s MySQL table ...'', SrcFetchall None]"
          with s2 t3 q have "trace s' = trace s @ ([SrcExecute read] @ t3 @ [Log INFO ''Pulling data from %s MySQL table ...'', SrcFetchall None]) \<and>
            list_all loop_event ([SrcExecute read] @ t3 @ [Log INFO ''Pulling data from %s MySQL table ...'', SrcFetchall None]) \<and>
            prefix (actions ([SrcExecute read] @ t3 @ [Log INFO ''Pulling data from %s MySQL table ...'', SrcFetchall None]))
               (spec_head d table q @ [SrcFetchall None])"
            by (auto simp: spec_head_def actions_Cons is_log_def ev_defs2)
          with a show ?thesis by (auto simp del: append.simps)
        next
          assume "\<exists>rows. r = Inr rows \<and> trace s' = trace s3 @ [Log INFO ''Pulling data from %s MySQL table ...'', SrcFetchall (Some rows)]"
          then obtain rows where a: "r = Inr rows" "trace s' = trace s3 @ [Log INFO ''Pulling data from %s MySQL table ...'', SrcFetchall (Some rows)]"
            by blast
          with s2 t3 q have "trace s' = trace s @ ([SrcExecute read] @ t3 @ [Log INFO ''Pulling data from %s MySQL table ...'', SrcFetchall (Some rows)]) \<and>
            list_all loop_event ([SrcExecute read] @ t3 @ [Log INFO ''Pulling data from %s MySQL table ...'', SrcFetchall (Some rows)]) \<and>
            actions ([SrcExecute read] @ t3 @ [Log INFO ''Pulling data from %s MySQL table ...'', SrcFetchall (Some rows)])
               = (spec_head d table q @ [SrcFetchall (Some rows)])"
            by (auto simp: spec_head_def actions_Cons is_log_def ev_defs2)
          with a q t3(4) show ?thesis by (auto simp del: append.simps)
        qed
      qed
    qed
  qed
qed

lemma spec_table_actions_None:
  "spec_table_actions d table q None = spec_head d table q @ [SrcFetchall None]"
  by (simp add: spec_table_actions_def spec_head_def spec_recreate_def)

lemma spec_table_actions_Some:
  "spec_table_actions d table q (Some rows) = spec_head d table q @ [SrcFetchall (Some rows)] @
     (case q ''write'' of None \<Rightarrow> [] | Some w \<Rightarrow> map (ExecuteParams w) rows)"
  by (simp add: spec_table_actions_def spec_head_def spec_recreate_def)

lemma copy_table_tail:
  assumes "bindM (log INFO ''Updating %s SQLite table ...'') (\<lambda>_.
     bindM (write_rows E db q rows) (\<lambda>_.
     log INFO ''Updates to %s table are complete. The last inserted id was: %s\<newline>'')) s = (r, s')"
  shows "\<exists>t k. trace s' = trace s @ t \<and> list_all loop_event t \<and> k \<le> length rows \<and>
     actions t = (case q ''write'' of None \<Rightarrow> [] | Some w \<Rightarrow> map (ExecuteParams w) (take k rows)) \<and>
     (r = Inr () \<longrightarrow> k = length rows \<and> (rows \<noteq> [] \<longrightarrow> q ''write'' \<noteq> None)) \<and>
     r \<noteq> Inl (KeyError ''index'')"
  using assms
proof (cases rule: bindM_cases)
  case (raised e)
  then show ?thesis by (simp add: log_def emit_def)
next
  case (returned a s1)
  then have s1: "trace s1 = trace s @ [Log INFO ''Updating %s SQLite table ...'']"
    by (auto simp: log_def emit_def)
  from returned(2) show ?thesis
  proof (cases rule: bindM_cases)
    case (raised e)
    from write_rows_trace [OF raised(1)] obtain t k where
      "trace s' = trace s1 @ t" "list_all loop_event t" "k \<le> length rows"
      "actions t = (case q ''write'' of None \<Rightarrow> [] | Some w \<Rightarrow> map (ExecuteParams w) (take k rows))"
      "Inl e \<noteq> (Inl (KeyError ''index'') :: exn + unit)"
      by blast
    with s1 raised(2) have "trace s' = trace s @ (Log INFO ''Updating %s SQLite table ...'' # t) \<and>
      list_all loop_event (Log INFO ''Updating %s SQLite table ...'' # t) \<and> k \<le> length rows \<and>
      actions (Log INFO ''Updating %s SQLite table ...'' # t) =
        (case q ''write'' of None \<Rightarrow> [] | Some w \<Rightarrow> map (ExecuteParams w) (take k rows)) \<and>
      (r = Inr () \<longrightarrow> k = length rows \<and> (rows \<noteq> [] \<longrightarrow> q ''write'' \<noteq> None)) \<and>
      r \<noteq> Inl (KeyError ''index'')"
      by (simp add: actions_Cons is_log_def ev_defs2)
    then show ?thesis by blast
  next
    case (returned u s2)
    from write_rows_trace [OF returned(1)] obtain t k where t:
      "trace s2 = trace s1 @ t" "list_all loop_event t" "k = length rows"
      "actions t = (case q ''write'' of None \<Rightarrow> [] | Some w \<Rightarrow> map (ExecuteParams w) (take k rows))"
      "rows \<noteq> [] \<longrightarrow> q ''write'' \<noteq> None"
      by auto
    from returned(2) have r: "r = Inr ()" by (auto simp: log_def emit_def)
    from returned(2) have "trace s' = trace s2 @
        [Log INFO ''Updates to %s table are complete. The last inserted id was: %s\<newline>'']"
      by (auto simp: log_def emit_def)
    with s1 t have "trace s' = trace s @ (Log INFO ''Updating %s SQLite table ...'' # t @
        [Log INFO ''Updates to %s table are complete. The last inserted id was: %s\<newline>'']) \<and>
      list_all loop_event (Log INFO ''Updating %s SQLite table ...'' # t @
        [Log INFO ''Updates to %s table are complete. The last inserted id was: %s\<newline>'']) \<and>
      k \<le> length rows \<and>
      actions (Log INFO ''Updating %s SQLite table ...'' # t @
        [Log INFO ''Updates to %s table are complete. The last inserted id was: %s\<newline>'']) =
        (case q ''write'' of None \<Rightarrow> [] | Some w \<Rightarrow> map (ExecuteParams w) (take k rows)) \<and>
      (r = Inr () \<longrightarrow> k = length rows \<and> (rows \<noteq> [] \<longrightarrow> q ''write'' \<noteq> None)) \<and>
      r \<noteq> Inl (KeyError ''index'')"
      using r by (simp add: actions_Cons is_log_def ev_defs2)
    then show ?thesis by blast
  qed
qed

lemma copy_table_trace:
  assumes "copy_table E db d (table, q) s = (r, s')"
  shows "\<exists>t fetched. trace s' = trace s @ t \<and> list_all loop_event t \<and>
     prefix (actions t) (spec_table_actions d table q fetched) \<and>
     (r = Inr () \<longrightarrow> (\<exists>rows. fetched = Some rows \<and> (rows \<noteq> [] \<longrightarrow> q ''write'' \<noteq> None)) \<and>
        q ''read'' \<noteq> None \<and> (d \<longrightarrow> q ''new'' \<noteq> None) \<and>
        actions t = spec_table_actions d table q fetched) \<and>
     r \<noteq> Inl (KeyError ''index'')"
proof -
  have "copy_table E db d (table, q) =
    bindM (bindM (getitem q ''read'') (\<lambda>read.
       bindM (effect (SrcExecute read) MysqlError (\<lambda>w. mysql_execute E w read)) (\<lambda>_.
       bindM (if d then recreate_table E db table q else returnM ()) (\<lambda>_.
       bindM (log INFO ''Pulling data from %s MySQL table ...'') (\<lambda>_.
       fetchall E)))))
     (\<lambda>rows. bindM (log INFO ''Updating %s SQLite table ...'') (\<lambda>_.
       bindM (write_rows E db q rows) (\<lambda>_.
       log INFO ''Updates to %s table are complete. The last inserted id was: %s\<newline>'')))"
    by (simp add: copy_table_def bindM_assoc)
  with assms have "bindM (bindM (getitem q ''read'') (\<lambda>read.
       bindM (effect (SrcExecute read) MysqlError (\<lambda>w. mysql_execute E w read)) (\<lambda>_.
       bindM (if d then recreate_table E db table q else returnM ()) (\<lambda>_.
       bindM (log INFO ''Pulling data from %s MySQL table ...'') (\<lambda>_.
       fetchall E)))))
     (\<lambda>rows. bindM (log INFO ''Updating %s SQLite table ...'') (\<lambda>_.
       bindM (write_rows E db q rows) (\<lambda>_.
       log INFO ''Updates to %s table are complete. The last inserted id was: %s\<newline>''))) s = (r, s')"
    by simp
  then show ?thesis
  proof (cases rule: bindM_cases)
    case (raised e)
    from copy_table_head [OF raised(1)] obtain t where
      "trace s' = trace s @ t" "list_all loop_event t"
      "prefix (actions t) (spec_table_actions d table q None)" "e \<noteq> KeyError ''index''"
      by (auto simp: spec_table_actions_None)
    with raised(2) show ?thesis by blast
  next
    case (returned rows s1)
    from copy_table_head [OF returned(1)] obtain t1 where t1:
      "trace s1 = trace s @ t1" "list_all loop_event t1"
      "actions t1 = spec_head d table q @ [SrcFetchall (Some rows)]"
      "q ''read'' \<noteq> None" "d \<longrightarrow> q ''new'' \<noteq> None"
      by auto
    from copy_table_tail [OF returned(2)] obtain t2 k where t2:
      "trace s' = trace s1 @ t2" "list_all loop_event t2" "k \<le> length rows"
      "actions t2 = (case q ''write'' of None \<Rightarrow> [] | Some w \<Rightarrow> map (ExecuteParams w) (take k rows))"
      "r = Inr () \<longrightarrow> k = length rows \<and> (rows \<noteq> [] \<longrightarrow> q ''write'' \<noteq> None)"
      "r \<noteq> Inl (KeyError ''index'')"
      by blast
    have pre: "prefix (case q ''write'' of None \<Rightarrow> [] | Some w \<Rightarrow> map (ExecuteParams w) (take k rows))
        (case q ''write'' of None \<Rightarrow> [] | Some w \<Rightarrow> map (ExecuteParams w) rows)"
      by (auto split: option.splits simp: take_is_prefix map_mono_prefix)
    from t1 t2 pre have "trace s' = trace s @ (t1 @ t2) \<and> list_all loop_event (t1 @ t2) \<and>
       prefix (actions (t1 @ t2)) (spec_table_actions d table q (Some rows)) \<and>
       (r = Inr () \<longrightarrow> (\<exists>rows'. Some rows = Some rows' \<and> (rows' \<noteq> [] \<longrightarrow> q ''write'' \<noteq> None)) \<and>
          q ''read'' \<noteq> None \<and> (d \<longrightarrow> q ''new'' \<noteq> None) \<and>
          actions (t1 @ t2) = spec_table_actions d table q (Some rows)) \<and>
       r \<noteq> Inl (KeyError ''index'')"
      by (auto simp: spec_table_actions_Some split: option.splits)
    then show ?thesis by blast
  qed
qed

lemma copy_tables_trace:
  "copy_tables E db d entries s = (r, s') \<Longrightarrow>
     \<exists>t fs. trace s' = trace s @ t \<and> list_all loop_event t \<and> length fs \<le> length entries \<and>
       prefix (actions t) (spec_loop_actions d entries fs) \<and>
       (r = Inr () \<longrightarrow> length fs = length entries \<and> None \<notin> set fs \<and>
          actions t = spec_loop_actions d entries fs)"
proof (induction entries arbitrary: s)
  case Nil
  then have "trace s' = trace s @ [] \<and> list_all loop_event [] \<and> length [] \<le> length ([] :: (string \<times> (string \<rightharpoonup> string)) list) \<and>
       prefix (actions []) (spec_loop_actions d [] []) \<and>
       (r = Inr () \<longrightarrow> length [] = length ([] :: (string \<times> (string \<rightharpoonup> string)) list) \<and> None \<notin> set [] \<and>
          actions [] = spec_loop_actions d [] [])"
    by simp
  then show ?case by blast
next
  case (Cons entry entries)
  obtain table q where entry: "entry = (table, q)" by (cases entry)
  obtain r1 s1 where one: "copy_table E db d (table, q) s = (r1, s1)"
    by (cases "copy_table E db d (table, q) s")
  from copy_table_trace [OF one] obtain t1 f where t1:
    "trace s1 = trace s @ t1" "list_all loop_event t1"
    "prefix (actions t1) (spec_table_actions d table q f)"
    "r1 = Inr () \<longrightarrow> (\<exists>rows. f = Some rows \<and> (rows \<noteq> [] \<longrightarrow> q ''write'' \<noteq> None)) \<and>
        q ''read'' \<noteq> None \<and> (d \<longrightarrow> q ''new'' \<noteq> None) \<and>
        actions t1 = spec_table_actions d table q f"
    by blast
  show ?case
  proof (cases r1)
    case (Inl e)
    with Cons.prems one entry have "r = Inl e" "s' = s1" by auto
    with t1 entry have "trace s' = trace s @ t1 \<and> list_all loop_event t1 \<and>
       length [f] \<le> length (entry # entries) \<and>
       prefix (actions t1) (spec_loop_actions d (entry # entries) [f]) \<and>
       (r = Inr () \<longrightarrow> length [f] = length (entry # entries) \<and> None \<notin> set [f] \<and>
          actions t1 = spec_loop_actions d (entry # entries) [f])"
      by simp
    then show ?thesis by blast
  next
    case (Inr u)
    with Cons.prems one entry have rest: "copy_tables E db d entries s1 = (r, s')" by auto
    from Cons.IH [OF rest] obtain t2 fs where t2:
      "trace s' = trace s1 @ t2" "list_all loop_event t2" "length fs \<le> length entries"
      "prefix (actions t2) (spec_loop_actions d entries fs)"
      "r = Inr () \<longrightarrow> length fs = length entries \<and> None \<notin> set fs \<and>
          actions t2 = spec_loop_actions d entries fs"
      by blast
    from Inr t1 have a1: "f \<noteq> None" "actions t1 = spec_table_actions d table q f" by auto
    with t1 t2 entry have "trace s' = trace s @ (t1 @ t2) \<and> list_all loop_event (t1 @ t2) \<and>
       length (f # fs) \<le> length (entry # entries) \<and>
       prefix (actions (t1 @ t2)) (spec_loop_actions d (entry # entries) (f # fs)) \<and>
       (r = Inr () \<longrightarrow> length (f # fs) = length (entry # entries) \<and> None \<notin> set (f # fs) \<and>
          actions (t1 @ t2) = spec_loop_actions d (entry # entries) (f # fs))"
      by auto
    then show ?thesis by blast
  qed
qed

lemmas ev_defs3 = ev_defs2 import_event_def prepare_event_def cleanup_event_def

lemma added_append [simp]: "trace s' = trace s @ t \<Longrightarrow> added s s' = t"
  by (simp add: added_def)

lemma onlyI:
  assumes "\<And>s r s'. m s = (r, s') \<Longrightarrow> \<exists>t. trace s' = trace s @ t \<and> list_all P t"
  shows "only P m"
  unfolding only_def
proof
  fix s
  obtain r s' where run: "m s = (r, s')" by (cases "m s")
  from assms [OF run] run show "\<exists>t. trace (snd (m s)) = trace s @ t \<and> list_all P t" by simp
qed

lemma only_schema_entry: "only import_event (schema_entry q acc)"
  unfolding schema_entry_def
  by (auto intro!: only_intros simp: ev_defs3 split: option.splits)

lemma build_schema_trace:
  "build_schema entries acc s = (r, s') \<Longrightarrow> \<exists>t. trace s' = trace s @ t \<and> list_all import_event t"
proof (induction entries arbitrary: acc s)
  case Nil
  then have "trace s' = trace s @ [] \<and> list_all import_event []" by simp
  then show ?case by blast
next
  case (Cons entry entries)
  obtain table q where entry: "entry = (table, q)" by (cases entry)
  obtain r1 s1 where one: "schema_entry q acc s = (r1, s1)" by (cases "schema_entry q acc s")
  from onlyD [OF only_schema_entry one] obtain t1 where t1:
    "trace s1 = trace s @ t1" "list_all import_event t1" by blast
  show ?case
  proof (cases r1)
    case (Inl e)
    with Cons.prems one entry have "s' = s1" by auto
    with t1 show ?thesis by blast
  next
    case (Inr schema')
    with Cons.prems one entry have "build_schema entries schema' s1 = (r, s')" by auto
    from Cons.IH [OF this] obtain t2 where "trace s' = trace s1 @ t2" "list_all import_event t2"
      by blast
    with t1 have "trace s' = trace s @ (t1 @ t2) \<and> list_all import_event (t1 @ t2)" by simp
    then show ?thesis by blast
  qed
qed

lemma only_build_schema: "only import_event (build_schema entries acc)"
  by (rule onlyI) (rule build_schema_trace)

lemma import_trace:
  assumes "import_sqlite_db_schema E db gs qs s = (r, s')"
  shows "\<exists>t. trace s' = trace s @ import_called # t \<and> list_all import_event t"
proof -
  have "only import_event (bindM (build_schema (queries qs) []) (\<lambda>sqlite_db_schema.
     bindM (log DEBUG ''Schema we will import: \<newline>%s'') (\<lambda>_.
     bindM (catch (effect (ExecuteScript sqlite_db_schema) SqliteError
                     (\<lambda>w. executescript E w db sqlite_db_schema))
              (\<lambda>error. if error = SqliteError
                 then bindM (log ERROR ''Failed to create schema: %s'')
                        (\<lambda>_. sys_exit (ExitInt 1))
                 else raiseM error)) (\<lambda>_.
     log INFO ''Created database with imported schema ...''))))" (is "only _ ?rest")
    by (auto intro!: only_intros only_build_schema simp: ev_defs3)
  moreover from assms have "?rest (s\<lparr>trace := trace s @ [import_called]\<rparr>) = (r, s')"
    by (simp add: import_sqlite_db_schema_def import_called_def bindM_def log_def emit_def)
  ultimately obtain t where "trace s' = trace (s\<lparr>trace := trace s @ [import_called]\<rparr>) @ t"
     "list_all import_event t"
    using onlyD by blast
  then show ?thesis by simp
qed

lemma only_import: "only prepare_event (import_sqlite_db_schema E db gs qs)"
proof (rule onlyI)
  fix s r s'
  assume run: "import_sqlite_db_schema E db gs qs s = (r, s')"
  from import_trace [OF run] obtain t where "trace s' = trace s @ import_called # t"
    "list_all import_event t" by blast
  then have "trace s' = trace s @ (import_called # t) \<and> list_all prepare_event (import_called # t)"
    by (auto simp: list_all_iff ev_defs3)
  then show "\<exists>t. trace s' = trace s @ t \<and> list_all prepare_event t" by blast
qed

lemma only_prepare: "only prepare_event (prepare_sqlite_db E gs qs db)"
  unfolding prepare_sqlite_db_def import_schema_if_needed_def
  by (auto intro!: only_intros only_import
       only_weaken [OF only_open] only_weaken [OF only_check_missing] simp: ev_defs3)

lemma only_verify_autocommit: "only setup_event (verify_autocommit E gs db)"
  unfolding only_def
  by (auto simp: verify_autocommit_def prim_defs ev_defs3 split: option.splits)

lemma only_set_drop_tables: "only setup_event (set_drop_tables E db)"
  unfolding set_drop_tables_def
  by (auto intro!: only_intros only_sqlite_db_has_tables simp: ev_defs3)

lemma only_copy_tables: "only loop_event (copy_tables E db d entries)"
proof (rule onlyI)
  fix s r s'
  assume run: "copy_tables E db d entries s = (r, s')"
  from copy_tables_trace [OF run] show "\<exists>t. trace s' = trace s @ t \<and> list_all loop_event t"
    by blast
qed

lemma only_mirror_tables: "only loop_event (mirror_tables E gs qs db)"
  unfolding mirror_tables_def
  by (auto intro!: only_intros only_copy_tables
       only_weaken [OF only_verify_autocommit] only_weaken [OF only_set_drop_tables]
       simp: ev_defs3)

lemma cleanup_trace:
  assumes "cleanup E db s = (r, s')"
  shows "(r = Inr () \<and> trace s' = trace s @ cleanup_events) \<or>
         (r = Inl SqliteError \<and> trace s' = trace s @ [Log INFO ''Committing transactions ...'', Commit])"
  using assms
  by (auto simp: cleanup_def cleanup_events_def prim_defs split: option.splits)

lemma starts_with_bindM:
  assumes "starts_with ev m" and "\<And>a. only P (f a)"
  shows "starts_with ev (bindM m f)"
  unfolding starts_with_def
proof
  fix s
  from assms(1) obtain rest where rest: "trace (snd (m s)) = trace s @ ev # rest"
    unfolding starts_with_def by blast
  show "\<exists>rest. trace (snd (bindM m f s)) = trace s @ ev # rest"
  proof (cases "m s")
    case (Pair r1 s1)
    show ?thesis
    proof (cases r1)
      case (Inl e)
      with Pair rest show ?thesis by (simp add: bindM_def)
    next
      case (Inr a)
      obtain r2 s2 where f: "f a s1 = (r2, s2)" by (cases "f a s1")
      from onlyD [OF assms(2) f] obtain t where "trace s2 = trace s1 @ t" by blast
      with Pair Inr rest f show ?thesis by (simp add: bindM_def)
    qed
  qed
qed

lemma starts_with_open: "starts_with (PathExists db) (open_sqlite_db E gs qs db)"
  unfolding open_sqlite_db_def Let_def
  by (rule starts_with_bindM [where P = "\<lambda>ev. True"])
     (auto simp: starts_with_def observe_def intro!: only_intros only_weaken [OF only_verify])

lemma starts_with_mirror_run:
  assumes "sqlitedb_config gs ''db_file'' = Some db"
  shows "starts_with (PathExists db) (mirror_run E gs qs)"
proof -
  have "starts_with (PathExists db) (bindM (prepare_sqlite_db E gs qs db) (\<lambda>_.
     bindM (mirror_tables E gs qs db) (\<lambda>_. cleanup E db)))"
    unfolding prepare_sqlite_db_def
    apply (rule starts_with_bindM [where P = "\<lambda>ev. True"])
     apply (rule starts_with_bindM [where P = "\<lambda>ev. True"])
      apply (rule starts_with_open)
     apply (auto intro!: only_intros only_weaken [OF only_check_missing]
        only_weaken [OF only_import] only_weaken [OF only_mirror_tables]
        simp: import_schema_if_needed_def cleanup_def)
    done
  moreover have "mirror_run E gs qs = bindM (prepare_sqlite_db E gs qs db) (\<lambda>_.
     bindM (mirror_tables E gs qs db) (\<lambda>_. cleanup E db))"
    using assms by (auto simp: mirror_run_def getitem_def returnM_def bindM_def)
  ultimately show ?thesis by simp
qed

lemma update_fresh: "k \<notin> fst ` set al \<Longrightarrow> AList.update k v al = al @ [(k, v)]"
  by (induction al) auto

lemma only_cleanup: "only cleanup_event (cleanup E db)"
  unfolding cleanup_def
  by (auto intro!: only_intros simp: ev_defs3)

lemma mirror_run_unfold:
  assumes "sqlitedb_config gs ''db_file'' = Some db"
  shows "mirror_run E gs qs = bindM (prepare_sqlite_db E gs qs db) (\<lambda>_.
     bindM (mirror_tables E gs qs db) (\<lambda>_. cleanup E db))"
  using assms by (auto simp: mirror_run_def getitem_def returnM_def bindM_def)

lemma open_sqlite_db_is_new:
  assumes "open_sqlite_db E gs qs db s = (Inr is_new, s1)"
  shows "is_new = (\<not> os_path_exists E (world s) db)"
  using assms unfolding open_sqlite_db_def Let_def
  by (auto simp: bindM_def observe_def returnM_def split: prod.splits sum.splits)

lemmas sample_defs = ref_engine_def start_def empty_db_world_def users_entry_def users_catalog_def
  sample_settings_def

lemmas script_defs = mirror_run_def prepare_sqlite_db_def open_sqlite_db_def
  check_missing_tables_def import_schema_if_needed_def import_sqlite_db_schema_def
  schema_entry_def sqlite_db_has_tables_def verify_autocommit_def mirror_tables_def
  set_drop_tables_def copy_table_def recreate_table_def write_row_def fetchall_def
  exit_on_sqlite_error_def cleanup_def count_sql_def


text \<open>The sample runs, evaluated.\<close>

lemmas eval_defs = script_defs sample_defs prim_defs

section \<open>The script against the specification's procedures\<close>

text \<open>
  Each phase of the script leaves the world its procedure of the specification leaves, and
  ends as it ends.
\<close>

lemma recreate_table_world:
  assumes "recreate_table E db table q s = (r, s')"
  shows "(r, world s') = TableMirror_recreate E db table q (world s)"
  using assms
  by (auto simp: recreate_table_def TableMirror_recreate_def exit_on_sqlite_error_def prim_defs
       fatal_def split: option.splits if_splits)

lemma write_row_world:
  assumes "write_row E db q row s = (r, s')"
  shows "(r, world s') =
     (case q ''write'' of
        None \<Rightarrow> (Inl (KeyError ''write''), world s)
      | Some write \<Rightarrow>
          (case execute_params E (world s) db write row of
             None \<Rightarrow> (Inl fatal, world s)
           | Some w' \<Rightarrow> (Inr (), w')))"
  using assms
  by (auto simp: write_row_def prim_defs fatal_def split: option.splits if_splits)

lemma write_rows_world:
  "write_rows E db q rows s = (r, s') \<Longrightarrow>
     (r, world s') = TableMirror_write E db q rows (world s)"
proof (induction rows arbitrary: s)
  case Nil
  then show ?case by auto
next
  case (Cons row rows)
  obtain r1 s1 where one: "write_row E db q row s = (r1, s1)"
    by (cases "write_row E db q row s")
  note w = write_row_world [OF one]
  show ?case
  proof (cases r1)
    case (Inl e)
    with Cons.prems one have "r = Inl e" "s' = s1" by auto
    with w Inl show ?thesis by (auto split: option.splits)
  next
    case (Inr u)
    with Cons.prems one have rest: "write_rows E db q rows s1 = (r, s')" by auto
    from Cons.IH [OF rest] w Inr show ?thesis by (auto split: option.splits)
  qed
qed

lemma copy_table_head_world:
  assumes "bindM (getitem q ''read'') (\<lambda>read.
     bindM (effect (SrcExecute read) MysqlError (\<lambda>w. mysql_execute E w read)) (\<lambda>_.
     bindM (if d then recreate_table E db table q else returnM ()) (\<lambda>_.
     bindM (log INFO ''Pulling data from %s MySQL table ...'') (\<lambda>_.
     fetchall E)))) s = (r, s')"
  shows "(r, world s') = TableMirror_read E db d table q (world s)"
  using assms
proof (cases rule: bindM_cases)
  case (raised e)
  then show ?thesis
    by (auto simp: getitem_def raiseM_def returnM_def TableMirror_read_def split: option.splits)
next
  case (returned read s1)
  then have q: "q ''read'' = Some read" and s1: "s1 = s"
    by (auto simp: getitem_def raiseM_def returnM_def split: option.splits)
  from returned(2) show ?thesis
  proof (cases rule: bindM_cases)
    case (raised e)
    then show ?thesis using q s1
      by (auto simp: effect_def TableMirror_read_def split: option.splits)
  next
    case (returned u s2)
    then have s2: "mysql_execute E (world s) read = Some (world s2)"
      using s1 by (auto simp: effect_def split: option.splits)
    from returned(2) show ?thesis
    proof (cases rule: bindM_cases)
      case (raised e)
      then have d: d and rc: "recreate_table E db table q s2 = (Inl e, s')"
        by (auto simp: returnM_def split: if_splits)
      from recreate_table_world [OF rc] have "TableMirror_recreate E db table q (world s2) = (Inl e, world s')"
        by simp
      with q s2 d raised(2) show ?thesis by (simp add: TableMirror_read_def)
    next
      case (returned u3 s3)
      have st: "(if d then TableMirror_recreate E db table q (world s2) else (Inr (), world s2))
         = (Inr (), world s3)"
      proof (cases d)
        case True
        with returned(1) have "recreate_table E db table q s2 = (Inr u3, s3)" by simp
        from recreate_table_world [OF this] show ?thesis using True by simp
      next
        case False
        with returned(1) show ?thesis by (auto simp: returnM_def)
      qed
      from returned(2) have
        "(r, world s') = (case mysql_fetchall E (world s3) of
            None \<Rightarrow> (Inl MysqlError, world s3) | Some rows \<Rightarrow> (Inr rows, world s3))"
        by (auto simp: prim_defs fetchall_def split: option.splits)
      with q s2 st show ?thesis by (simp add: TableMirror_read_def)
    qed
  qed
qed

lemma copy_table_tail_world:
  assumes "bindM (log INFO ''Updating %s SQLite table ...'') (\<lambda>_.
     bindM (write_rows E db q rows) (\<lambda>_.
     log INFO ''Updates to %s table are complete. The last inserted id was: %s\<newline>'')) s = (r, s')"
  shows "(r, world s') = TableMirror_write E db q rows (world s)"
  using assms
proof (cases rule: bindM_cases)
  case (raised e)
  then show ?thesis by (simp add: log_def emit_def)
next
  case (returned a s1)
  then have s1: "world s1 = world s" by (auto simp: log_def emit_def)
  from returned(2) show ?thesis
  proof (cases rule: bindM_cases)
    case (raised e)
    from write_rows_world [OF raised(1)] s1 raised(2) show ?thesis by simp
  next
    case (returned u s2)
    from returned(2) have "r = Inr ()" "world s' = world s2" by (auto simp: log_def emit_def)
    with write_rows_world [OF returned(1)] s1 show ?thesis by simp
  qed
qed

lemma copy_table_run:
  assumes "copy_table E db d (table, q) s = (r, s')"
  shows "(r, world s') = TableMirror_mirrorTable E db d table q (world s) \<and>
    (\<exists>t. trace s' = trace s @ t \<and> list_all loop_event t \<and>
     prefix (actions t) (spec_table_actions d table q (TableMirror_fetched E db d table q (world s))) \<and>
     (r = Inr () \<longrightarrow>
        (\<exists>rows. TableMirror_fetched E db d table q (world s) = Some rows \<and>
           (rows \<noteq> [] \<longrightarrow> q ''write'' \<noteq> None)) \<and>
        q ''read'' \<noteq> None \<and> (d \<longrightarrow> q ''new'' \<noteq> None) \<and>
        actions t = spec_table_actions d table q (TableMirror_fetched E db d table q (world s))))"
proof -
  have "copy_table E db d (table, q) =
    bindM (bindM (getitem q ''read'') (\<lambda>read.
       bindM (effect (SrcExecute read) MysqlError (\<lambda>w. mysql_execute E w read)) (\<lambda>_.
       bindM (if d then recreate_table E db table q else returnM ()) (\<lambda>_.
       bindM (log INFO ''Pulling data from %s MySQL table ...'') (\<lambda>_.
       fetchall E)))))
     (\<lambda>rows. bindM (log INFO ''Updating %s SQLite table ...'') (\<lambda>_.
       bindM (write_rows E db q rows) (\<lambda>_.
       log INFO ''Updates to %s table are complete. The last inserted id was: %s\<newline>'')))"
    by (simp add: copy_table_def bindM_assoc)
  with assms have "bindM (bindM (getitem q ''read'') (\<lambda>read.
       bindM (effect (SrcExecute read) MysqlError (\<lambda>w. mysql_execute E w read)) (\<lambda>_.
       bindM (if d then recreate_table E db table q else returnM ()) (\<lambda>_.
       bindM (log INFO ''Pulling data from %s MySQL table ...'') (\<lambda>_.
       fetchall E)))))
     (\<lambda>rows. bindM (log INFO ''Updating %s SQLite table ...'') (\<lambda>_.
       bindM (write_rows E db q rows) (\<lambda>_.
       log INFO ''Updates to %s table are complete. The last inserted id was: %s\<newline>''))) s = (r, s')"
    by simp
  then show ?thesis
  proof (cases rule: bindM_cases)
    case (raised e)
    from copy_table_head_world [OF raised(1)]
    have rd: "TableMirror_read E db d table q (world s) = (Inl e, world s')" by simp
    then have f: "TableMirror_fetched E db d table q (world s) = None"
      and w: "TableMirror_mirrorTable E db d table q (world s) = (Inl e, world s')"
      by (simp_all add: TableMirror_fetched_def TableMirror_mirrorTable_def)
    from copy_table_head [OF raised(1)] obtain t where t:
      "trace s' = trace s @ t" "list_all loop_event t"
      "prefix (actions t) (spec_table_actions d table q None)"
      by (auto simp: spec_table_actions_None)
    have "\<exists>t. trace s' = trace s @ t \<and> list_all loop_event t \<and>
       prefix (actions t) (spec_table_actions d table q None)"
      by (intro exI conjI) (rule t(1), rule t(2), rule t(3))
    with raised(2) f w show ?thesis by simp
  next
    case (returned rows s1)
    from copy_table_head_world [OF returned(1)]
    have rd: "TableMirror_read E db d table q (world s) = (Inr rows, world s1)" by simp
    then have f: "TableMirror_fetched E db d table q (world s) = Some rows"
      by (simp add: TableMirror_fetched_def)
    from copy_table_tail_world [OF returned(2)] rd
    have w: "(r, world s') = TableMirror_mirrorTable E db d table q (world s)"
      by (simp add: TableMirror_mirrorTable_def)
    from copy_table_head [OF returned(1)] obtain t1 where t1:
      "trace s1 = trace s @ t1" "list_all loop_event t1"
      "actions t1 = spec_head d table q @ [SrcFetchall (Some rows)]"
      "q ''read'' \<noteq> None" "d \<longrightarrow> q ''new'' \<noteq> None"
      by auto
    from copy_table_tail [OF returned(2)] obtain t2 k where t2:
      "trace s' = trace s1 @ t2" "list_all loop_event t2" "k \<le> length rows"
      "actions t2 = (case q ''write'' of None \<Rightarrow> [] | Some w \<Rightarrow> map (ExecuteParams w) (take k rows))"
      "r = Inr () \<longrightarrow> k = length rows \<and> (rows \<noteq> [] \<longrightarrow> q ''write'' \<noteq> None)"
      by blast
    have pre: "prefix (case q ''write'' of None \<Rightarrow> [] | Some w \<Rightarrow> map (ExecuteParams w) (take k rows))
        (case q ''write'' of None \<Rightarrow> [] | Some w \<Rightarrow> map (ExecuteParams w) rows)"
      by (auto split: option.splits simp: take_is_prefix map_mono_prefix)
    have a: "trace s' = trace s @ (t1 @ t2)" using t1(1) t2(1) by simp
    have b: "list_all loop_event (t1 @ t2)" using t1(2) t2(2) by simp
    have c: "prefix (actions (t1 @ t2)) (spec_table_actions d table q (Some rows))"
      using t1(3) t2(4) pre by (simp add: spec_table_actions_Some)
    have e: "r = Inr () \<longrightarrow>
       (\<exists>rows'. Some rows = Some rows' \<and> (rows' \<noteq> [] \<longrightarrow> q ''write'' \<noteq> None)) \<and>
          q ''read'' \<noteq> None \<and> (d \<longrightarrow> q ''new'' \<noteq> None) \<and>
          actions (t1 @ t2) = spec_table_actions d table q (Some rows)"
      using t1(3,4,5) t2(4,5) by (auto simp: spec_table_actions_Some split: option.splits)
    have "\<exists>t. trace s' = trace s @ t \<and> list_all loop_event t \<and>
     prefix (actions t) (spec_table_actions d table q (Some rows)) \<and>
     (r = Inr () \<longrightarrow>
        (\<exists>rows'. Some rows = Some rows' \<and> (rows' \<noteq> [] \<longrightarrow> q ''write'' \<noteq> None)) \<and>
        q ''read'' \<noteq> None \<and> (d \<longrightarrow> q ''new'' \<noteq> None) \<and>
        actions t = spec_table_actions d table q (Some rows))"
      by (intro exI conjI) (rule a, rule b, rule c, rule e)
    with w f show ?thesis by simp
  qed
qed

lemma copy_tables_run:
  "copy_tables E db d entries s = (r, s') \<Longrightarrow>
     (r, world s') = MirrorRun_tables E db d entries (world s) \<and>
     (\<exists>t. trace s' = trace s @ t \<and> list_all loop_event t \<and>
       prefix (actions t) (spec_loop_actions d entries (MirrorRun_fetched E db d entries (world s))) \<and>
       (r = Inr () \<longrightarrow> None \<notin> set (MirrorRun_fetched E db d entries (world s)) \<and>
          actions t = spec_loop_actions d entries (MirrorRun_fetched E db d entries (world s))))"
proof (induction entries arbitrary: s)
  case Nil
  then have "trace s' = trace s @ [] \<and> list_all loop_event [] \<and>
       prefix (actions []) (spec_loop_actions d [] (MirrorRun_fetched E db d [] (world s))) \<and>
       (r = Inr () \<longrightarrow> None \<notin> set (MirrorRun_fetched E db d [] (world s)) \<and>
          actions [] = spec_loop_actions d [] (MirrorRun_fetched E db d [] (world s)))"
    by simp
  then have "\<exists>t. trace s' = trace s @ t \<and> list_all loop_event t \<and>
       prefix (actions t) (spec_loop_actions d [] (MirrorRun_fetched E db d [] (world s))) \<and>
       (r = Inr () \<longrightarrow> None \<notin> set (MirrorRun_fetched E db d [] (world s)) \<and>
          actions t = spec_loop_actions d [] (MirrorRun_fetched E db d [] (world s)))"
    by (rule exI)
  with Nil show ?case by simp
next
  case (Cons entry entries)
  obtain table q where entry: "entry = (table, q)" by (cases entry)
  obtain r1 s1 where one: "copy_table E db d (table, q) s = (r1, s1)"
    by (cases "copy_table E db d (table, q) s")
  let ?f = "TableMirror_fetched E db d table q (world s)"
  from copy_table_run [OF one] obtain t1 where w1:
    "(r1, world s1) = TableMirror_mirrorTable E db d table q (world s)" and t1:
    "trace s1 = trace s @ t1" "list_all loop_event t1"
    "prefix (actions t1) (spec_table_actions d table q ?f)"
    "r1 = Inr () \<longrightarrow> ?f \<noteq> None \<and> actions t1 = spec_table_actions d table q ?f"
    by auto
  have fs: "MirrorRun_fetched E db d (entry # entries) (world s) =
     ?f # MirrorRun_fetched E db d entries (world s1)"
    using w1 [symmetric] entry by simp
  show ?case
  proof (cases r1)
    case (Inl e)
    with Cons.prems one entry have r: "r = Inl e" "s' = s1" by auto
    have w: "(r, world s') = MirrorRun_tables E db d (entry # entries) (world s)"
      using w1 [symmetric] Inl r entry by simp
    have p: "prefix (actions t1)
       (spec_loop_actions d (entry # entries) (MirrorRun_fetched E db d (entry # entries) (world s)))"
      using t1(3) entry fs by (simp add: prefix_prefix)
    have a: "trace s' = trace s @ t1" using t1(1) r by simp
    have "\<exists>t. trace s' = trace s @ t \<and> list_all loop_event t \<and>
       prefix (actions t) (spec_loop_actions d (entry # entries)
          (MirrorRun_fetched E db d (entry # entries) (world s)))"
      by (intro exI conjI) (rule a, rule t1(2), rule p)
    with w r show ?thesis by simp
  next
    case (Inr u)
    with Cons.prems one entry have rest: "copy_tables E db d entries s1 = (r, s')" by auto
    let ?fs = "MirrorRun_fetched E db d entries (world s1)"
    from Cons.IH [OF rest] obtain t2 where w2:
      "(r, world s') = MirrorRun_tables E db d entries (world s1)" and t2:
      "trace s' = trace s1 @ t2" "list_all loop_event t2"
      "prefix (actions t2) (spec_loop_actions d entries ?fs)"
      "r = Inr () \<longrightarrow> None \<notin> set ?fs \<and> actions t2 = spec_loop_actions d entries ?fs"
      by auto
    have w: "(r, world s') = MirrorRun_tables E db d (entry # entries) (world s)"
      using w1 [symmetric] w2 Inr entry by simp
    from Inr t1 have a1: "?f \<noteq> None" "actions t1 = spec_table_actions d table q ?f" by auto
    have a: "trace s' = trace s @ (t1 @ t2)" using t1(1) t2(1) by simp
    have b: "list_all loop_event (t1 @ t2)" using t1(2) t2(2) by simp
    have p: "prefix (actions (t1 @ t2))
       (spec_loop_actions d (entry # entries) (MirrorRun_fetched E db d (entry # entries) (world s)))"
      using a1(2) t2(3) entry fs by simp
    have e: "r = Inr () \<longrightarrow>
        None \<notin> set (MirrorRun_fetched E db d (entry # entries) (world s)) \<and>
        actions (t1 @ t2) = spec_loop_actions d (entry # entries)
          (MirrorRun_fetched E db d (entry # entries) (world s))"
      using a1 t2(4) entry fs by auto
    have "\<exists>t. trace s' = trace s @ t \<and> list_all loop_event t \<and>
       prefix (actions t) (spec_loop_actions d (entry # entries)
          (MirrorRun_fetched E db d (entry # entries) (world s))) \<and>
       (r = Inr () \<longrightarrow>
        None \<notin> set (MirrorRun_fetched E db d (entry # entries) (world s)) \<and>
        actions t = spec_loop_actions d (entry # entries)
          (MirrorRun_fetched E db d (entry # entries) (world s)))"
      by (intro exI conjI) (rule a, rule b, rule p, rule e)
    with w show ?thesis by simp
  qed
qed


lemma schema_entry_result:
  "schema_entry q acc s = (r, s') \<Longrightarrow>
     world s' = world s \<and> (\<exists>t. trace s' = trace s @ t \<and> list_all is_log t) \<and>
     r = (case q ''new'' of
            None \<Rightarrow> Inl (KeyError ''new'')
          | Some new \<Rightarrow>
              Inr (acc @ (''\<newline>'' @ new @ '';\<newline>'') @
                   (case q ''index'' of None \<Rightarrow> [] | Some index \<Rightarrow> ''\<newline>'' @ index @ '';\<newline>'')))"
  by (auto simp: schema_entry_def prim_defs is_log_def split: option.splits)

lemma build_schema_result:
  "build_schema entries acc s = (r, s') \<Longrightarrow>
     world s' = world s \<and> (\<exists>t. trace s' = trace s @ t \<and> list_all is_log t) \<and>
     r = (case schema_script entries of Inl e \<Rightarrow> Inl e | Inr script \<Rightarrow> Inr (acc @ script))"
proof (induction entries arbitrary: acc s)
  case Nil
  then have "trace s' = trace s @ [] \<and> list_all is_log []" by simp
  then have "\<exists>t. trace s' = trace s @ t \<and> list_all is_log t" by (rule exI)
  with Nil show ?case by simp
next
  case (Cons entry entries)
  obtain table q where entry: "entry = (table, q)" by (cases entry)
  obtain r1 s1 where one: "schema_entry q acc s = (r1, s1)" by (cases "schema_entry q acc s")
  from schema_entry_result [OF one] obtain t1 where t1:
    "world s1 = world s" "trace s1 = trace s @ t1" "list_all is_log t1"
    "r1 = (case q ''new'' of
            None \<Rightarrow> Inl (KeyError ''new'')
          | Some new \<Rightarrow>
              Inr (acc @ (''\<newline>'' @ new @ '';\<newline>'') @
                   (case q ''index'' of None \<Rightarrow> [] | Some index \<Rightarrow> ''\<newline>'' @ index @ '';\<newline>'')))"
    by blast
  show ?case
  proof (cases r1)
    case (Inl e)
    with Cons.prems one entry have r: "r = Inl e" "s' = s1" by auto
    have "\<exists>t. trace s' = trace s @ t \<and> list_all is_log t"
      using t1(2,3) r(2) by (intro exI conjI) auto
    moreover have "r = (case schema_script (entry # entries) of
        Inl e \<Rightarrow> Inl e | Inr script \<Rightarrow> Inr (acc @ script))"
      using Inl t1(4) r(1) entry by (auto split: option.splits)
    ultimately show ?thesis using t1(1) r(2) by simp
  next
    case (Inr schema')
    with Cons.prems one entry have rest: "build_schema entries schema' s1 = (r, s')" by auto
    from Cons.IH [OF rest] obtain t2 where t2:
      "world s' = world s1" "trace s' = trace s1 @ t2" "list_all is_log t2"
      "r = (case schema_script entries of Inl e \<Rightarrow> Inl e | Inr script \<Rightarrow> Inr (schema' @ script))"
      by blast
    have a: "trace s' = trace s @ (t1 @ t2)" using t1(2) t2(2) by simp
    have b: "list_all is_log (t1 @ t2)" using t1(3) t2(3) by simp
    have "\<exists>t. trace s' = trace s @ t \<and> list_all is_log t"
      by (intro exI conjI) (rule a, rule b)
    moreover have "r = (case schema_script (entry # entries) of
        Inl e \<Rightarrow> Inl e | Inr script \<Rightarrow> Inr (acc @ script))"
      using Inr t1(4) t2(4) entry by (auto split: option.splits sum.splits)
    ultimately show ?thesis using t1(1) t2(1) by simp
  qed
qed

lemma filter_is_script_logs: "list_all is_log t \<Longrightarrow> filter is_script t = []"
  by (induction t) (auto simp: is_log_def is_script_def split: event.splits)

lemma import_run:
  assumes "import_sqlite_db_schema E db gs qs s = (r, s')"
  shows "(r, world s') = SchemaImporter_importSchema E db (queries qs) (world s) \<and>
     (\<exists>t. trace s' = trace s @ import_called # t \<and>
        filter is_script t =
          (case schema_script (queries qs) of Inl e \<Rightarrow> [] | Inr script \<Rightarrow> [ExecuteScript script]))"
proof -
  let ?s0 = "s\<lparr>trace := trace s @ [import_called]\<rparr>"
  let ?rest = "bindM (build_schema (queries qs) []) (\<lambda>sqlite_db_schema.
     bindM (log DEBUG ''Schema we will import: \<newline>%s'') (\<lambda>_.
     bindM (catch (effect (ExecuteScript sqlite_db_schema) SqliteError
                     (\<lambda>w. executescript E w db sqlite_db_schema))
              (\<lambda>error. if error = SqliteError
                 then bindM (log ERROR ''Failed to create schema: %s'')
                        (\<lambda>_. sys_exit (ExitInt 1))
                 else raiseM error)) (\<lambda>_.
     log INFO ''Created database with imported schema ...'')))"
  from assms have "?rest ?s0 = (r, s')"
    by (simp add: import_sqlite_db_schema_def import_called_def bindM_def log_def emit_def)
  then show ?thesis
  proof (cases rule: bindM_cases)
    case (raised e)
    from build_schema_result [OF raised(1)] obtain t where t:
      "world s' = world s" "trace s' = trace s @ import_called # t" "list_all is_log t"
      "schema_script (queries qs) = Inl e"
      by (auto split: sum.splits)
    have "\<exists>t. trace s' = trace s @ import_called # t \<and> filter is_script t = []"
      using t(2) filter_is_script_logs [OF t(3)] by (intro exI conjI)
    with t(1,4) raised(2) show ?thesis by (simp add: SchemaImporter_importSchema_def)
  next
    case (returned script s1)
    from build_schema_result [OF returned(1)] obtain t where t:
      "world s1 = world s" "trace s1 = trace s @ import_called # t" "list_all is_log t"
      "schema_script (queries qs) = Inr script"
      by (auto split: sum.splits)
    from returned(2) have
      "(r, world s') = (case executescript E (world s1) db script of
           None \<Rightarrow> (Inl fatal, world s1) | Some w' \<Rightarrow> (Inr (), w'))
       \<and> (\<exists>l. trace s' = trace s1 @ [Log DEBUG ''Schema we will import: \<newline>%s'',
             ExecuteScript script, l] \<and> is_log l)"
      by (auto simp: prim_defs fatal_def is_log_def split: option.splits)
    then obtain l where l:
      "(r, world s') = (case executescript E (world s1) db script of
           None \<Rightarrow> (Inl fatal, world s1) | Some w' \<Rightarrow> (Inr (), w'))"
      "trace s' = trace s1 @ [Log DEBUG ''Schema we will import: \<newline>%s'', ExecuteScript script, l]"
      "is_log l" by blast
    let ?t = "t @ [Log DEBUG ''Schema we will import: \<newline>%s'', ExecuteScript script, l]"
    have a: "trace s' = trace s @ import_called # ?t" using t(2) l(2) by simp
    have "is_script l = False" using l(3)
      by (auto simp: is_log_def is_script_def split: event.splits)
    then have b: "filter is_script ?t = [ExecuteScript script]"
      using filter_is_script_logs [OF t(3)] by (simp add: is_script_def)
    have "\<exists>t. trace s' = trace s @ import_called # t \<and> filter is_script t = [ExecuteScript script]"
      by (intro exI conjI) (rule a, rule b)
    moreover have "(r, world s') = (case executescript E (world s) db script of
           None \<Rightarrow> (Inl fatal, world s) | Some w' \<Rightarrow> (Inr (), w'))"
      using l(1) t(1) by (auto split: option.splits)
    ultimately show ?thesis using t(4) by (simp add: SchemaImporter_importSchema_def)
  qed
qed

lemma sqlite_db_has_tables_world:
  assumes "sqlite_db_has_tables E p s = (r, s')"
  shows "(r, world s') = StorageReadinessCheck_hasTables E p (world s)"
  using assms
  by (auto simp: sqlite_db_has_tables_def StorageReadinessCheck_hasTables_def prim_defs
       split: option.splits)

lemma set_drop_tables_world:
  assumes "set_drop_tables E p s = (r, s')"
  shows "(r, world s') = StorageReadinessCheck_hasTables E p (world s)"
  using assms
  by (auto simp: set_drop_tables_def sqlite_db_has_tables_def StorageReadinessCheck_hasTables_def
       prim_defs split: option.splits if_splits)

lemma verify_autocommit_world:
  assumes "verify_autocommit E gs db s = (r, s')"
  shows "world s' = world s \<and>
     r = (if isolation_level E (world s) db = None \<and> flags gs ''fail_on_warnings'' = None
          then Inl (KeyError ''fail_on_warnings'') else Inr ())"
  using assms
  by (auto simp: verify_autocommit_def prim_defs split: option.splits if_splits)

lemma cleanup_world:
  assumes "cleanup E db s = (r, s')"
  shows "(r, world s') =
     (case commit E (world s) db of None \<Rightarrow> (Inl SqliteError, world s) | Some w \<Rightarrow> (Inr (), w))"
  using assms
  by (auto simp: cleanup_def prim_defs split: option.splits)

lemma mirror_tables_world:
  assumes "mirror_tables E gs qs db s = (r, s')"
  shows "(r, world s') = MirrorRun_mirror E gs db (queries qs) (world s)"
  using assms unfolding mirror_tables_def
proof (cases rule: bindM_cases)
  case (raised e)
  from verify_autocommit_world [OF raised(1)] raised(2) show ?thesis
    by (auto simp: MirrorRun_mirror_def split: if_splits)
next
  case (returned a sa)
  from verify_autocommit_world [OF returned(1)] have sa: "world sa = world s"
    "\<not> (isolation_level E (world s) db = None \<and> flags gs ''fail_on_warnings'' = None)"
    by (auto split: if_splits)
  from returned(2) show ?thesis
  proof (cases rule: bindM_cases)
    case (raised e)
    then show ?thesis by (simp add: log_def emit_def)
  next
    case (returned b sb)
    from returned(1) have sb: "world sb = world sa" by (auto simp: log_def emit_def)
    from returned(2) show ?thesis
    proof (cases rule: bindM_cases)
      case (raised e)
      from set_drop_tables_world [OF raised(1)] sa(1) sb
      have "StorageReadinessCheck_hasTables E db (world s) = (Inl e, world s')" by simp
      with raised(2) sa(2) show ?thesis by (auto simp: MirrorRun_mirror_def)
    next
      case (returned d sc)
      from set_drop_tables_world [OF returned(1)] sa(1) sb
      have p: "StorageReadinessCheck_hasTables E db (world s) = (Inr d, world sc)" by simp
      from returned(2) show ?thesis
      proof (cases rule: bindM_cases)
        case (raised e)
        then show ?thesis by (simp add: log_def emit_def)
      next
        case (returned e sd)
        from returned(1) have sd: "world sd = world sc" by (auto simp: log_def emit_def)
        from copy_tables_run [OF returned(2)] sd
        have "(r, world s') = MirrorRun_tables E db d (queries qs) (world sc)" by simp
        with p sa(2) show ?thesis by (auto simp: MirrorRun_mirror_def)
      qed
    qed
  qed
qed

lemma import_schema_if_needed_world:
  assumes "import_schema_if_needed E gs qs db is_new missing s = (r, s')"
  shows "(r, world s') = MirrorRun_import E db (queries qs) is_new (\<not> missing) (world s)"
proof (cases "is_new \<or> missing")
  case True
  with assms have "import_sqlite_db_schema E db gs qs
      (s\<lparr>trace := trace s @
         [Log INFO ''%s database file is new or is missing tables; importing schema.'']\<rparr>) = (r, s')"
    by (auto simp: import_schema_if_needed_def bindM_def log_def emit_def)
  from import_run [OF this] True show ?thesis by (auto simp: MirrorRun_import_def)
next
  case False
  with assms show ?thesis
    by (auto simp: import_schema_if_needed_def MirrorRun_import_def log_def emit_def)
qed


lemma prepare_sqlite_db_unfold:
  assumes opened: "open_sqlite_db E gs qs db s = (Inr is_new, s1)"
      and probe: "sqlite_db_has_tables E db s1 = (Inr has_tables, s2)"
  shows "prepare_sqlite_db E gs qs db s =
     import_schema_if_needed E gs qs db is_new (\<not> has_tables)
       (s2\<lparr>trace := trace s2 @
          [Log DEBUG (if has_tables then ''SQLite db file has one more more tables''
                      else ''SQLite db file has no tables'')]\<rparr>)"
  using opened probe
  by (simp add: prepare_sqlite_db_def check_missing_tables_def prim_defs)

lemma prepare_sqlite_db_world:
  assumes opened: "open_sqlite_db E gs qs db s = (Inr is_new, s1)"
      and probe: "sqlite_db_has_tables E db s1 = (Inr has_tables, s2)"
      and prep: "prepare_sqlite_db E gs qs db s = (rp, sp)"
  shows "(rp, world sp) = MirrorRun_import E db (queries qs) is_new has_tables (world s2)"
proof -
  from prep have "import_schema_if_needed E gs qs db is_new (\<not> has_tables)
       (s2\<lparr>trace := trace s2 @
          [Log DEBUG (if has_tables then ''SQLite db file has one more more tables''
                      else ''SQLite db file has no tables'')]\<rparr>) = (rp, sp)"
    by (simp add: prepare_sqlite_db_unfold [OF opened probe])
  from import_schema_if_needed_world [OF this] show ?thesis by simp
qed

lemma mirror_run_world:
  assumes db: "sqlitedb_config gs ''db_file'' = Some db"
      and opened: "open_sqlite_db E gs qs db s = (Inr is_new, s1)"
      and probe: "sqlite_db_has_tables E db s1 = (Inr has_tables, s2)"
      and run: "mirror_run E gs qs s = (r, s')"
  shows "(r, world s') = MirrorRun_run E gs db (queries qs) is_new has_tables (world s2) \<and>
     (Commit \<in> set (added s s') \<longleftrightarrow>
        fst (MirrorRun_before_commit E gs db (queries qs) is_new has_tables (world s2)) = Inr ())"
proof -
  from run have "bindM (prepare_sqlite_db E gs qs db) (\<lambda>_.
     bindM (mirror_tables E gs qs db) (\<lambda>_. cleanup E db)) s = (r, s')"
    by (simp add: mirror_run_unfold [OF db])
  then show ?thesis
  proof (cases rule: bindM_cases)
    case (raised e)
    from onlyD [OF only_prepare raised(1)] obtain t where
      "trace s' = trace s @ t" "list_all prepare_event t" by blast
    then have nc: "Commit \<notin> set (added s s')"
      by (auto simp: list_all_iff prepare_event_def)
    from prepare_sqlite_db_world [OF opened probe raised(1)]
    have "MirrorRun_import E db (queries qs) is_new has_tables (world s2) = (Inl e, world s')"
      by simp
    with nc raised(2) show ?thesis
      by (simp add: MirrorRun_run_def MirrorRun_before_commit_def)
  next
    case (returned a sp)
    from onlyD [OF only_prepare returned(1)] obtain t1 where t1:
      "trace sp = trace s @ t1" "Commit \<notin> set t1"
      by (auto simp: list_all_iff prepare_event_def)
    from prepare_sqlite_db_world [OF opened probe returned(1)]
    have imp: "MirrorRun_import E db (queries qs) is_new has_tables (world s2) = (Inr (), world sp)"
      by simp
    from returned(2) show ?thesis
    proof (cases rule: bindM_cases)
      case (raised e)
      from onlyD [OF only_mirror_tables raised(1)] obtain t2 where
        "trace s' = trace sp @ t2" "Commit \<notin> set t2"
        by (auto simp: list_all_iff loop_event_def)
      with t1 have "added s s' = t1 @ t2" "Commit \<notin> set (t1 @ t2)" by auto
      then have nc: "Commit \<notin> set (added s s')" by simp
      from mirror_tables_world [OF raised(1)]
      have "MirrorRun_mirror E gs db (queries qs) (world sp) = (Inl e, world s')" by simp
      with imp nc raised(2) show ?thesis
        by (simp add: MirrorRun_run_def MirrorRun_before_commit_def)
    next
      case (returned b sm)
      from mirror_tables_world [OF returned(1)]
      have mir: "MirrorRun_mirror E gs db (queries qs) (world sp) = (Inr (), world sm)" by simp
      from onlyD [OF only_mirror_tables returned(1)] obtain t2 where t2:
        "trace sm = trace sp @ t2" by blast
      from cleanup_trace [OF returned(2)] obtain t3 where
        "trace s' = trace sm @ t3" "Commit \<in> set t3"
        by (auto simp: cleanup_events_def)
      with t1 t2 have "added s s' = t1 @ t2 @ t3" "Commit \<in> set t3" by auto
      then have c: "Commit \<in> set (added s s')" by simp
      from cleanup_world [OF returned(2)] imp mir c show ?thesis
        by (simp add: MirrorRun_run_def MirrorRun_before_commit_def)
    qed
  qed
qed


lemmas spec_defs = fatal_def SchemaImporter_importSchema_def StorageReadinessCheck_hasTables_def
  TableMirror_recreate_def TableMirror_read_def TableMirror_mirrorTable_def
  TableMirror_fetched_def MirrorRun_import_def MirrorRun_mirror_def
  MirrorRun_before_commit_def MirrorRun_run_def

lemmas journal_defs = journal_engine_def ref_engine_def start_def empty_db_world_def
  users_entry_def users_catalog_def sample_settings_def rejecting_world_def


lemma load_sections_find:
  "load_sections parser secs acc s =
     (case find (\<lambda>section. isl (parser_items parser section)) secs of
        None \<Rightarrow>
          (Inr (fold (\<lambda>section. AList.update section (dict (projr (parser_items parser section))))
                  secs acc), s)
      | Some section \<Rightarrow>
          (Inl (projl (parser_items parser section)),
           s\<lparr>trace := trace s @
              (case projl (parser_items parser section) of
                 NoSectionError name \<Rightarrow>
                   [Log ERROR ''Unable to parse '%s' section of config file: %s'']
               | _ \<Rightarrow> [])\<rparr>))"
proof (induction secs arbitrary: acc)
  case Nil
  then show ?case by simp
next
  case (Cons sec secs)
  show ?case
  proof (cases "parser_items parser sec")
    case (Inl e)
    then show ?thesis by (cases e) (simp_all add: prim_defs)
  next
    case (Inr pairs)
    with Cons.IH show ?thesis by (simp split: option.splits)
  qed
qed

lemma fold_update_distinct:
  "distinct (map fst acc @ secs) \<Longrightarrow>
     fold (\<lambda>section. AList.update section (f section)) secs acc =
       acc @ map (\<lambda>section. (section, f section)) secs"
proof (induction secs arbitrary: acc)
  case Nil
  then show ?case by simp
next
  case (Cons sec secs)
  from Cons.prems have fresh: "sec \<notin> fst ` set acc" by auto
  have "distinct (map fst (acc @ [(sec, f sec)]) @ secs)" using Cons.prems by auto
  from Cons.IH [OF this] fresh show ?case by (simp add: update_fresh)
qed

lemma filter_is_script_none: "list_all (\<lambda>ev. \<not> is_script ev) t \<Longrightarrow> filter is_script t = []"
  by (induction t) auto


lemmas journal_run_defs = script_defs prim_defs journal_defs populated_db_world_def


lemma length_MirrorRun_fetched:
  "length (MirrorRun_fetched E db d entries w) = length entries"
  by (induction entries arbitrary: w) auto



section \<open>The claims\<close>





text \<open>
  C2. Take a run that got as far as opening the destination and asking
  \<^verbatim>\<open>sqlite_db_has_tables\<close> for the first time. \<^verbatim>\<open>SQLITE_DB_IS_NEW\<close> is the negation of
  the file's existence at the start of the run. The lines up to the import end as step 2
  of section 4.5 ends and leave the world it leaves: if the probe found no table (or the
  file is new), the schema script built from the catalog has been handed to the
  destination's \<^verbatim>\<open>executescript\<close>, once, in the world the probe left; if the file existed
  and the probe found a table, nothing has been handed to it. In the whole run
  \<^verbatim>\<open>executescript\<close> is called with that script and with nothing else, or not at all; the
  run ends as \<^verbatim>\<open>MirrorRun.run\<close> ends and leaves the world it leaves, where the import comes
  before the first table. In the first case \<^verbatim>\<open>import_sqlite_db_schema\<close> is entered exactly
  once, and nothing before that point is a row write or a script; in the second it is
  never entered.
\<close>

theorem schema_import_gating:
  assumes db: "sqlitedb_config gs ''db_file'' = Some db"
      and opened: "open_sqlite_db E gs qs db s = (Inr is_new, s1)"
      and probe: "sqlite_db_has_tables E db s1 = (Inr has_tables, s2)"
      and run: "mirror_run E gs qs s = (r, s')"
  shows "is_new = (\<not> os_path_exists E (world s) db)
     \<and> apsnd world (prepare_sqlite_db E gs qs db s) =
         MirrorRun_import E db (queries qs) is_new has_tables (world s2)
     \<and> (r, world s') = MirrorRun_run E gs db (queries qs) is_new has_tables (world s2)
     \<and> filter is_script (added s s') =
         (if is_new \<or> \<not> has_tables
          then (case schema_script (queries qs) of
                  Inl e \<Rightarrow> []
                | Inr script \<Rightarrow> [ExecuteScript script])
          else [])
     \<and> (is_new \<or> \<not> has_tables \<longrightarrow>
          (\<exists>pre post. added s s' = pre @ [import_called] @ post \<and>
             (\<forall>ev\<in>set pre. ev \<noteq> import_called \<and> \<not> is_row_write ev \<and> \<not> is_script ev) \<and>
             import_called \<notin> set post))
     \<and> (\<not> is_new \<and> has_tables \<longrightarrow>
          import_called \<notin> set (added s s') \<and> (\<forall>sql. ExecuteScript sql \<notin> set (added s s')))"
proof -
  let ?R = "\<lambda>u::unit. bindM (mirror_tables E gs qs db) (\<lambda>_. cleanup E db)"
  let ?Q = "\<lambda>ev. ev \<noteq> import_called \<and> \<not> is_script ev"
  let ?script = "case schema_script (queries qs) of
                  Inl e \<Rightarrow> []
                | Inr script \<Rightarrow> [ExecuteScript script]"
  have R: "only ?Q (?R u)" for u
    by (auto intro!: only_intros only_weaken [OF only_mirror_tables] only_weaken [OF only_cleanup]
          simp: ev_defs3)
  from onlyD [OF only_open opened] obtain t1 where t1:
    "trace s1 = trace s @ t1" "list_all setup_event t1" by blast
  have "only setup_event (sqlite_db_has_tables E db)"
    by (rule only_sqlite_db_has_tables) (simp_all add: ev_defs3)
  from onlyD [OF this probe] obtain t2 where t2:
    "trace s2 = trace s1 @ t2" "list_all setup_event t2" by blast
  define msg where "msg = (if has_tables then ''SQLite db file has one more more tables''
     else ''SQLite db file has no tables'')"
  define s3 where "s3 = s2\<lparr>trace := trace s2 @ [Log DEBUG msg]\<rparr>"
  have cm: "check_missing_tables E db s1 = (Inr (\<not> has_tables), s3)"
    using probe by (simp add: check_missing_tables_def prim_defs s3_def msg_def)
  have s3: "trace s3 = trace s @ (t1 @ t2 @ [Log DEBUG msg])"
    using t1 t2 by (simp add: s3_def)
  have pre3: "list_all setup_event (t1 @ t2 @ [Log DEBUG msg])"
    using t1 t2 by (simp add: msg_def ev_defs3)
  have whole: "bindM (import_schema_if_needed E gs qs db is_new (\<not> has_tables)) ?R s3 = (r, s')"
    using run opened cm
    by (simp add: mirror_run_unfold [OF db] prepare_sqlite_db_def bindM_def)
  have new: "is_new = (\<not> os_path_exists E (world s) db)"
    using opened by (rule open_sqlite_db_is_new)
  obtain rp sp where prep: "prepare_sqlite_db E gs qs db s = (rp, sp)"
    by (cases "prepare_sqlite_db E gs qs db s")
  from prepare_sqlite_db_world [OF opened probe prep] prep
  have gate: "apsnd world (prepare_sqlite_db E gs qs db s) =
         MirrorRun_import E db (queries qs) is_new has_tables (world s2)"
    by simp
  from mirror_run_world [OF db opened probe run]
  have world: "(r, world s') = MirrorRun_run E gs db (queries qs) is_new has_tables (world s2)"
    by simp
  have imp: "filter is_script (added s s') = ?script \<and>
          (\<exists>pre post. added s s' = pre @ [import_called] @ post \<and>
             (\<forall>ev\<in>set pre. ev \<noteq> import_called \<and> \<not> is_row_write ev \<and> \<not> is_script ev) \<and>
             import_called \<notin> set post)" if need: "is_new \<or> \<not> has_tables"
  proof -
    let ?l = "Log INFO ''%s database file is new or is missing tables; importing schema.''"
    define s4 where "s4 = s3\<lparr>trace := trace s3 @ [?l]\<rparr>"
    define pre where "pre = t1 @ t2 @ [Log DEBUG msg, ?l]"
    have s4: "trace s4 = trace s @ pre" using s3 by (simp add: s4_def pre_def)
    have pre: "\<forall>ev\<in>set pre. ev \<noteq> import_called \<and> \<not> is_row_write ev \<and> \<not> is_script ev"
      using pre3 by (auto simp: pre_def list_all_iff ev_defs3)
    then have fpre: "filter is_script pre = []"
      by (intro filter_is_script_none) (simp add: list_all_iff)
    have nic: "\<not> is_script import_called" by (simp add: ev_defs)
    from whole need have "bindM (import_sqlite_db_schema E db gs qs) ?R s4 = (r, s')"
      by (simp add: import_schema_if_needed_def bindM_def log_def emit_def s4_def)
    then show ?thesis
    proof (cases rule: bindM_cases)
      case (raised e)
      from import_trace [OF raised(1)] obtain t where t:
        "trace s' = trace s4 @ import_called # t" "list_all import_event t" by blast
      from import_run [OF raised(1)] obtain t' where t':
        "trace s' = trace s4 @ import_called # t'" "filter is_script t' = ?script" by blast
      from t(1) t'(1) have "t' = t" by simp
      with t' have ft: "filter is_script t = ?script" by simp
      from s4 t have a: "added s s' = pre @ [import_called] @ t" by simp
      have n: "import_called \<notin> set t" using t(2) by (auto simp: list_all_iff ev_defs3)
      have f: "filter is_script (added s s') = ?script"
        unfolding a using fpre nic ft by simp
      have "\<exists>pre post. added s s' = pre @ [import_called] @ post \<and>
             (\<forall>ev\<in>set pre. ev \<noteq> import_called \<and> \<not> is_row_write ev \<and> \<not> is_script ev) \<and>
             import_called \<notin> set post"
        by (intro exI conjI) (rule a, rule pre, rule n)
      with f show ?thesis by (rule conjI)
    next
      case (returned a s5)
      from import_trace [OF returned(1)] obtain t where t:
        "trace s5 = trace s4 @ import_called # t" "list_all import_event t" by blast
      from import_run [OF returned(1)] obtain t' where t':
        "trace s5 = trace s4 @ import_called # t'" "filter is_script t' = ?script" by blast
      from t(1) t'(1) have "t' = t" by simp
      with t' have ft: "filter is_script t = ?script" by simp
      from onlyD [OF R returned(2)] obtain u where u:
        "trace s' = trace s5 @ u" "list_all ?Q u" by blast
      have fu: "filter is_script u = []"
        using u(2) by (intro filter_is_script_none) (simp add: list_all_iff)
      from s4 t u have a: "added s s' = pre @ [import_called] @ (t @ u)" by simp
      have n: "import_called \<notin> set (t @ u)"
        using t(2) u(2) by (auto simp: list_all_iff ev_defs3)
      have f: "filter is_script (added s s') = ?script"
        unfolding a using fpre nic ft fu by simp
      have "\<exists>pre post. added s s' = pre @ [import_called] @ post \<and>
             (\<forall>ev\<in>set pre. ev \<noteq> import_called \<and> \<not> is_row_write ev \<and> \<not> is_script ev) \<and>
             import_called \<notin> set post"
        by (intro exI conjI) (rule a, rule pre, rule n)
      with f show ?thesis by (rule conjI)
    qed
  qed
  have skip: "filter is_script (added s s') = [] \<and>
      import_called \<notin> set (added s s') \<and> (\<forall>sql. ExecuteScript sql \<notin> set (added s s'))"
    if no: "\<not> is_new \<and> has_tables"
  proof -
    let ?l = "Log INFO ''%s database file exists and has tables; skipping schema import''"
    define s4 where "s4 = s3\<lparr>trace := trace s3 @ [?l]\<rparr>"
    from whole no have "?R () s4 = (r, s')"
      by (simp add: import_schema_if_needed_def bindM_def log_def emit_def s4_def)
    from onlyD [OF R this] obtain u where u: "trace s' = trace s4 @ u" "list_all ?Q u" by blast
    with s3 have "added s s' = t1 @ t2 @ [Log DEBUG msg, ?l] @ u"
      by (simp add: s4_def)
    with pre3 u(2) have all: "\<forall>ev\<in>set (added s s'). ev \<noteq> import_called \<and> \<not> is_script ev"
      by (auto simp: list_all_iff ev_defs3 msg_def)
    then have f: "filter is_script (added s s') = []"
      by (intro filter_is_script_none) (simp add: list_all_iff)
    have "ExecuteScript sql \<notin> set (added s s')" for sql
      using all by (force simp: is_script_def)
    with all f show ?thesis by blast
  qed
  have f: "filter is_script (added s s') =
         (if is_new \<or> \<not> has_tables then ?script else [])"
    using imp skip by (cases "is_new \<or> \<not> has_tables") auto
  have i: "is_new \<or> \<not> has_tables \<longrightarrow>
          (\<exists>pre post. added s s' = pre @ [import_called] @ post \<and>
             (\<forall>ev\<in>set pre. ev \<noteq> import_called \<and> \<not> is_row_write ev \<and> \<not> is_script ev) \<and>
             import_called \<notin> set post)"
    using imp by simp
  have k: "\<not> is_new \<and> has_tables \<longrightarrow>
          import_called \<notin> set (added s s') \<and> (\<forall>sql. ExecuteScript sql \<notin> set (added s s'))"
    using skip by simp
  show ?thesis by (intro conjI) (rule new, rule gate, rule world, rule f, rule i, rule k)
qed

theorem schema_import_gating_witness:
  "os_path_exists journal_engine (empty_db_world, []) ''/var/cache/m2s/mail.db''
   \<and> apsnd world (prepare_sqlite_db journal_engine sample_settings users_catalog
        ''/var/cache/m2s/mail.db'' (start (empty_db_world, []))) =
       (Inr (), empty_db_world\<lparr>rw_dbs := [(''/var/cache/m2s/mail.db'', 1)]\<rparr>,
        [(''\<newline>CREATE TABLE users(id INT, name TEXT);\<newline>'', [])])
   \<and> snd (world (snd (mirror_run journal_engine sample_settings users_catalog
        (start (empty_db_world, []))))) =
       [(''\<newline>CREATE TABLE users(id INT, name TEXT);\<newline>'', []),
        (''DROP TABLE IF EXISTS users'', []),
        (''CREATE TABLE users(id INT, name TEXT)'', []),
        (''INSERT INTO users VALUES (?,?)'', [''1'', ''Alice'']),
        (''INSERT INTO users VALUES (?,?)'', [''2'', ''Bob'']),
        (''COMMIT'', [])]
   \<and> filter is_script (added (start (empty_db_world, []))
        (snd (mirror_run journal_engine sample_settings users_catalog
           (start (empty_db_world, []))))) =
       [ExecuteScript ''\<newline>CREATE TABLE users(id INT, name TEXT);\<newline>'']
   \<and> snd (world (snd (mirror_run journal_engine sample_settings users_catalog
        (start (populated_db_world, []))))) =
       [(''DROP TABLE IF EXISTS users'', []),
        (''CREATE TABLE users(id INT, name TEXT)'', []),
        (''INSERT INTO users VALUES (?,?)'', [''1'', ''Alice'']),
        (''INSERT INTO users VALUES (?,?)'', [''2'', ''Bob'']),
        (''COMMIT'', [])]
   \<and> import_called \<notin> set (added (start (populated_db_world, []))
        (snd (mirror_run journal_engine sample_settings users_catalog
           (start (populated_db_world, [])))))"
proof -
  let ?db = "''/var/cache/m2s/mail.db''"
  let ?s = "start (empty_db_world, []) :: (string ref_world \<times> string journal, string) state"
  let ?p = "start (populated_db_world, []) :: (string ref_world \<times> string journal, string) state"
  let ?run = "mirror_run journal_engine sample_settings users_catalog"
  let ?open = "open_sqlite_db journal_engine sample_settings users_catalog ?db"
  let ?probe = "sqlite_db_has_tables journal_engine ?db"
  have db: "sqlitedb_config sample_settings ''db_file'' = Some ?db"
    by (simp add: sample_settings_def)
  have o1: "?open ?s = (Inr False, snd (?open ?s))"
    by (simp add: journal_run_defs)
  have p1: "?probe (snd (?open ?s)) = (Inr False, snd (?probe (snd (?open ?s))))"
    by (simp add: journal_run_defs)
  have w1: "world (snd (?probe (snd (?open ?s)))) = (empty_db_world, [])"
    by (simp add: journal_run_defs)
  have r1: "?run ?s = (fst (?run ?s), snd (?run ?s))" by simp
  have o2: "?open ?p = (Inr False, snd (?open ?p))"
    by (simp add: journal_run_defs)
  have p2: "?probe (snd (?open ?p)) = (Inr True, snd (?probe (snd (?open ?p))))"
    by (simp add: journal_run_defs)
  have w2: "world (snd (?probe (snd (?open ?p)))) = (populated_db_world, [])"
    by (simp add: journal_run_defs)
  have r2: "?run ?p = (fst (?run ?p), snd (?run ?p))" by simp
  have i1: "MirrorRun_import journal_engine ?db (queries users_catalog) False False
        (empty_db_world, []) =
       (Inr (), empty_db_world\<lparr>rw_dbs := [(?db, 1)]\<rparr>,
        [(''\<newline>CREATE TABLE users(id INT, name TEXT);\<newline>'', [])])"
    by (simp add: spec_defs journal_defs)
  have m1: "snd (snd (MirrorRun_run journal_engine sample_settings ?db (queries users_catalog)
        False False (empty_db_world, []))) =
       [(''\<newline>CREATE TABLE users(id INT, name TEXT);\<newline>'', []),
        (''DROP TABLE IF EXISTS users'', []),
        (''CREATE TABLE users(id INT, name TEXT)'', []),
        (''INSERT INTO users VALUES (?,?)'', [''1'', ''Alice'']),
        (''INSERT INTO users VALUES (?,?)'', [''2'', ''Bob'']),
        (''COMMIT'', [])]"
    by (simp add: spec_defs journal_defs)
  have m2: "snd (snd (MirrorRun_run journal_engine sample_settings ?db (queries users_catalog)
        False True (populated_db_world, []))) =
       [(''DROP TABLE IF EXISTS users'', []),
        (''CREATE TABLE users(id INT, name TEXT)'', []),
        (''INSERT INTO users VALUES (?,?)'', [''1'', ''Alice'']),
        (''INSERT INTO users VALUES (?,?)'', [''2'', ''Bob'']),
        (''COMMIT'', [])]"
    by (simp add: spec_defs journal_defs populated_db_world_def)
  have sc: "schema_script (queries users_catalog) =
      Inr ''\<newline>CREATE TABLE users(id INT, name TEXT);\<newline>''"
    by (simp add: users_catalog_def users_entry_def)
  note g1 = schema_import_gating [OF db o1 p1 r1, unfolded w1]
  note g2 = schema_import_gating [OF db o2 p2 r2, unfolded w2]
  from g1 have a: "os_path_exists journal_engine (empty_db_world, []) ?db"
    by (simp add: start_def)
  from g1 i1 have b: "apsnd world (prepare_sqlite_db journal_engine sample_settings users_catalog
        ?db ?s) =
       (Inr (), empty_db_world\<lparr>rw_dbs := [(?db, 1)]\<rparr>,
        [(''\<newline>CREATE TABLE users(id INT, name TEXT);\<newline>'', [])])"
    by simp
  from g1 have "(fst (?run ?s), world (snd (?run ?s))) =
      MirrorRun_run journal_engine sample_settings ?db (queries users_catalog)
        False False (empty_db_world, [])" by simp
  then have "world (snd (?run ?s)) =
      snd (MirrorRun_run journal_engine sample_settings ?db (queries users_catalog)
        False False (empty_db_world, []))" by (metis snd_conv)
  with m1 have c: "snd (world (snd (?run ?s))) =
       [(''\<newline>CREATE TABLE users(id INT, name TEXT);\<newline>'', []),
        (''DROP TABLE IF EXISTS users'', []),
        (''CREATE TABLE users(id INT, name TEXT)'', []),
        (''INSERT INTO users VALUES (?,?)'', [''1'', ''Alice'']),
        (''INSERT INTO users VALUES (?,?)'', [''2'', ''Bob'']),
        (''COMMIT'', [])]" by simp
  from g1 sc have d: "filter is_script (added ?s (snd (?run ?s))) =
       [ExecuteScript ''\<newline>CREATE TABLE users(id INT, name TEXT);\<newline>'']"
    by simp
  from g2 have "(fst (?run ?p), world (snd (?run ?p))) =
      MirrorRun_run journal_engine sample_settings ?db (queries users_catalog)
        False True (populated_db_world, [])" by simp
  then have "world (snd (?run ?p)) =
      snd (MirrorRun_run journal_engine sample_settings ?db (queries users_catalog)
        False True (populated_db_world, []))" by (metis snd_conv)
  with m2 have e: "snd (world (snd (?run ?p))) =
       [(''DROP TABLE IF EXISTS users'', []),
        (''CREATE TABLE users(id INT, name TEXT)'', []),
        (''INSERT INTO users VALUES (?,?)'', [''1'', ''Alice'']),
        (''INSERT INTO users VALUES (?,?)'', [''2'', ''Bob'']),
        (''COMMIT'', [])]" by simp
  from g2 have f: "import_called \<notin> set (added ?p (snd (?run ?p)))" by simp
  show ?thesis by (intro conjI) (rule a, rule b, rule c, rule d, rule e, rule f)
qed

text \<open>
  C3, as the code has it. Take a run that imports the schema (the file is new or the
  first probe found no table), whose import succeeds, and that reaches the second call of
  \<^verbatim>\<open>sqlite_db_has_tables\<close>. The schema script has been handed to the destination in the
  world the first probe left. \<^verbatim>\<open>DROP_TABLES\<close> is the answer of the probe in the world the
  import left: whether a fresh connection counts at least one table there, which the
  import alone does not decide. It is logged and then used unchanged for the whole table
  loop: the loop ends as the pass over the catalog of section 4.5 ends with that flag and
  leaves the world it leaves, and after a pass that returns the commit follows. The calls
  of the loop follow the per-table order of section 4.4 with that flag, for the result
  sets the source hands over: with the flag set, every table is dropped and created again
  (and indexed, when it has an index statement) between its read query and its
  \<^verbatim>\<open>fetchall\<close>, so before any of its rows is written. What follows the loop is the
  cleanup and writes no row.
\<close>

theorem drop_flag_is_second_probe:
  assumes db: "sqlitedb_config gs ''db_file'' = Some db"
      and opened: "open_sqlite_db E gs qs db s = (Inr is_new, s0)"
      and first: "sqlite_db_has_tables E db s0 = (Inr had_tables, s0')"
      and due: "is_new \<or> \<not> had_tables"
      and prep: "prepare_sqlite_db E gs qs db s = (Inr (), s1)"
      and auto: "verify_autocommit E gs db s1 = (Inr (), s2)"
      and probe: "sqlite_db_has_tables E db
                    (s2\<lparr>trace := trace s2 @ [Log INFO ''Continuing with db prep work ...'']\<rparr>)
                  = (Inr has_tables, s3)"
      and run: "mirror_run E gs qs s = (r, s')"
  shows "SchemaImporter_importSchema E db (queries qs) (world s0') = (Inr (), world s1)
     \<and> StorageReadinessCheck_hasTables E db (world s1) = (Inr has_tables, world s3)
     \<and> (r, world s') =
         (case MirrorRun_tables E db has_tables (queries qs) (world s3) of
            (Inl e, w) \<Rightarrow> (Inl e, w)
          | (Inr u, w) \<Rightarrow>
              (case commit E w db of
                 None \<Rightarrow> (Inl SqliteError, w)
               | Some w' \<Rightarrow> (Inr (), w')))
     \<and> length (MirrorRun_fetched E db has_tables (queries qs) (world s3)) = length (queries qs)
     \<and> (\<exists>loop rest.
          added s3 s' =
            [Log DEBUG (if has_tables then ''Tables were found. Setting flag to drop tables.''
                        else ''Tables were not found. Setting flag to skip dropping tables.''),
             Log DEBUG ''MySQL tables to replicate: %s''] @ loop @ rest \<and>
          prefix (actions loop)
            (spec_loop_actions has_tables (queries qs)
               (MirrorRun_fetched E db has_tables (queries qs) (world s3))) \<and>
          list_all cleanup_event rest \<and>
          (r = Inr () \<longrightarrow>
             None \<notin> set (MirrorRun_fetched E db has_tables (queries qs) (world s3)) \<and>
             actions loop =
               spec_loop_actions has_tables (queries qs)
                 (MirrorRun_fetched E db has_tables (queries qs) (world s3))))"
proof -
  let ?m = "Log DEBUG (if has_tables then ''Tables were found. Setting flag to drop tables.''
                    else ''Tables were not found. Setting flag to skip dropping tables.'')"
  let ?n = "Log DEBUG ''MySQL tables to replicate: %s''"
  let ?fs = "MirrorRun_fetched E db has_tables (queries qs) (world s3)"
  define s4 where "s4 = s3\<lparr>trace := trace s3 @ [?m, ?n]\<rparr>"
  have s4: "trace s4 = trace s3 @ [?m, ?n]" "world s4 = world s3" by (simp_all add: s4_def)
  from prepare_sqlite_db_world [OF opened first prep] due
  have imported: "SchemaImporter_importSchema E db (queries qs) (world s0') = (Inr (), world s1)"
    by (auto simp: MirrorRun_import_def)
  from verify_autocommit_world [OF auto] have "world s2 = world s1" by simp
  with sqlite_db_has_tables_world [OF probe]
  have flag: "StorageReadinessCheck_hasTables E db (world s1) = (Inr has_tables, world s3)"
    by simp
  have len: "length ?fs = length (queries qs)" by (rule length_MirrorRun_fetched)
  have mt: "mirror_tables E gs qs db s1 = copy_tables E db has_tables (queries qs) s4"
    using auto probe
    by (simp add: mirror_tables_def set_drop_tables_def bindM_def log_def emit_def returnM_def
          s4_def)
  from run prep have "bindM (mirror_tables E gs qs db) (\<lambda>_. cleanup E db) s1 = (r, s')"
    by (simp add: mirror_run_unfold [OF db] bindM_def)
  then show ?thesis
  proof (cases rule: bindM_cases)
    case (raised e)
    with mt have "copy_tables E db has_tables (queries qs) s4 = (Inl e, s')" by simp
    from copy_tables_run [OF this] s4(2) obtain t where
      w: "(Inl e, world s') = MirrorRun_tables E db has_tables (queries qs) (world s3)" and
      t: "trace s' = trace s4 @ t"
         "prefix (actions t) (spec_loop_actions has_tables (queries qs) ?fs)"
      by auto
    have wr: "(r, world s') =
         (case MirrorRun_tables E db has_tables (queries qs) (world s3) of
            (Inl e, w) \<Rightarrow> (Inl e, w)
          | (Inr u, w) \<Rightarrow>
              (case commit E w db of
                 None \<Rightarrow> (Inl SqliteError, w)
               | Some w' \<Rightarrow> (Inr (), w')))"
      using w [symmetric] raised(2) by simp
    have a: "added s3 s' = [?m, ?n] @ t @ []" using t(1) s4(1) by simp
    have c: "list_all cleanup_event ([] :: 'b event list)" by simp
    have d: "r = Inr () \<longrightarrow> None \<notin> set ?fs \<and>
         actions t = spec_loop_actions has_tables (queries qs) ?fs"
      using raised(2) by simp
    have "\<exists>loop rest.
          added s3 s' = [?m, ?n] @ loop @ rest \<and>
          prefix (actions loop) (spec_loop_actions has_tables (queries qs) ?fs) \<and>
          list_all cleanup_event rest \<and>
          (r = Inr () \<longrightarrow> None \<notin> set ?fs \<and>
             actions loop = spec_loop_actions has_tables (queries qs) ?fs)"
      by (intro exI conjI) (rule a, rule t(2), rule c, rule d)
    with imported flag wr len show ?thesis by (intro conjI)
  next
    case (returned u s5)
    with mt have "copy_tables E db has_tables (queries qs) s4 = (Inr (), s5)" by simp
    from copy_tables_run [OF this] s4(2) obtain t where
      w: "(Inr (), world s5) = MirrorRun_tables E db has_tables (queries qs) (world s3)" and
      t: "trace s5 = trace s4 @ t" "None \<notin> set ?fs"
         "actions t = spec_loop_actions has_tables (queries qs) ?fs"
      by auto
    from onlyD [OF only_cleanup returned(2)] obtain rest where rest:
      "trace s' = trace s5 @ rest" "list_all cleanup_event rest" by blast
    have wr: "(r, world s') =
         (case MirrorRun_tables E db has_tables (queries qs) (world s3) of
            (Inl e, w) \<Rightarrow> (Inl e, w)
          | (Inr u, w) \<Rightarrow>
              (case commit E w db of
                 None \<Rightarrow> (Inl SqliteError, w)
               | Some w' \<Rightarrow> (Inr (), w')))"
      using w [symmetric] cleanup_world [OF returned(2)] by simp
    have a: "added s3 s' = [?m, ?n] @ t @ rest" using t(1) s4(1) rest(1) by simp
    have p: "prefix (actions t) (spec_loop_actions has_tables (queries qs) ?fs)"
      using t(3) by simp
    have d: "r = Inr () \<longrightarrow> None \<notin> set ?fs \<and>
         actions t = spec_loop_actions has_tables (queries qs) ?fs"
      using t(2,3) by simp
    have "\<exists>loop rest.
          added s3 s' = [?m, ?n] @ loop @ rest \<and>
          prefix (actions loop) (spec_loop_actions has_tables (queries qs) ?fs) \<and>
          list_all cleanup_event rest \<and>
          (r = Inr () \<longrightarrow> None \<notin> set ?fs \<and>
             actions loop = spec_loop_actions has_tables (queries qs) ?fs)"
      by (intro exI conjI) (rule a, rule p, rule rest(2), rule d)
    with imported flag wr len show ?thesis by (intro conjI)
  qed
qed

theorem drop_flag_is_second_probe_witness:
  "SchemaImporter_importSchema journal_engine ''/var/cache/m2s/mail.db''
       (queries users_catalog) (empty_db_world, []) =
     (Inr (), empty_db_world\<lparr>rw_dbs := [(''/var/cache/m2s/mail.db'', 1)]\<rparr>,
      [(''\<newline>CREATE TABLE users(id INT, name TEXT);\<newline>'', [])])
   \<and> StorageReadinessCheck_hasTables journal_engine ''/var/cache/m2s/mail.db''
       (empty_db_world\<lparr>rw_dbs := [(''/var/cache/m2s/mail.db'', 1)]\<rparr>,
        [(''\<newline>CREATE TABLE users(id INT, name TEXT);\<newline>'', [])]) =
     (Inr True, empty_db_world\<lparr>rw_dbs := [(''/var/cache/m2s/mail.db'', 1)]\<rparr>,
      [(''\<newline>CREATE TABLE users(id INT, name TEXT);\<newline>'', [])])
   \<and> fst (mirror_run journal_engine sample_settings users_catalog
        (start (empty_db_world, []))) = Inr ()
   \<and> snd (world (snd (mirror_run journal_engine sample_settings users_catalog
        (start (empty_db_world, []))))) =
       [(''\<newline>CREATE TABLE users(id INT, name TEXT);\<newline>'', []),
        (''DROP TABLE IF EXISTS users'', []),
        (''CREATE TABLE users(id INT, name TEXT)'', []),
        (''INSERT INTO users VALUES (?,?)'', [''1'', ''Alice'']),
        (''INSERT INTO users VALUES (?,?)'', [''2'', ''Bob'']),
        (''COMMIT'', [])]
   \<and> (\<exists>s3 loop rest.
        added s3 (snd (mirror_run journal_engine sample_settings users_catalog
          (start (empty_db_world, [])))) =
          [Log DEBUG ''Tables were found. Setting flag to drop tables.'',
           Log DEBUG ''MySQL tables to replicate: %s''] @ loop @ rest
        \<and> actions loop =
            [SrcExecute ''SELECT id, name FROM users'',
             Execute ''DROP TABLE IF EXISTS users'',
             Execute ''CREATE TABLE users(id INT, name TEXT)'',
             SrcFetchall (Some [[''1'', ''Alice''], [''2'', ''Bob'']]),
             ExecuteParams ''INSERT INTO users VALUES (?,?)'' [''1'', ''Alice''],
             ExecuteParams ''INSERT INTO users VALUES (?,?)'' [''2'', ''Bob'']])"
proof -
  let ?db = "''/var/cache/m2s/mail.db''"
  let ?s = "start (empty_db_world, []) :: (string ref_world \<times> string journal, string) state"
  let ?run = "mirror_run journal_engine sample_settings users_catalog"
  let ?open = "open_sqlite_db journal_engine sample_settings users_catalog ?db"
  let ?probe = "sqlite_db_has_tables journal_engine ?db"
  let ?prep = "prepare_sqlite_db journal_engine sample_settings users_catalog ?db"
  let ?auto = "verify_autocommit journal_engine sample_settings ?db"
  let ?W1 = "(empty_db_world\<lparr>rw_dbs := [(?db, 1)]\<rparr>,
      [(''\<newline>CREATE TABLE users(id INT, name TEXT);\<newline>'', [])])
      :: string ref_world \<times> string journal"
  let ?W3 = "(empty_db_world\<lparr>rw_dbs := [(?db, 1)]\<rparr>,
      [(''\<newline>CREATE TABLE users(id INT, name TEXT);\<newline>'', [])])
      :: string ref_world \<times> string journal"
  define s0 where "s0 = snd (?open ?s)"
  define s0' where "s0' = snd (?probe s0)"
  define s1 where "s1 = snd (?prep ?s)"
  define s2 where "s2 = snd (?auto s1)"
  define s3 where "s3 = snd (?probe
     (s2\<lparr>trace := trace s2 @ [Log INFO ''Continuing with db prep work ...'']\<rparr>))"
  have db: "sqlitedb_config sample_settings ''db_file'' = Some ?db"
    by (simp add: sample_settings_def)
  have o: "?open ?s = (Inr False, s0)"
    by (simp add: s0_def journal_run_defs)
  have p: "?probe s0 = (Inr False, s0')"
    by (simp add: s0'_def s0_def journal_run_defs)
  have due: "False \<or> \<not> False" by simp
  have prep: "?prep ?s = (Inr (), s1)"
    by (simp add: s1_def journal_run_defs)
  have auto: "?auto s1 = (Inr (), s2)"
    by (simp add: s2_def s1_def journal_run_defs)
  have probe: "?probe (s2\<lparr>trace := trace s2 @ [Log INFO ''Continuing with db prep work ...'']\<rparr>)
      = (Inr True, s3)"
    by (simp add: s3_def s2_def s1_def journal_run_defs)
  have run: "?run ?s = (fst (?run ?s), snd (?run ?s))" by simp
  have w0: "world s0' = (empty_db_world, [])"
    by (simp add: s0'_def s0_def journal_run_defs)
  have w1: "world s1 = ?W1"
    by (simp add: s1_def journal_run_defs)
  have w3: "world s3 = ?W3"
    by (simp add: s3_def s2_def s1_def journal_run_defs)
  have tabs: "MirrorRun_tables journal_engine ?db True (queries users_catalog) ?W3 =
      (Inr (), empty_db_world\<lparr>rw_dbs := [(?db, 1)],
                 rw_cursor := Some [[''1'', ''Alice''], [''2'', ''Bob'']]\<rparr>,
       [(''\<newline>CREATE TABLE users(id INT, name TEXT);\<newline>'', []),
        (''DROP TABLE IF EXISTS users'', []),
        (''CREATE TABLE users(id INT, name TEXT)'', []),
        (''INSERT INTO users VALUES (?,?)'', [''1'', ''Alice'']),
        (''INSERT INTO users VALUES (?,?)'', [''2'', ''Bob''])])"
    by (simp add: spec_defs journal_defs)
  have fs: "MirrorRun_fetched journal_engine ?db True (queries users_catalog) ?W3 =
      [Some [[''1'', ''Alice''], [''2'', ''Bob'']]]"
    by (simp add: spec_defs journal_defs)
  note g = drop_flag_is_second_probe [OF db o p due prep auto probe run, unfolded w0 w1 w3]
  from g have a: "SchemaImporter_importSchema journal_engine ?db
       (queries users_catalog) (empty_db_world, []) = (Inr (), ?W1)"
    by simp
  from g have b: "StorageReadinessCheck_hasTables journal_engine ?db ?W1 = (Inr True, ?W3)"
    by simp
  from g have "(fst (?run ?s), world (snd (?run ?s))) =
         (case MirrorRun_tables journal_engine ?db True (queries users_catalog) ?W3 of
            (Inl e, w) \<Rightarrow> (Inl e, w)
          | (Inr u, w) \<Rightarrow>
              (case commit journal_engine w ?db of
                 None \<Rightarrow> (Inl SqliteError, w)
               | Some w' \<Rightarrow> (Inr (), w')))"
    by simp
  then have cd: "(fst (?run ?s), world (snd (?run ?s))) =
       (Inr (), empty_db_world\<lparr>rw_dbs := [(?db, 1)],
                 rw_cursor := Some [[''1'', ''Alice''], [''2'', ''Bob'']]\<rparr>,
       [(''\<newline>CREATE TABLE users(id INT, name TEXT);\<newline>'', []),
        (''DROP TABLE IF EXISTS users'', []),
        (''CREATE TABLE users(id INT, name TEXT)'', []),
        (''INSERT INTO users VALUES (?,?)'', [''1'', ''Alice'']),
        (''INSERT INTO users VALUES (?,?)'', [''2'', ''Bob'']),
        (''COMMIT'', [])])"
    unfolding tabs by (simp add: journal_engine_def ref_engine_def)
  then have c: "fst (?run ?s) = Inr ()" by simp
  from cd have d: "snd (world (snd (?run ?s))) =
       [(''\<newline>CREATE TABLE users(id INT, name TEXT);\<newline>'', []),
        (''DROP TABLE IF EXISTS users'', []),
        (''CREATE TABLE users(id INT, name TEXT)'', []),
        (''INSERT INTO users VALUES (?,?)'', [''1'', ''Alice'']),
        (''INSERT INTO users VALUES (?,?)'', [''2'', ''Bob'']),
        (''COMMIT'', [])]"
    by (simp add: prod_eq_iff)
  from g c obtain loop rest where l:
    "added s3 (snd (?run ?s)) =
          [Log DEBUG ''Tables were found. Setting flag to drop tables.'',
           Log DEBUG ''MySQL tables to replicate: %s''] @ loop @ rest"
    "actions loop = spec_loop_actions True (queries users_catalog)
       (MirrorRun_fetched journal_engine ?db True (queries users_catalog) ?W3)"
    by auto
  from l(2) have l2: "actions loop =
            [SrcExecute ''SELECT id, name FROM users'',
             Execute ''DROP TABLE IF EXISTS users'',
             Execute ''CREATE TABLE users(id INT, name TEXT)'',
             SrcFetchall (Some [[''1'', ''Alice''], [''2'', ''Bob'']]),
             ExecuteParams ''INSERT INTO users VALUES (?,?)'' [''1'', ''Alice''],
             ExecuteParams ''INSERT INTO users VALUES (?,?)'' [''2'', ''Bob'']]"
    unfolding fs by (simp add: users_catalog_def users_entry_def spec_table_actions_def)
  have e: "\<exists>s3 loop rest.
        added s3 (snd (?run ?s)) =
          [Log DEBUG ''Tables were found. Setting flag to drop tables.'',
           Log DEBUG ''MySQL tables to replicate: %s''] @ loop @ rest
        \<and> actions loop =
            [SrcExecute ''SELECT id, name FROM users'',
             Execute ''DROP TABLE IF EXISTS users'',
             Execute ''CREATE TABLE users(id INT, name TEXT)'',
             SrcFetchall (Some [[''1'', ''Alice''], [''2'', ''Bob'']]),
             ExecuteParams ''INSERT INTO users VALUES (?,?)'' [''1'', ''Alice''],
             ExecuteParams ''INSERT INTO users VALUES (?,?)'' [''2'', ''Bob'']]"
    by (intro exI conjI) (rule l(1), rule l2)
  show ?thesis by (intro conjI) (rule a, rule b, rule c, rule d, rule e)
qed


text \<open>
  C3 as stated says the second probe answers true whenever the schema was imported. With
  an empty catalog the imported schema is the empty script, the probe still finds no
  table, and the flag is set to false.
\<close>

theorem empty_catalog_keeps_drop_flag_off_counterexample:
  "fst (mirror_run ref_engine sample_settings \<lparr>queries = []\<rparr> (start empty_db_world)) = Inr ()
   \<and> ExecuteScript [] \<in> set (trace (snd (mirror_run ref_engine sample_settings
        \<lparr>queries = []\<rparr> (start empty_db_world))))
   \<and> Log DEBUG ''Tables were not found. Setting flag to skip dropping tables.''
       \<in> set (trace (snd (mirror_run ref_engine sample_settings
        \<lparr>queries = []\<rparr> (start empty_db_world))))
   \<and> Log DEBUG ''Tables were found. Setting flag to drop tables.''
       \<notin> set (trace (snd (mirror_run ref_engine sample_settings
        \<lparr>queries = []\<rparr> (start empty_db_world))))"
  by (simp add: eval_defs)

text \<open>
  C4. One pass of the table loop body, \<^verbatim>\<open>copy_table\<close>, against \<^verbatim>\<open>mirrorTable\<close> of
  section 4.4. The pass ends as \<^verbatim>\<open>mirrorTable\<close> ends and leaves the two databases as
  \<^verbatim>\<open>mirrorTable\<close> leaves them: the read query has gone to the source; then, exactly when
  \<^verbatim>\<open>DROP_TABLES\<close> is set, \<^verbatim>\<open>DROP TABLE IF EXISTS\<close>, the \<^verbatim>\<open>new\<close> statement and, when the
  entry has one, the \<^verbatim>\<open>index\<close> statement have gone to the destination; then the source
  has handed over its result set; then the \<^verbatim>\<open>write\<close> statement has gone to the
  destination once per row of that result set, in its order, with the row itself as the
  parameters. The calls the pass records are these calls in this order, for the result
  set the source handed over. A pass that returns has made all of them; a pass that stops
  on an error has made a prefix of them.
\<close>

theorem copy_table_order:
  assumes "copy_table E db_file DROP_TABLES (table, q) s = (r, s')"
  shows "(r, world s') = TableMirror_mirrorTable E db_file DROP_TABLES table q (world s)
     \<and> prefix (actions (added s s'))
         (spec_table_actions DROP_TABLES table q
            (TableMirror_fetched E db_file DROP_TABLES table q (world s)))
     \<and> (r = Inr () \<longrightarrow>
          (\<exists>rows. TableMirror_fetched E db_file DROP_TABLES table q (world s) = Some rows \<and>
             (rows \<noteq> [] \<longrightarrow> q ''write'' \<noteq> None)) \<and>
          q ''read'' \<noteq> None \<and> (DROP_TABLES \<longrightarrow> q ''new'' \<noteq> None) \<and>
          actions (added s s') =
            spec_table_actions DROP_TABLES table q
              (TableMirror_fetched E db_file DROP_TABLES table q (world s)))"
proof -
  let ?f = "TableMirror_fetched E db_file DROP_TABLES table q (world s)"
  from copy_table_run [OF assms] obtain t where
    w: "(r, world s') = TableMirror_mirrorTable E db_file DROP_TABLES table q (world s)" and
    t: "trace s' = trace s @ t"
       "prefix (actions t) (spec_table_actions DROP_TABLES table q ?f)"
       "r = Inr () \<longrightarrow>
          (\<exists>rows. ?f = Some rows \<and> (rows \<noteq> [] \<longrightarrow> q ''write'' \<noteq> None)) \<and>
          q ''read'' \<noteq> None \<and> (DROP_TABLES \<longrightarrow> q ''new'' \<noteq> None) \<and>
          actions t = spec_table_actions DROP_TABLES table q ?f"
    by blast
  from t(1) have a: "added s s' = t" by simp
  from w t(2,3) show ?thesis unfolding a by (intro conjI)
qed

theorem copy_table_order_witness:
  "fst (copy_table journal_engine ''/var/cache/m2s/mail.db'' True (''users'', users_entry)
          (start (empty_db_world, []))) = Inr ()
   \<and> snd (world (snd (copy_table journal_engine ''/var/cache/m2s/mail.db'' True
          (''users'', users_entry) (start (empty_db_world, []))))) =
       [(''DROP TABLE IF EXISTS users'', []),
        (''CREATE TABLE users(id INT, name TEXT)'', []),
        (''INSERT INTO users VALUES (?,?)'', [''1'', ''Alice'']),
        (''INSERT INTO users VALUES (?,?)'', [''2'', ''Bob''])]
   \<and> actions (added (start (empty_db_world, []))
        (snd (copy_table journal_engine ''/var/cache/m2s/mail.db'' True (''users'', users_entry)
          (start (empty_db_world, []))))) =
       [SrcExecute ''SELECT id, name FROM users'',
        Execute ''DROP TABLE IF EXISTS users'',
        Execute ''CREATE TABLE users(id INT, name TEXT)'',
        SrcFetchall (Some [[''1'', ''Alice''], [''2'', ''Bob'']]),
        ExecuteParams ''INSERT INTO users VALUES (?,?)'' [''1'', ''Alice''],
        ExecuteParams ''INSERT INTO users VALUES (?,?)'' [''2'', ''Bob'']]"
proof -
  let ?s = "start (empty_db_world, []) :: (string ref_world \<times> string journal, string) state"
  let ?run = "copy_table journal_engine ''/var/cache/m2s/mail.db'' True (''users'', users_entry) ?s"
  have run: "?run = (fst ?run, snd ?run)" by simp
  have w: "TableMirror_mirrorTable journal_engine ''/var/cache/m2s/mail.db'' True ''users''
       users_entry (world ?s) =
     (Inr (), empty_db_world\<lparr>rw_cursor := Some [[''1'', ''Alice''], [''2'', ''Bob'']]\<rparr>,
       [(''DROP TABLE IF EXISTS users'', []),
        (''CREATE TABLE users(id INT, name TEXT)'', []),
        (''INSERT INTO users VALUES (?,?)'', [''1'', ''Alice'']),
        (''INSERT INTO users VALUES (?,?)'', [''2'', ''Bob''])])"
    by (simp add: spec_defs journal_defs)
  have f: "TableMirror_fetched journal_engine ''/var/cache/m2s/mail.db'' True ''users''
       users_entry (world ?s) = Some [[''1'', ''Alice''], [''2'', ''Bob'']]"
    by (simp add: spec_defs journal_defs)
  note c = copy_table_order [OF run]
  from c w have r: "fst ?run = Inr ()" and j: "snd (world (snd ?run)) =
       [(''DROP TABLE IF EXISTS users'', []),
        (''CREATE TABLE users(id INT, name TEXT)'', []),
        (''INSERT INTO users VALUES (?,?)'', [''1'', ''Alice'']),
        (''INSERT INTO users VALUES (?,?)'', [''2'', ''Bob''])]"
    by (auto simp: prod_eq_iff)
  from c r have "actions (added ?s (snd ?run)) =
      spec_table_actions True ''users'' users_entry (Some [[''1'', ''Alice''], [''2'', ''Bob'']])"
    unfolding f by simp
  then have a: "actions (added ?s (snd ?run)) =
       [SrcExecute ''SELECT id, name FROM users'',
        Execute ''DROP TABLE IF EXISTS users'',
        Execute ''CREATE TABLE users(id INT, name TEXT)'',
        SrcFetchall (Some [[''1'', ''Alice''], [''2'', ''Bob'']]),
        ExecuteParams ''INSERT INTO users VALUES (?,?)'' [''1'', ''Alice''],
        ExecuteParams ''INSERT INTO users VALUES (?,?)'' [''2'', ''Bob'']]"
    by (simp add: spec_table_actions_def users_entry_def)
  show ?thesis by (intro conjI) (rule r, rule j, rule a)
qed



text \<open>
  C6, as the code has it. \<^verbatim>\<open>QuerySettings.__init__\<close> does not look at the fields of a
  section. Its outcome is decided by the parser alone:
  \<^item> when \<^verbatim>\<open>parser.read\<close> raises, that error leaves the constructor as it is, unlogged;
  \<^item> when \<^verbatim>\<open>parser.read\<close> could read no file, an ERROR record is logged and \<^verbatim>\<open>IOError\<close>
    is raised;
  \<^item> otherwise the sections are taken in order; at the first section for which
    \<^verbatim>\<open>parser.items\<close> raises, that error leaves the constructor: a \<^verbatim>\<open>NoSectionError\<close>
    after an ERROR record, any other error (an interpolation error on a \<^verbatim>\<open>%\<close> in a
    value) without a record;
  \<^item> when \<^verbatim>\<open>parser.items\<close> raises for no section, the constructor returns, having
    stored under every section name whatever items the parser has for it; for distinct
    section names that is the list of the sections in order.

  In no other case does it fail. An entry stored without \<^verbatim>\<open>read\<close>, \<^verbatim>\<open>new\<close> or \<^verbatim>\<open>write\<close>
  raises \<^verbatim>\<open>KeyError\<close> later, where the table loop, the schema import or a row write
  subscripts the missing field.
\<close>

theorem QuerySettings_stores_sections_unchecked:
  "QuerySettings parser config_file_list s =
     (case parser_read parser config_file_list of
        Inl error \<Rightarrow> (Inl error, s)
      | Inr processed_files \<Rightarrow>
          if processed_files = []
          then (Inl OSError, s\<lparr>trace := trace s @
                  [Log ERROR ''Failure to read config files; See provided templates, modify and place in one of the supported locations: %s'']\<rparr>)
          else
            (case find (\<lambda>section. isl (parser_items parser section)) (parser_sections parser) of
               None \<Rightarrow>
                 (Inr \<lparr>queries =
                    fold (\<lambda>section. AList.update section (dict (projr (parser_items parser section))))
                      (parser_sections parser) []\<rparr>,
                  s\<lparr>trace := trace s @ [Log DEBUG ''CONFIG: Config files processed: %s'']\<rparr>)
             | Some section \<Rightarrow>
                 (Inl (projl (parser_items parser section)),
                  s\<lparr>trace := trace s @ Log DEBUG ''CONFIG: Config files processed: %s'' #
                     (case projl (parser_items parser section) of
                        NoSectionError name \<Rightarrow>
                          [Log ERROR ''Unable to parse '%s' section of config file: %s'']
                      | _ \<Rightarrow> [])\<rparr>)))
   \<and> (distinct (parser_sections parser) \<longrightarrow>
        fold (\<lambda>section. AList.update section (dict (projr (parser_items parser section))))
          (parser_sections parser) [] =
        map (\<lambda>section. (section, dict (projr (parser_items parser section))))
          (parser_sections parser))
   \<and> (q ''read'' = None \<longrightarrow>
        fst (copy_table E db_file DROP_TABLES (table, q) s1) = Inl (KeyError ''read''))
   \<and> (q ''new'' = None \<longrightarrow>
        fst (schema_entry q sqlite_db_schema s1) = Inl (KeyError ''new''))
   \<and> (q ''write'' = None \<longrightarrow>
        fst (write_row E db_file q row s1) = Inl (KeyError ''write''))"
proof (intro conjI impI)
  show "QuerySettings parser config_file_list s =
     (case parser_read parser config_file_list of
        Inl error \<Rightarrow> (Inl error, s)
      | Inr processed_files \<Rightarrow>
          if processed_files = []
          then (Inl OSError, s\<lparr>trace := trace s @
                  [Log ERROR ''Failure to read config files; See provided templates, modify and place in one of the supported locations: %s'']\<rparr>)
          else
            (case find (\<lambda>section. isl (parser_items parser section)) (parser_sections parser) of
               None \<Rightarrow>
                 (Inr \<lparr>queries =
                    fold (\<lambda>section. AList.update section (dict (projr (parser_items parser section))))
                      (parser_sections parser) []\<rparr>,
                  s\<lparr>trace := trace s @ [Log DEBUG ''CONFIG: Config files processed: %s'']\<rparr>)
             | Some section \<Rightarrow>
                 (Inl (projl (parser_items parser section)),
                  s\<lparr>trace := trace s @ Log DEBUG ''CONFIG: Config files processed: %s'' #
                     (case projl (parser_items parser section) of
                        NoSectionError name \<Rightarrow>
                          [Log ERROR ''Unable to parse '%s' section of config file: %s'']
                      | _ \<Rightarrow> [])\<rparr>)))"
    by (simp add: QuerySettings_def prim_defs load_sections_find
          split: sum.splits option.splits)
next
  assume "distinct (parser_sections parser)"
  then show "fold (\<lambda>section. AList.update section (dict (projr (parser_items parser section))))
          (parser_sections parser) [] =
        map (\<lambda>section. (section, dict (projr (parser_items parser section))))
          (parser_sections parser)"
    using fold_update_distinct [of "[]" "parser_sections parser"
      "\<lambda>section. dict (projr (parser_items parser section))"] by simp
next
  assume "q ''read'' = None"
  then show "fst (copy_table E db_file DROP_TABLES (table, q) s1) = Inl (KeyError ''read'')"
    by (simp add: copy_table_def getitem_def raiseM_def bindM_def)
next
  assume "q ''new'' = None"
  then show "fst (schema_entry q sqlite_db_schema s1) = Inl (KeyError ''new'')"
    by (simp add: schema_entry_def getitem_def raiseM_def bindM_def)
next
  assume "q ''write'' = None"
  then show "fst (write_row E db_file q row s1) = Inl (KeyError ''write'')"
    by (simp add: write_row_def prim_defs)
qed

theorem QuerySettings_stores_sections_unchecked_witness:
  "fst (QuerySettings index_only_parser [''mysql2sqlite_queries.ini'']
          (start empty_db_world :: (string ref_world, string) state)) =
     Inr \<lparr>queries = [(''users'', dict [(''index'', ''CREATE INDEX users_idx ON users(id)'')])]\<rparr>
   \<and> fst (copy_table ref_engine ''/var/cache/m2s/mail.db'' False
          (''users'', dict [(''index'', ''CREATE INDEX users_idx ON users(id)'')])
          (start empty_db_world)) = Inl (KeyError ''read'')
   \<and> fst (schema_entry (dict [(''index'', ''CREATE INDEX users_idx ON users(id)'')]) []
          (start empty_db_world :: (string ref_world, string) state)) = Inl (KeyError ''new'')
   \<and> fst (write_row ref_engine ''/var/cache/m2s/mail.db''
          (dict [(''index'', ''CREATE INDEX users_idx ON users(id)'')]) []
          (start empty_db_world)) = Inl (KeyError ''write'')
   \<and> QuerySettings percent_parser [''mysql2sqlite_queries.ini'']
          (start empty_db_world :: (string ref_world, string) state) =
       (Inl (ConfigParserError ''InterpolationSyntaxError''),
        \<lparr>world = empty_db_world,
         trace = [Log DEBUG ''CONFIG: Config files processed: %s'']\<rparr>)
   \<and> QuerySettings headerless_parser [''mysql2sqlite_queries.ini'']
          (start empty_db_world :: (string ref_world, string) state) =
       (Inl (ConfigParserError ''MissingSectionHeaderError''), start empty_db_world)"
  using QuerySettings_stores_sections_unchecked
    [where parser = index_only_parser and config_file_list = "[''mysql2sqlite_queries.ini'']"
       and s = "start empty_db_world :: (string ref_world, string) state"
       and q = "dict [(''index'', ''CREATE INDEX users_idx ON users(id)'')]"
       and E = ref_engine and db_file = "''/var/cache/m2s/mail.db''" and DROP_TABLES = False
       and table = "''users''" and ?s1.0 = "start empty_db_world" and sqlite_db_schema = "[]"
       and row = "[]"]
    QuerySettings_stores_sections_unchecked
    [where parser = percent_parser and config_file_list = "[''mysql2sqlite_queries.ini'']"
       and s = "start empty_db_world :: (string ref_world, string) state"
       and q = "dict [(''index'', ''CREATE INDEX users_idx ON users(id)'')]"
       and E = ref_engine and db_file = "''/var/cache/m2s/mail.db''" and DROP_TABLES = False
       and table = "''users''" and ?s1.0 = "start empty_db_world" and sqlite_db_schema = "[]"
       and row = "[]"]
    QuerySettings_stores_sections_unchecked
    [where parser = headerless_parser and config_file_list = "[''mysql2sqlite_queries.ini'']"
       and s = "start empty_db_world :: (string ref_world, string) state"
       and q = "dict [(''index'', ''CREATE INDEX users_idx ON users(id)'')]"
       and E = ref_engine and db_file = "''/var/cache/m2s/mail.db''" and DROP_TABLES = False
       and table = "''users''" and ?s1.0 = "start empty_db_world" and sqlite_db_schema = "[]"
       and row = "[]"]
  by (simp add: index_only_parser_def percent_parser_def headerless_parser_def dict_def
        start_def)

text \<open>
  C6 as stated asks loading to fail when \<^verbatim>\<open>read\<close>, \<^verbatim>\<open>new\<close> or \<^verbatim>\<open>write\<close> is missing. A
  section that has none of the three is loaded without error.
\<close>

theorem QuerySettings_accepts_section_without_required_fields_counterexample:
  "fst (QuerySettings index_only_parser [''mysql2sqlite_queries.ini'']
          (start () :: (unit, unit) state)) =
     Inr \<lparr>queries = [(''users'', dict [(''index'', ''CREATE INDEX users_idx ON users(id)'')])]\<rparr>
   \<and> dict [(''index'', ''CREATE INDEX users_idx ON users(id)'')] ''read'' = None
   \<and> dict [(''index'', ''CREATE INDEX users_idx ON users(id)'')] ''new'' = None
   \<and> dict [(''index'', ''CREATE INDEX users_idx ON users(id)'')] ''write'' = None"
  by (simp add: QuerySettings_def index_only_parser_def prim_defs dict_def)

text \<open>
  C7, as the code has it. \<^verbatim>\<open>sqlite_db_has_tables\<close> opens a connection, runs the count
  query on it and returns whether the count is greater than zero; an error of either
  call leaves the function as it is raised. On no path does the function close the
  connection it opened: its whole trace is the connect, the query and one log record.
\<close>

theorem probe_opens_counts_never_closes:
  assumes "sqlite_db_has_tables E p s = (r, s')"
  shows "(case sqlite3_connect E (world s) p of
            None \<Rightarrow> r = Inl SqliteError \<and> added s s' = [Connect ProbeConn p]
          | Some w \<Rightarrow>
              (case count_tables E w p of
                 None \<Rightarrow> r = Inl SqliteError \<and>
                   added s s' = [Connect ProbeConn p, ProbeExecute count_sql]
               | Some table_count \<Rightarrow> r = Inr (0 < table_count) \<and>
                   added s s' = [Connect ProbeConn p, ProbeExecute count_sql,
                                 Log DEBUG ''Table count: %d '']))
         \<and> Close ProbeConn \<notin> set (added s s')"
  using assms
  by (auto simp: sqlite_db_has_tables_def prim_defs added_def split: option.splits)

theorem probe_opens_counts_never_closes_witness:
  "fst (sqlite_db_has_tables ref_engine ''/var/cache/m2s/mail.db''
          (start (empty_db_world\<lparr>rw_dbs := [(''/var/cache/m2s/mail.db'', 3)]\<rparr>))) = Inr True
   \<and> Close ProbeConn \<notin> set (added (start (empty_db_world\<lparr>rw_dbs := [(''/var/cache/m2s/mail.db'', 3)]\<rparr>))
       (snd (sqlite_db_has_tables ref_engine ''/var/cache/m2s/mail.db''
          (start (empty_db_world\<lparr>rw_dbs := [(''/var/cache/m2s/mail.db'', 3)]\<rparr>)))))"
  using probe_opens_counts_never_closes [of ref_engine "''/var/cache/m2s/mail.db''"
     "start (empty_db_world\<lparr>rw_dbs := [(''/var/cache/m2s/mail.db'', 3)]\<rparr>)"
     "fst (sqlite_db_has_tables ref_engine ''/var/cache/m2s/mail.db''
          (start (empty_db_world\<lparr>rw_dbs := [(''/var/cache/m2s/mail.db'', 3)]\<rparr>)))"
     "snd (sqlite_db_has_tables ref_engine ''/var/cache/m2s/mail.db''
          (start (empty_db_world\<lparr>rw_dbs := [(''/var/cache/m2s/mail.db'', 3)]\<rparr>)))"]
  by (simp add: ref_engine_def start_def empty_db_world_def)

text \<open>
  C7 as stated asks for the connection to be released before the call returns. On a
  database file without tables the call returns \<open>False\<close> and has made no \<^verbatim>\<open>close\<close> call.
\<close>

theorem probe_leaves_connection_open_counterexample:
  "sqlite_db_has_tables ref_engine ''/var/cache/m2s/mail.db'' (start empty_db_world) =
     (Inr False,
      \<lparr>world = empty_db_world,
       trace = [Connect ProbeConn ''/var/cache/m2s/mail.db'', ProbeExecute count_sql,
                Log DEBUG ''Table count: %d '']\<rparr>)
   \<and> Close ProbeConn \<notin> set (trace (snd (sqlite_db_has_tables ref_engine
         ''/var/cache/m2s/mail.db'' (start empty_db_world))))"
  by (simp add: sqlite_db_has_tables_def ref_engine_def start_def empty_db_world_def prim_defs)

text \<open>
  C8. An entry without an \<^verbatim>\<open>index\<close> field. During the schema import it adds its
  \<^verbatim>\<open>new\<close> statement to the schema text and nothing else; in the table loop the only
  statements the cursor executes for it are the drop and the \<^verbatim>\<open>new\<close> statement; and
  no \<^verbatim>\<open>KeyError\<close> for \<^verbatim>\<open>index\<close> is raised.
\<close>

theorem no_index_no_index_statement:
  assumes "q ''index'' = None"
      and "copy_table E db_file DROP_TABLES (table, q) s = (r, s')"
  shows "fst (schema_entry q sqlite_db_schema s0) =
           (case q ''new'' of
              None \<Rightarrow> Inl (KeyError ''new'')
            | Some new \<Rightarrow> Inr (sqlite_db_schema @ ''\<newline>'' @ new @ '';\<newline>''))
         \<and> r \<noteq> Inl (KeyError ''index'')
         \<and> (\<forall>sql. Execute sql \<in> set (added s s') \<longrightarrow>
               sql = ''DROP TABLE IF EXISTS '' @ table \<or> q ''new'' = Some sql)"
proof -
  from copy_table_trace [OF assms(2)] obtain t fetched where t:
    "trace s' = trace s @ t"
    "prefix (actions t) (spec_table_actions DROP_TABLES table q fetched)"
    "r \<noteq> Inl (KeyError ''index'')"
    by blast
  have "sql = ''DROP TABLE IF EXISTS '' @ table \<or> q ''new'' = Some sql"
    if "Execute sql \<in> set (added s s')" for sql
  proof -
    from that t(1) have "Execute sql \<in> set (actions t)"
      by (simp add: actions_def is_log_def)
    with t(2) have "Execute sql \<in> set (spec_table_actions DROP_TABLES table q fetched)"
      using set_mono_prefix by blast
    with assms(1) show ?thesis
      by (auto simp: spec_table_actions_def split: option.splits if_splits)
  qed
  moreover have "fst (schema_entry q sqlite_db_schema s0) =
           (case q ''new'' of
              None \<Rightarrow> Inl (KeyError ''new'')
            | Some new \<Rightarrow> Inr (sqlite_db_schema @ ''\<newline>'' @ new @ '';\<newline>''))"
    using assms(1) by (simp add: schema_entry_def prim_defs split: option.splits)
  ultimately show ?thesis using t(3) by blast
qed

theorem no_index_no_index_statement_witness:
  "fst (schema_entry users_entry [] (start empty_db_world)) =
      Inr ''\<newline>CREATE TABLE users(id INT, name TEXT);\<newline>''
   \<and> fst (copy_table ref_engine ''/var/cache/m2s/mail.db'' True (''users'', users_entry)
          (start empty_db_world)) \<noteq> Inl (KeyError ''index'')
   \<and> Execute ''CREATE INDEX users_idx ON users(id)'' \<notin> set (added (start empty_db_world)
        (snd (copy_table ref_engine ''/var/cache/m2s/mail.db'' True (''users'', users_entry)
          (start empty_db_world))))"
  using no_index_no_index_statement [of users_entry ref_engine "''/var/cache/m2s/mail.db''" True
    "''users''" "start empty_db_world"
    "fst (copy_table ref_engine ''/var/cache/m2s/mail.db'' True (''users'', users_entry)
          (start empty_db_world))"
    "snd (copy_table ref_engine ''/var/cache/m2s/mail.db'' True (''users'', users_entry)
          (start empty_db_world))" "[]" "start empty_db_world"]
  by (auto simp: users_entry_def)

text \<open>
  C9. The storage check \<^verbatim>\<open>verify_sqlite_storage\<close>, on every state of the file system and
  of the two flags: when the base directory does not exist it exits if \<^verbatim>\<open>fail_on_warnings\<close>
  is set, otherwise calls \<^verbatim>\<open>os.makedirs\<close> if \<^verbatim>\<open>create_directories\<close> is set (exiting
  on \<^verbatim>\<open>OSError\<close>), otherwise exits with the create-it-yourself message; when the
  directory and the database file exist it exits iff the file is not writable; when the
  directory exists and the file does not, it exits iff the directory is not writable.
  Every branch ends by returning or by \<^verbatim>\<open>sys.exit\<close>, and \<^verbatim>\<open>os.makedirs\<close> is called on
  exactly one of them.
\<close>

theorem verify_sqlite_storage_branches:
  assumes "sqlitedb_config gs ''base_dir'' = Some base_dir"
      and "sqlitedb_config gs ''db_file'' = Some db_file"
      and "flags gs ''fail_on_warnings'' = Some fail_on_warnings"
      and "flags gs ''create_directories'' = Some create_directories"
  shows "fst (verify_sqlite_storage E gs qs s) =
     (if \<not> os_path_isdir E (world s) base_dir then
        (if fail_on_warnings then Inl (SystemExit (ExitInt 1))
         else if create_directories then
           (case os_makedirs E (world s) base_dir of
              None \<Rightarrow> Inl (SystemExit ExitOSError)
            | Some w \<Rightarrow> Inr ())
         else Inl (SystemExit (ExitText (error_message base_dir))))
      else if os_path_exists E (world s) db_file then
        (if os_access_W_OK E (world s) db_file then Inr () else Inl (SystemExit (ExitInt 1)))
      else
        (if os_access_W_OK E (world s) base_dir then Inr () else Inl (SystemExit (ExitInt 1))))
    \<and> (MakeDirs base_dir \<in> set (added s (snd (verify_sqlite_storage E gs qs s))))
        = (\<not> os_path_isdir E (world s) base_dir \<and> \<not> fail_on_warnings \<and> create_directories)"
  using assms
  by (simp add: verify_sqlite_storage_def file_can_be_modified_def dir_can_be_modified_def
        added_def prim_defs split: option.splits)

theorem verify_sqlite_storage_branches_witness:
  "fst (verify_sqlite_storage ref_engine sample_settings users_catalog
          (start (empty_db_world\<lparr>rw_dirs := [], rw_creatable := [''/var/cache/m2s'']\<rparr>))) = Inr ()
   \<and> MakeDirs ''/var/cache/m2s'' \<in> set (added
        (start (empty_db_world\<lparr>rw_dirs := [], rw_creatable := [''/var/cache/m2s'']\<rparr>))
        (snd (verify_sqlite_storage ref_engine sample_settings users_catalog
          (start (empty_db_world\<lparr>rw_dirs := [], rw_creatable := [''/var/cache/m2s'']\<rparr>)))))"
  using verify_sqlite_storage_branches [of sample_settings "''/var/cache/m2s''"
     "''/var/cache/m2s/mail.db''" False True ref_engine users_catalog
     "start (empty_db_world\<lparr>rw_dirs := [], rw_creatable := [''/var/cache/m2s'']\<rparr>)"]
  by (simp add: sample_settings_def ref_engine_def start_def empty_db_world_def)

text \<open>
  C10, as the code has it. \<^verbatim>\<open>sqlite_db_has_tables\<close> has no error handling: when
  \<^verbatim>\<open>sqlite3.connect\<close> raises, the call raises; when the connect succeeds and the file it
  opened (or created) holds no table, the call returns \<open>False\<close> and leaves the world as
  the connect made it. In the script the existence test of the database file is the first
  event of the run, before any connect, and \<^verbatim>\<open>SQLITE_DB_IS_NEW\<close> is its negated answer.
\<close>

theorem probe_on_missing_file:
  "(sqlite3_connect E (world s) p = None \<longrightarrow>
      fst (sqlite_db_has_tables E p s) = Inl SqliteError)
   \<and> (\<forall>w. sqlite3_connect E (world s) p = Some w \<and> count_tables E w p = Some 0 \<longrightarrow>
        sqlite_db_has_tables E p s =
          (Inr False,
           \<lparr>world = w,
            trace = trace s @ [Connect ProbeConn p, ProbeExecute count_sql,
                               Log DEBUG ''Table count: %d '']\<rparr>))
   \<and> (sqlitedb_config gs ''db_file'' = Some p \<longrightarrow>
        (\<exists>rest. added s (snd (mirror_run E gs qs s)) = PathExists p # rest) \<and>
        (\<forall>is_new s1. open_sqlite_db E gs qs p s = (Inr is_new, s1) \<longrightarrow>
           is_new = (\<not> os_path_exists E (world s) p)))"
proof (intro conjI impI allI)
  assume "sqlite3_connect E (world s) p = None"
  then show "fst (sqlite_db_has_tables E p s) = Inl SqliteError"
    by (simp add: sqlite_db_has_tables_def prim_defs)
next
  fix w
  assume "sqlite3_connect E (world s) p = Some w \<and> count_tables E w p = Some 0"
  then show "sqlite_db_has_tables E p s =
          (Inr False,
           \<lparr>world = w,
            trace = trace s @ [Connect ProbeConn p, ProbeExecute count_sql,
                               Log DEBUG ''Table count: %d '']\<rparr>)"
    by (simp add: sqlite_db_has_tables_def prim_defs)
next
  assume db: "sqlitedb_config gs ''db_file'' = Some p"
  from starts_with_mirror_run [OF db, of E qs]
  obtain rest where "trace (snd (mirror_run E gs qs s)) = trace s @ PathExists p # rest"
    unfolding starts_with_def by blast
  then show "\<exists>rest. added s (snd (mirror_run E gs qs s)) = PathExists p # rest"
    by simp
next
  fix is_new s1
  assume "open_sqlite_db E gs qs p s = (Inr is_new, s1)"
  then show "is_new = (\<not> os_path_exists E (world s) p)"
    by (rule open_sqlite_db_is_new)
qed

theorem probe_on_missing_file_witness:
  "\<not> os_path_exists ref_engine new_file_world ''/var/cache/m2s/mail.db''
   \<and> sqlite_db_has_tables ref_engine ''/var/cache/m2s/mail.db'' (start new_file_world) =
       (Inr False,
        \<lparr>world = new_file_world\<lparr>rw_dbs := [(''/var/cache/m2s/mail.db'', 0)]\<rparr>,
         trace = [Connect ProbeConn ''/var/cache/m2s/mail.db'', ProbeExecute count_sql,
                  Log DEBUG ''Table count: %d '']\<rparr>)
   \<and> os_path_exists ref_engine (new_file_world\<lparr>rw_dbs := [(''/var/cache/m2s/mail.db'', 0)]\<rparr>)
        ''/var/cache/m2s/mail.db''"
  using probe_on_missing_file [of ref_engine "start new_file_world" "''/var/cache/m2s/mail.db''"
    sample_settings users_catalog]
  by (simp add: ref_engine_def new_file_world_def empty_db_world_def start_def)

text \<open>
  C10 as stated says the probe never raises on a path without a database file. Where
  neither the file nor its directory exists, the connect fails and the probe raises.
\<close>

theorem probe_raises_on_missing_file_counterexample:
  "\<not> os_path_exists ref_engine no_storage_world ''/var/cache/m2s/mail.db''
   \<and> fst (sqlite_db_has_tables ref_engine ''/var/cache/m2s/mail.db'' (start no_storage_world))
       = Inl SqliteError"
  by (simp add: sqlite_db_has_tables_def ref_engine_def no_storage_world_def empty_db_world_def
        start_def prim_defs)

end
